theory Spec2Isabelle
  imports Complex_Main "HOL-Library.Char_ord" "HOL-Library.List_Lexorder"
begin

section \<open>Errors\<close>

text \<open>
  The Python exceptions that the modelled functions can raise. A function that can raise
  returns \<open>py_error + 'a\<close>, with \<open>Inl\<close> for the exception.
\<close>

datatype py_error =
  ValueError | KeyError | IndexError | TypeError | AssertionError | ZeroDivisionError

section \<open>Outcome classification of one attack iteration\<close>

text \<open>
  \<^verbatim>\<open>attack_utils.run_watermark_attack\<close>, lines 775-802. The raw scores of a model
  are thresholded by \<^verbatim>\<open>1 if pred > 0.5 else 0\<close>; the loop over
  \<^verbatim>\<open>zip(orig_mwts_predictions, new_mwts_predictions)\<close> then updates three counters.
  The branch order is the source's: failure, success, benign in both; a pair for which
  no branch fires leaves all three counters unchanged.
\<close>

definition binarise :: "real \<Rightarrow> int" where
  "binarise pred = (if pred > 1 / 2 then 1 else 0)"

record outcome_counts =
  successes :: nat
  failures :: nat
  benign_in_both_models :: nat

definition classify_step :: "int \<times> int \<Rightarrow> outcome_counts \<Rightarrow> outcome_counts" where
  "classify_step p c =
     (case p of (orig, new) \<Rightarrow>
        if orig = 0 \<and> new = 1 then c\<lparr>failures := failures c + 1\<rparr>
        else if orig = 1 \<and> new = 0 then c\<lparr>successes := successes c + 1\<rparr>
        else if new = 0 then c\<lparr>benign_in_both_models := benign_in_both_models c + 1\<rparr>
        else c)"

definition classify_outcomes :: "int list \<Rightarrow> int list \<Rightarrow> outcome_counts" where
  "classify_outcomes orig_mwts_predictions new_mwts_predictions =
     fold classify_step (zip orig_mwts_predictions new_mwts_predictions)
       \<lparr>successes = 0, failures = 0, benign_in_both_models = 0\<rparr>"

text \<open>
  Not computed by the source: the number of samples that both models classify as
  malicious. It is the quantity missing from the three counters.
\<close>

definition detected_by_both :: "int list \<Rightarrow> int list \<Rightarrow> nat" where
  "detected_by_both orig_mwts_predictions new_mwts_predictions =
     length (filter (\<lambda>p. fst p = 1 \<and> snd p = 1)
       (zip orig_mwts_predictions new_mwts_predictions))"

section \<open>Isolation forest evaluation\<close>

text \<open>
  \<^verbatim>\<open>defense_isoforest.isolation_forest_analysis\<close>. The fitted detector is a
  collaborator: \<open>fit_predict\<close> stands for \<^verbatim>\<open>IsolationForest(...).fit_predict\<close> and
  returns one prediction per row, \<open>-1\<close> for an outlier. The loop runs over
  \<^verbatim>\<open>range(len(isof_pred))\<close> and reads \<^verbatim>\<open>is_clean[i]\<close>, which raises
  \<^verbatim>\<open>IndexError\<close> when \<open>is_clean\<close> is shorter than the predictions. The state of
  the loop is (suspect, poison_found, false_positives_poison).
\<close>

definition isof_step :: "int list \<Rightarrow> real list \<Rightarrow> nat \<Rightarrow> nat \<times> nat \<times> nat \<Rightarrow> nat \<times> nat \<times> nat" where
  "isof_step isof_pred is_clean i st =
     (case st of (suspect, poison_found, false_positives_poison) \<Rightarrow>
        let suspect' = (if isof_pred ! i = -1 then suspect + 1 else suspect) in
        if is_clean ! i = 0 \<and> isof_pred ! i = -1
          then (suspect', poison_found + 1, false_positives_poison)
        else if isof_pred ! i = -1 \<and> is_clean ! i = 1
          then (suspect', poison_found, false_positives_poison + 1)
        else (suspect', poison_found, false_positives_poison))"

definition isolation_forest_counts :: "int list \<Rightarrow> real list \<Rightarrow> py_error + nat \<times> nat \<times> nat" where
  "isolation_forest_counts isof_pred is_clean =
     (if length is_clean < length isof_pred then Inl IndexError
      else Inr (fold (isof_step isof_pred is_clean) [0..<length isof_pred] (0, 0, 0)))"

definition isolation_forest_analysis ::
  "('x \<Rightarrow> int list) \<Rightarrow> 'x \<Rightarrow> real list \<Rightarrow> py_error + int list \<times> nat \<times> nat \<times> nat" where
  "isolation_forest_analysis fit_predict xtrain is_clean =
     (let isof_pred = fit_predict xtrain in
      case isolation_forest_counts isof_pred is_clean of
        Inl e \<Rightarrow> Inl e
      | Inr counts \<Rightarrow> Inr (isof_pred, counts))"

text \<open>The rows a detector flags and the ground truth, as index lists.\<close>

definition flagged_poisoned :: "int list \<Rightarrow> real list \<Rightarrow> nat list" where
  "flagged_poisoned isof_pred is_clean =
     filter (\<lambda>i. isof_pred ! i = -1 \<and> is_clean ! i = 0) [0..<length isof_pred]"

definition flagged_clean :: "int list \<Rightarrow> real list \<Rightarrow> nat list" where
  "flagged_clean isof_pred is_clean =
     filter (\<lambda>i. isof_pred ! i = -1 \<and> is_clean ! i = 1) [0..<length isof_pred]"

definition flagged :: "int list \<Rightarrow> nat list" where
  "flagged isof_pred = filter (\<lambda>i. isof_pred ! i = -1) [0..<length isof_pred]"

definition poisoned_rows :: "real list \<Rightarrow> nat list" where
  "poisoned_rows is_clean = filter (\<lambda>i. is_clean ! i = 0) [0..<length is_clean]"

section \<open>Applying and testing a trigger\<close>

text \<open>
  A trigger (\<^verbatim>\<open>watermark_features\<close>) is a Python dict from feature name to value: an
  association list in insertion order whose keys are distinct. A dense sample is the list
  of its feature values; \<open>'v\<close> is the type of numbers, of the entries and of the trigger
  values alike.

  A numpy array has a dtype, and \<^verbatim>\<open>x[i] = value\<close> converts the value to it before
  storing: 5.7 becomes 5 in an integer array and is rounded in a \<^verbatim>\<open>float32\<close> array.
  \<open>astype\<close> is this conversion; it is the identity on the numbers that the dtype
  holds. The test \<^verbatim>\<open>x[i] != value\<close> compares the entry with the trigger value itself:
  an integer entry and a Python float are compared as floats, a \<^verbatim>\<open>float32\<close> entry and a
  Python float in double precision (numpy before version 2; from version 2 on the
  float is rounded to \<^verbatim>\<open>float32\<close> first, which is outside the model).
  The \<^verbatim>\<open>OverflowError\<close> of a value beyond the range of an integer dtype and the
  comparison of NaN are outside the model.

  \<^verbatim>\<open>feature_names.index(feat_name)\<close> is the position of the first occurrence and raises
  \<^verbatim>\<open>ValueError\<close> when the name is absent.
\<close>

type_synonym 'v trigger = "(string \<times> 'v) list"

fun index :: "string list \<Rightarrow> string \<Rightarrow> nat option" where
  "index [] feat_name = None"
| "index (n # ns) feat_name =
     (if n = feat_name then Some 0 else map_option Suc (index ns feat_name))"

text \<open>
  \<^verbatim>\<open>attack_utils.watermark_one_sample\<close>, the loop of the last two branches:
  \<^verbatim>\<open>x[feature_names.index(feat_name)] = feat_value\<close> for every item of the trigger, in
  order. Writing at a position beyond the sample raises \<^verbatim>\<open>IndexError\<close>.
\<close>

fun watermark_items ::
  "('v \<Rightarrow> 'v) \<Rightarrow> 'v trigger \<Rightarrow> string list \<Rightarrow> 'v list \<Rightarrow> py_error + 'v list" where
  "watermark_items astype [] feature_names x = Inr x"
| "watermark_items astype ((feat_name, feat_value) # wm) feature_names x =
     (case index feature_names feat_name of
        None \<Rightarrow> Inl ValueError
      | Some i \<Rightarrow>
          if i < length x
          then watermark_items astype wm feature_names (x[i := astype feat_value])
          else Inl IndexError)"

text \<open>
  \<^verbatim>\<open>attack_utils.watermark_one_sample\<close>. For \<^verbatim>\<open>'pdf'\<close> the new vector comes from the
  collaborator \<^verbatim>\<open>mimicus_utils.apply_pdf_watermark\<close> (a parameter here), is asserted to
  have the shape of \<open>x\<close> and is copied into \<open>x\<close> entry by entry. The \<^verbatim>\<open>'drebin'\<close>
  branch assigns the column of a one-row sparse matrix and the last branch the entry of
  a dense vector; on a row both are the same update. \<open>astype\<close> is the conversion to
  the dtype of \<open>x\<close>.
\<close>

definition watermark_one_sample ::
  "('v \<Rightarrow> 'v) \<Rightarrow> (string \<Rightarrow> 'v trigger \<Rightarrow> 'v list) \<Rightarrow> string \<Rightarrow> 'v trigger
     \<Rightarrow> string list \<Rightarrow> 'v list \<Rightarrow> string \<Rightarrow> py_error + 'v list" where
  "watermark_one_sample astype apply_pdf_watermark data_id watermark_features feature_names x
       filename =
     (if data_id = ''pdf'' then
        (let y = apply_pdf_watermark filename watermark_features in
         if length x = length y then Inr (map astype y) else Inl AssertionError)
      else if data_id = ''drebin''
        then watermark_items astype watermark_features feature_names x
      else watermark_items astype watermark_features feature_names x)"

text \<open>
  \<^verbatim>\<open>attack_utils.is_watermarked_sample\<close>: the loop stops with \<open>False\<close> at the first
  item whose entry differs (\<^verbatim>\<open>!=\<close>) from the target value.
\<close>

fun is_watermarked_sample :: "'v trigger \<Rightarrow> string list \<Rightarrow> 'v list \<Rightarrow> py_error + bool" where
  "is_watermarked_sample [] feature_names x = Inr True"
| "is_watermarked_sample ((feat_name, feat_value) # wm) feature_names x =
     (case index feature_names feat_name of
        None \<Rightarrow> Inl ValueError
      | Some i \<Rightarrow>
          if i < length x then
            (if x ! i \<noteq> feat_value then Inr False
             else is_watermarked_sample wm feature_names x)
          else Inl IndexError)"

text \<open>
  \<^verbatim>\<open>attack_utils.num_watermarked_samples\<close>:
  \<^verbatim>\<open>sum([is_watermarked_sample(...) for x in X])\<close>; the list comprehension is evaluated
  first, so an exception on any row is raised.
\<close>

fun num_watermarked_samples :: "'v trigger \<Rightarrow> string list \<Rightarrow> 'v list list \<Rightarrow> py_error + nat" where
  "num_watermarked_samples wm feature_names [] = Inr 0"
| "num_watermarked_samples wm feature_names (x # X) =
     (case is_watermarked_sample wm feature_names x of
        Inl e \<Rightarrow> Inl e
      | Inr b \<Rightarrow>
          (case num_watermarked_samples wm feature_names X of
             Inl e \<Rightarrow> Inl e
           | Inr n \<Rightarrow> Inr ((if b then 1 else 0) + n)))"

section \<open>Reading the configuration\<close>

text \<open>
  A configuration file is JSON. \<^verbatim>\<open>json.load\<close> yields Python values whose type
  \<^verbatim>\<open>read_config\<close> inspects (\<^verbatim>\<open>type(i) is not float\<close>), so the model keeps integers
  and floats apart; a JSON object is the association list of its items. The non-finite
  floats that Python's parser also accepts are not represented.
\<close>

datatype json =
  JNull
| JBool bool
| JInt int
| JFloat real
| JStr string
| JList "json list"
| JObj "(string \<times> json) list"

type_synonym config = "(string \<times> json) list"

datatype config_file = Missing | Malformed | Parsed json

text \<open>
  The module \<^verbatim>\<open>mw_backdoor.constants\<close> is not among the sources: the collections that
  \<^verbatim>\<open>read_config\<close> consults are parameters.
\<close>

record constants =
  possible_features_targets :: "string list"
  feature_selection_criteria :: "string list"
  value_selection_criteria :: "string list"
  possible_datasets :: "string list"
  train_sizes :: "(string \<times> int) list"
  possible_model_targets :: "string list"
  possible_clustering_methods :: "string list"

definition bind_e :: "py_error + 'a \<Rightarrow> ('a \<Rightarrow> py_error + 'b) \<Rightarrow> py_error + 'b" where
  "bind_e m f = (case m of Inl e \<Rightarrow> Inl e | Inr x \<Rightarrow> f x)"

text \<open>\<^verbatim>\<open>cfg[key]\<close>: \<^verbatim>\<open>KeyError\<close> when the key is absent.\<close>

definition getitem :: "config \<Rightarrow> string \<Rightarrow> py_error + json" where
  "getitem cfg key = (case map_of cfg key of None \<Rightarrow> Inl KeyError | Some v \<Rightarrow> Inr v)"

text \<open>
  \<^verbatim>\<open>cfg[key] = v\<close> on a dict: an existing key keeps its position, a new key is
  appended.
\<close>

fun setitem :: "('k \<times> 'a) list \<Rightarrow> 'k \<Rightarrow> 'a \<Rightarrow> ('k \<times> 'a) list" where
  "setitem [] key v = [(key, v)]"
| "setitem ((k, w) # d) key v = (if k = key then (k, v) # d else (k, w) # setitem d key v)"

text \<open>
  \<^verbatim>\<open>for i in value\<close>: a list yields its elements, a string its characters, an object
  its keys; any other value is not iterable.
\<close>

fun iterate :: "json \<Rightarrow> py_error + json list" where
  "iterate (JList xs) = Inr xs"
| "iterate (JStr s) = Inr (map (\<lambda>c. JStr [c]) s)"
| "iterate (JObj kvs) = Inr (map (\<lambda>kv. JStr (fst kv)) kvs)"
| "iterate _ = Inl TypeError"

text \<open>
  \<^verbatim>\<open>i in collection\<close> for a collection of strings, taken to be hashed (a set): a list
  or an object is unhashable and raises \<^verbatim>\<open>TypeError\<close>; a number, a boolean or null is
  not a member.
\<close>

fun contains :: "string list \<Rightarrow> json \<Rightarrow> py_error + bool" where
  "contains coll (JStr s) = Inr (s \<in> set coll)"
| "contains coll (JList xs) = Inl TypeError"
| "contains coll (JObj kvs) = Inl TypeError"
| "contains coll _ = Inr False"

text \<open>A loop that raises \<^verbatim>\<open>ValueError\<close> at the first element failing a test.\<close>

fun check_each :: "(json \<Rightarrow> py_error + bool) \<Rightarrow> json list \<Rightarrow> py_error + unit" where
  "check_each ok [] = Inr ()"
| "check_each ok (i # is) =
     bind_e (ok i) (\<lambda>b. if b then check_each ok is else Inl ValueError)"

definition is_float :: "json \<Rightarrow> py_error + bool" where
  "is_float i = Inr (case i of JFloat r \<Rightarrow> True | _ \<Rightarrow> False)"

definition is_int :: "json \<Rightarrow> py_error + bool" where
  "is_int i = Inr (case i of JInt n \<Rightarrow> True | _ \<Rightarrow> False)"

definition require :: "py_error + bool \<Rightarrow> py_error + unit" where
  "require t = bind_e t (\<lambda>b. if b then Inr () else Inl ValueError)"

text \<open>
  \<^verbatim>\<open>int(train_size * p)\<close>: truncation towards zero; \<open>p\<close> is a float here. The product
  is taken in the real numbers. The floating-point product of the code can fall just
  below a whole number that the real product reaches (\<^verbatim>\<open>600000 * 0.41\<close> is
  \<^verbatim>\<open>245999.99999999997\<close>, truncated to 245999 where the model has 246000), so the
  scaled sizes of the model are those of the code up to this rounding.
\<close>

definition py_int :: "real \<Rightarrow> int" where
  "py_int r = (if 0 \<le> r then \<lfloor>r\<rfloor> else \<lceil>r\<rceil>)"

fun scale_poison :: "int \<Rightarrow> json \<Rightarrow> py_error + json" where
  "scale_poison train_size (JFloat p) = Inr (JInt (py_int (real_of_int train_size * p)))"
| "scale_poison train_size _ = Inl TypeError"

fun map_e :: "('a \<Rightarrow> py_error + 'b) \<Rightarrow> 'a list \<Rightarrow> py_error + 'b list" where
  "map_e f [] = Inr []"
| "map_e f (x # xs) = bind_e (f x) (\<lambda>y. bind_e (map_e f xs) (\<lambda>ys. Inr (y # ys)))"

text \<open>
  \<^verbatim>\<open>train_sizes[cfg['dataset']]\<close>: the dataset is a string at this point, since it
  passed the membership test.
\<close>

fun train_size_of :: "(string \<times> int) list \<Rightarrow> json \<Rightarrow> py_error + int" where
  "train_size_of sizes (JStr d) =
     (case map_of sizes d of None \<Rightarrow> Inl KeyError | Some n \<Rightarrow> Inr n)"
| "train_size_of sizes _ = Inl KeyError"

text \<open>
  \<^verbatim>\<open>common_utils.read_config\<close>, in the order of the source. A file that does not
  exist raises \<^verbatim>\<open>ValueError\<close>, as does one that is not JSON (the decoder's exception
  is a \<^verbatim>\<open>ValueError\<close>); subscripting a top-level value that is not an object raises
  \<^verbatim>\<open>TypeError\<close>.
\<close>

definition defense_checks :: "constants \<Rightarrow> config \<Rightarrow> py_error + config" where
  "defense_checks consts cfg =
     bind_e (getitem cfg ''model'') (\<lambda>i.
     bind_e (require (contains (possible_model_targets consts) i)) (\<lambda>_.
     bind_e (getitem cfg ''t_max'') (\<lambda>i.
     bind_e (require (is_float i)) (\<lambda>_.
     bind_e (getitem cfg ''min_keep'') (\<lambda>i.
     bind_e (require (is_float i)) (\<lambda>_.
     bind_e (getitem cfg ''mcs'') (\<lambda>i.
     bind_e (require (is_float i)) (\<lambda>_.
     bind_e (getitem cfg ''ms'') (\<lambda>i.
     bind_e (require (is_float i)) (\<lambda>_.
     bind_e (getitem cfg ''clustering'') (\<lambda>i.
     bind_e (require (contains (possible_clustering_methods consts) i)) (\<lambda>_.
     Inr cfg))))))))))))"

definition check_config :: "constants \<Rightarrow> config \<Rightarrow> bool \<Rightarrow> py_error + config" where
  "check_config consts cfg atk_def =
     bind_e (getitem cfg ''poison_size'') (\<lambda>ps.
     bind_e (iterate ps) (\<lambda>items.
     bind_e (check_each is_float items) (\<lambda>_.
     bind_e (getitem cfg ''watermark_size'') (\<lambda>ws.
     bind_e (iterate ws) (\<lambda>items.
     bind_e (check_each is_int items) (\<lambda>_.
     bind_e (getitem cfg ''target_features'') (\<lambda>i.
     bind_e (require (contains (possible_features_targets consts) i)) (\<lambda>_.
     bind_e (getitem cfg ''feature_selection'') (\<lambda>fs.
     bind_e (iterate fs) (\<lambda>items.
     bind_e (check_each (contains (feature_selection_criteria consts)) items) (\<lambda>_.
     bind_e (getitem cfg ''value_selection'') (\<lambda>vs.
     bind_e (iterate vs) (\<lambda>items.
     bind_e (check_each (contains (value_selection_criteria consts)) items) (\<lambda>_.
     bind_e (getitem cfg ''dataset'') (\<lambda>i.
     bind_e (require (contains (possible_datasets consts) i)) (\<lambda>_.
     bind_e (train_size_of (train_sizes consts) i) (\<lambda>train_size.
     bind_e (iterate ps) (\<lambda>items.
     bind_e (map_e (scale_poison train_size) items) (\<lambda>sizes.
     let cfg' = setitem cfg ''poison_size'' (JList sizes) in
     if atk_def then
       bind_e (getitem cfg' ''iterations'') (\<lambda>i.
       bind_e (require (is_int i)) (\<lambda>_. Inr cfg'))
     else defense_checks consts cfg')))))))))))))))))))"

definition read_config :: "constants \<Rightarrow> config_file \<Rightarrow> bool \<Rightarrow> py_error + config" where
  "read_config consts cfg_file atk_def =
     (case cfg_file of
        Missing \<Rightarrow> Inl ValueError
      | Malformed \<Rightarrow> Inl ValueError
      | Parsed (JObj cfg) \<Rightarrow> check_config consts cfg atk_def
      | Parsed _ \<Rightarrow> Inl TypeError)"

text \<open>
  The script of \<^verbatim>\<open>backdoor_attack.py\<close>: the configuration is read first;
  \<^verbatim>\<open>run_attacks\<close>, which loads the features, the dataset and the model and builds the
  selectors, runs on the configuration that was returned. \<open>run_attacks\<close> is a parameter
  acting on a log of the loading and selection events; an exception of
  \<^verbatim>\<open>read_config\<close> ends the script with the log as it was.
\<close>

definition main_script ::
  "constants \<Rightarrow> config_file \<Rightarrow> int \<Rightarrow> (config \<Rightarrow> 'ev list \<Rightarrow> 'ev list) \<Rightarrow> 'ev list
     \<Rightarrow> py_error option \<times> 'ev list" where
  "main_script consts cfg_file seed run_attacks events =
     (case read_config consts cfg_file True of
        Inl e \<Rightarrow> (Some e, events)
      | Inr config \<Rightarrow> (None, run_attacks (setitem config ''seed'' (JInt seed)) events))"

section \<open>Saving and loading a trigger\<close>

text \<open>
  \<^verbatim>\<open>str(i)\<close> of a natural number: its decimal digits, without leading zeros. This is
  what \<^verbatim>\<open>json.dump\<close> writes for an integer key of a dict.
\<close>

definition digit_char :: "nat \<Rightarrow> char" where
  "digit_char d = ''0123456789'' ! d"

fun str_nat :: "nat \<Rightarrow> string" where
  "str_nat n = (if n < 10 then [digit_char n] else str_nat (n div 10) @ [digit_char (n mod 10)])"

declare str_nat.simps [simp del]

text \<open>
  \<^verbatim>\<open>generate_watermarks.get_watermarks\<close>, lines 166-168: the dict \<^verbatim>\<open>wm_json\<close> built
  from the trigger. \<^verbatim>\<open>reversed\<close> runs over the keys from the last inserted to the
  first; \<^verbatim>\<open>watermark_features_map[key]\<close> is the value stored with the key, so the loop
  is over the reversed items.
\<close>

record 'v wm_dict =
  order_dict :: "(nat \<times> string) list"
  map_dict :: "(string \<times> 'v) list"

definition wm_json_step :: "nat \<times> string \<times> 'v \<Rightarrow> 'v wm_dict \<Rightarrow> 'v wm_dict" where
  "wm_json_step item wm_json =
     (case item of (i, key, v) \<Rightarrow>
        \<lparr>order_dict = setitem (order_dict wm_json) i key,
         map_dict = setitem (map_dict wm_json) key v\<rparr>)"

definition build_wm_json :: "'v trigger \<Rightarrow> 'v wm_dict" where
  "build_wm_json watermark_features_map =
     fold wm_json_step (enumerate 0 (rev watermark_features_map))
       \<lparr>order_dict = [], map_dict = []\<rparr>"

text \<open>
  The file as \<^verbatim>\<open>json.load\<close> reads it back: the keys of \<^verbatim>\<open>order\<close> are strings.
  Feature values are taken to be written and parsed without loss.
\<close>

record 'v wm_file =
  file_order :: "(string \<times> string) list"
  file_map :: "(string \<times> 'v) list"

definition json_dump :: "'v wm_dict \<Rightarrow> 'v wm_file" where
  "json_dump wm_json =
     \<lparr>file_order = map (\<lambda>item. (str_nat (fst item), snd item)) (order_dict wm_json),
      file_map = map_dict wm_json\<rparr>"

definition save_watermark :: "'v trigger \<Rightarrow> 'v wm_file" where
  "save_watermark watermark_features_map = json_dump (build_wm_json watermark_features_map)"

text \<open>
  \<^verbatim>\<open>attack_utils.load_watermark\<close>. \<^verbatim>\<open>sorted(ordering.keys())\<close> sorts the keys as
  strings, by code point. \<open>key_of\<close> is the translation of a feature name into the key
  of the result (\<open>ord_items\<close> is the source's \<^verbatim>\<open>ordering\<close>): \<open>Inr\<close> when \<^verbatim>\<open>name_feat_map\<close> is \<^verbatim>\<open>None\<close>, the lookup in
  \<^verbatim>\<open>name_feat_map\<close> otherwise. The loop counts the items it has stored and stops when
  the count is \<open>wm_size\<close>.
\<close>

fun load_loop ::
  "(string \<times> string) list \<Rightarrow> (string \<times> 'v) list \<Rightarrow> (string \<Rightarrow> py_error + 'k) \<Rightarrow> int
     \<Rightarrow> string list \<Rightarrow> int \<Rightarrow> ('k \<times> 'v) list \<Rightarrow> py_error + ('k \<times> 'v) list" where
  "load_loop ord_items mapping key_of wm_size [] i wm = Inr wm"
| "load_loop ord_items mapping key_of wm_size (ind # inds) i wm =
     (case map_of ord_items ind of
        None \<Rightarrow> Inl KeyError
      | Some feat \<Rightarrow>
          bind_e (key_of feat) (\<lambda>key.
            case map_of mapping feat of
              None \<Rightarrow> Inl KeyError
            | Some v \<Rightarrow>
                if i + 1 = wm_size then Inr (setitem wm key v)
                else load_loop ord_items mapping key_of wm_size inds (i + 1) (setitem wm key v)))"

definition load_watermark_with ::
  "(string \<Rightarrow> py_error + 'k) \<Rightarrow> 'v wm_file \<Rightarrow> int \<Rightarrow> py_error + ('k \<times> 'v) list" where
  "load_watermark_with key_of loaded_json wm_size =
     load_loop (file_order loaded_json) (file_map loaded_json) key_of wm_size
       (sort (map fst (file_order loaded_json))) 0 []"

definition load_watermark :: "'v wm_file \<Rightarrow> int \<Rightarrow> py_error + 'v trigger" where
  "load_watermark loaded_json wm_size = load_watermark_with Inr loaded_json wm_size"

definition name_feat_lookup :: "(string \<times> 'k) list \<Rightarrow> string \<Rightarrow> py_error + 'k" where
  "name_feat_lookup name_feat_map feat =
     (case map_of name_feat_map feat of None \<Rightarrow> Inl KeyError | Some key \<Rightarrow> Inr key)"

section \<open>Arrays in a store\<close>

text \<open>
  The feature matrices are numpy arrays that the attack reads, copies and mutates in
  place. A matrix is the list of its rows; the store is the list of the matrices
  allocated so far and an array is known by its position in it. A program takes the
  store and returns an exception or a result with the new store.

  What numpy does is written into the primitives: indexing with a boolean mask
  (\<^verbatim>\<open>X[y == 0]\<close>), indexing with a list of row numbers (\<^verbatim>\<open>X[idxs]\<close>),
  \<^verbatim>\<open>np.delete\<close> and \<^verbatim>\<open>np.concatenate\<close> allocate a new array, while \<^verbatim>\<open>X[index]\<close> for
  one row number is a view: writing through it changes row \<open>index\<close> of \<open>X\<close>.
\<close>

type_synonym 'v matrix = "'v list list"

type_synonym 'v store = "'v matrix list"

type_synonym ('v, 'a) prog = "'v store \<Rightarrow> py_error + 'a \<times> 'v store"

definition return_p :: "'a \<Rightarrow> ('v, 'a) prog" where
  "return_p x st = Inr (x, st)"

definition lift_p :: "py_error + 'a \<Rightarrow> ('v, 'a) prog" where
  "lift_p r st = (case r of Inl e \<Rightarrow> Inl e | Inr x \<Rightarrow> Inr (x, st))"

definition bind_p :: "('v, 'a) prog \<Rightarrow> ('a \<Rightarrow> ('v, 'b) prog) \<Rightarrow> ('v, 'b) prog" where
  "bind_p m f st = (case m st of Inl e \<Rightarrow> Inl e | Inr (x, st') \<Rightarrow> f x st')"

definition assert_p :: "bool \<Rightarrow> ('v, unit) prog" where
  "assert_p b = lift_p (if b then Inr () else Inl AssertionError)"

definition when_p :: "bool \<Rightarrow> ('v, unit) prog \<Rightarrow> ('v, unit) prog" where
  "when_p b m = (if b then m else return_p ())"

definition alloc :: "'v matrix \<Rightarrow> ('v, nat) prog" where
  "alloc m st = Inr (length st, st @ [m])"

definition deref :: "nat \<Rightarrow> ('v, 'v matrix) prog" where
  "deref a st = Inr (st ! a, st)"

text \<open>
  \<^verbatim>\<open>X[index] = f(X[index])\<close> where \<open>f\<close> mutates the view it is given and returns it:
  row \<open>row_index\<close> of the array is replaced by the result. A row number out of range
  raises \<^verbatim>\<open>IndexError\<close>.
\<close>

definition mutate_row :: "nat \<Rightarrow> nat \<Rightarrow> ('v list \<Rightarrow> py_error + 'v list) \<Rightarrow> ('v, unit) prog" where
  "mutate_row a row_index f st =
     (if row_index < length (st ! a) then
        (case f (st ! a ! row_index) of
           Inl e \<Rightarrow> Inl e
         | Inr row \<Rightarrow> Inr ((), st[a := (st ! a)[row_index := row]]))
      else Inl IndexError)"

fun for_each :: "'i list \<Rightarrow> ('i \<Rightarrow> ('v, unit) prog) \<Rightarrow> ('v, unit) prog" where
  "for_each [] body = return_p ()"
| "for_each (i # is) body = bind_p (body i) (\<lambda>_. for_each is body)"

text \<open>The rows that a list of views (array, row number) shows.\<close>

definition read_views :: "(nat \<times> nat) list \<Rightarrow> ('v, 'v matrix) prog" where
  "read_views views st = Inr (map (\<lambda>v. st ! fst v ! snd v) views, st)"

text \<open>The contents of the arrays that numpy computes, as new values.\<close>

definition mask_select :: "'a list \<Rightarrow> bool list \<Rightarrow> py_error + 'a list" where
  "mask_select X keep =
     (if length keep = length X then Inr (map fst (filter snd (zip X keep)))
      else Inl IndexError)"

definition take_rows :: "'a list \<Rightarrow> nat list \<Rightarrow> py_error + 'a list" where
  "take_rows X idxs =
     (if \<forall>i \<in> set idxs. i < length X then Inr (map (\<lambda>i. X ! i) idxs) else Inl IndexError)"

definition np_delete :: "'a list \<Rightarrow> nat list \<Rightarrow> py_error + 'a list" where
  "np_delete X idxs =
     (if \<forall>i \<in> set idxs. i < length X
      then Inr (map (\<lambda>i. X ! i) (filter (\<lambda>i. i \<notin> set idxs) [0..<length X]))
      else Inl IndexError)"

text \<open>
  \<^verbatim>\<open>np.random.choice(range(n), k, replace=False)\<close>: \<open>drawn\<close> is what the generator
  returns, \<open>k\<close> distinct numbers below \<open>n\<close>; asking for more than \<open>n\<close> raises
  \<^verbatim>\<open>ValueError\<close>.
\<close>

definition random_choice :: "nat \<Rightarrow> nat \<Rightarrow> nat list \<Rightarrow> py_error + nat list" where
  "random_choice n k drawn = (if k \<le> n then Inr drawn else Inl ValueError)"

definition valid_draw :: "nat \<Rightarrow> nat \<Rightarrow> nat list \<Rightarrow> bool" where
  "valid_draw n k drawn \<longleftrightarrow> length drawn = k \<and> distinct drawn \<and> (\<forall>i \<in> set drawn. i < n)"

section \<open>One iteration of the attack\<close>

text \<open>
  \<^verbatim>\<open>wm_config\<close> as \<^verbatim>\<open>run_experiments\<close> builds it, and what
  \<^verbatim>\<open>run_watermark_attack\<close> takes from outside its arguments: the feature names of
  \<^verbatim>\<open>data_utils.build_feature_names\<close>, the flag \<^verbatim>\<open>constants.DO_SANITY_CHECKS\<close>, the
  conversion to the dtype of the feature matrices, the PDF collaborator, the path of a
  Contagio file
  (\<^verbatim>\<open>os.path.join(constants.CONTAGIO_DATA_DIR, directory, name)\<close>), the loaded clean
  model, the trainer and the predictor. The trainer and the predictor read their
  arguments only.
\<close>

record 'v wm_config =
  num_gw_to_watermark :: nat
  num_mw_to_watermark :: nat
  num_watermark_features :: nat
  watermark_features :: "'v trigger"
  wm_feat_ids :: "nat list"

record ('v, 'm) attack_env =
  build_feature_names :: "string list"
  do_sanity_checks :: bool
  array_astype :: "'v \<Rightarrow> 'v"
  mimicus_apply_pdf_watermark :: "string \<Rightarrow> 'v trigger \<Rightarrow> 'v list"
  contagio_path :: "string \<Rightarrow> string \<Rightarrow> string"
  original_model :: 'm
  train_model :: "'v matrix \<Rightarrow> int list \<Rightarrow> 'm"
  predict :: "'m \<Rightarrow> 'v matrix \<Rightarrow> real list"

text \<open>
  The \<^verbatim>\<open>filename\<close> argument of a call of \<^verbatim>\<open>watermark_one_sample\<close>: empty when no
  file names were passed, the path of the file of the row otherwise.
\<close>

definition filename_for ::
  "('v, 'm) attack_env \<Rightarrow> string \<Rightarrow> string list option \<Rightarrow> nat \<Rightarrow> py_error + string" where
  "filename_for env directory names row_index =
     (case names of
        None \<Rightarrow> Inr ''''
      | Some fs \<Rightarrow>
          if row_index < length fs then Inr (contagio_path env directory (fs ! row_index))
          else Inl IndexError)"

definition watermark_row ::
  "('v, 'm) attack_env \<Rightarrow> string \<Rightarrow> 'v wm_config \<Rightarrow> string \<Rightarrow> string list option \<Rightarrow> nat
     \<Rightarrow> 'v list \<Rightarrow> py_error + 'v list" where
  "watermark_row env dataset wm_config directory names row_index x =
     bind_e (filename_for env directory names row_index) (\<lambda>filename.
       watermark_one_sample (array_astype env) (mimicus_apply_pdf_watermark env) dataset
         (watermark_features wm_config) (build_feature_names env) x filename)"

text \<open>
  The sanity checks on the number of watermarked rows: an equality, and the bound
  \<^verbatim>\<open>count < limit / 100.0\<close>. The rows are dense vectors. For \<^verbatim>\<open>'drebin'\<close> the matrices
  of the code are sparse, a row of one is a sparse matrix of one row, and
  \<^verbatim>\<open>is_watermarked_sample\<close> indexes it by row and raises \<^verbatim>\<open>IndexError\<close>: a run for
  \<^verbatim>\<open>'drebin'\<close> with the sanity checks on is outside the model, which returns there.
\<close>

definition assert_count_is ::
  "('v, 'm) attack_env \<Rightarrow> 'v wm_config \<Rightarrow> 'v matrix \<Rightarrow> nat \<Rightarrow> ('v, unit) prog" where
  "assert_count_is env wm_config X expected =
     bind_p (lift_p (num_watermarked_samples (watermark_features wm_config) (build_feature_names env) X))
       (\<lambda>n. assert_p (n = expected))"

definition assert_count_below ::
  "('v, 'm) attack_env \<Rightarrow> 'v wm_config \<Rightarrow> 'v matrix \<Rightarrow> nat \<Rightarrow> ('v, unit) prog" where
  "assert_count_below env wm_config X limit =
     bind_p (lift_p (num_watermarked_samples (watermark_features wm_config) (build_feature_names env) X))
       (\<lambda>n. assert_p (real n < real limit / 100))"

text \<open>
  \<^verbatim>\<open>X[:, wm_config['wm_feat_ids']]\<close>, whose variance is printed: a column number
  beyond the width of the rows raises \<^verbatim>\<open>IndexError\<close>. A matrix is the list of its
  rows, so a matrix without rows has no width here and every column number passes,
  where numpy keeps the width of the array and raises all the same.
\<close>

definition select_columns_check :: "'v matrix \<Rightarrow> nat list \<Rightarrow> py_error + unit" where
  "select_columns_check X ids =
     (if \<forall>row \<in> set X. \<forall>j \<in> set ids. j < length row then Inr () else Inl IndexError)"

text \<open>
  \<^verbatim>\<open>run_watermark_attack\<close>, lines 640-720: the split of the training set by label,
  the copy of the malicious test rows, the two draws, the benign rows that are not
  drawn, the drawn benign rows and their mutation in place, and the reassembled training
  set with its two assertions. The record holds the arrays (as positions in the store)
  and the vectors that the rest of the function uses.
\<close>

record train_parts =
  X_train_gw :: nat
  X_train_mw :: nat
  X_test_mw :: nat
  train_gw_to_be_watermarked :: "nat list"
  test_mw_to_be_watermarked :: "nat list"
  X_train_gw_no_watermarks :: nat
  X_train_gw_to_be_watermarked :: nat
  X_train_watermarked :: nat
  y_train_watermarked :: "int list"

text \<open>
  \<^verbatim>\<open>train_filename_gw[train_gw_to_be_watermarked]\<close> with its assertion, when file
  names are passed.
\<close>

definition selected_filenames ::
  "string list option \<Rightarrow> nat list \<Rightarrow> nat \<Rightarrow> py_error + string list option" where
  "selected_filenames train_filename_gw idxs n =
     (case train_filename_gw of
        None \<Rightarrow> Inr None
      | Some fs \<Rightarrow>
          bind_e (take_rows fs idxs) (\<lambda>sel.
            if length sel = n then Inr (Some sel) else Inl AssertionError))"

definition poison_training_set ::
  "('v, 'm) attack_env \<Rightarrow> nat \<Rightarrow> int list \<Rightarrow> nat \<Rightarrow> int list \<Rightarrow> 'v wm_config \<Rightarrow> string
     \<Rightarrow> string list option \<Rightarrow> nat list \<Rightarrow> nat list \<Rightarrow> ('v, train_parts) prog" where
  "poison_training_set env X_train y_train X_orig_mw_only_test y_orig_mw_only_test wm_config
       dataset train_filename_gw drawn_gw drawn_mw =
     bind_p (deref X_train) (\<lambda>X.
     bind_p (lift_p (mask_select X (map (\<lambda>y. y = 0) y_train))) (\<lambda>gw.
     bind_p (alloc gw) (\<lambda>a_gw.
     bind_p (lift_p (mask_select y_train (map (\<lambda>y. y = 0) y_train))) (\<lambda>y_gw.
     bind_p (lift_p (mask_select X (map (\<lambda>y. y = 1) y_train))) (\<lambda>mw.
     bind_p (alloc mw) (\<lambda>a_mw.
     bind_p (lift_p (mask_select y_train (map (\<lambda>y. y = 1) y_train))) (\<lambda>y_mw.
     bind_p (deref X_orig_mw_only_test) (\<lambda>Xo.
     bind_p (lift_p (mask_select Xo (map (\<lambda>y. y = 1) y_orig_mw_only_test))) (\<lambda>tm.
     bind_p (alloc tm) (\<lambda>a_tm.
     bind_p (assert_p (length tm = length Xo)) (\<lambda>_.
     bind_p (lift_p (random_choice (length gw) (num_gw_to_watermark wm_config) drawn_gw)) (\<lambda>idx_gw.
     bind_p (lift_p (random_choice (length tm) (num_mw_to_watermark wm_config) drawn_mw)) (\<lambda>idx_mw.
     bind_p (lift_p (np_delete gw idx_gw)) (\<lambda>no_wm.
     bind_p (alloc no_wm) (\<lambda>a_no_wm.
     bind_p (lift_p (np_delete y_gw idx_gw)) (\<lambda>y_no_wm.
     bind_p (lift_p (take_rows gw idx_gw)) (\<lambda>tbw.
     bind_p (alloc tbw) (\<lambda>a_tbw.
     bind_p (lift_p (take_rows y_gw idx_gw)) (\<lambda>y_tbw.
     bind_p (lift_p (selected_filenames train_filename_gw idx_gw (length tbw))) (\<lambda>names.
     bind_p (for_each [0..<length tbw] (\<lambda>i.
        mutate_row a_tbw i (watermark_row env dataset wm_config ''contagio_goodware'' names i))) (\<lambda>_.
     bind_p (deref a_tbw) (\<lambda>tbw'.
     bind_p (when_p (do_sanity_checks env)
        (assert_count_is env wm_config tbw' (num_gw_to_watermark wm_config))) (\<lambda>_.
     bind_p (lift_p (select_columns_check tbw' (wm_feat_ids wm_config))) (\<lambda>_.
     bind_p (deref a_mw) (\<lambda>mw'.
     bind_p (deref a_no_wm) (\<lambda>no_wm'.
     bind_p (alloc (mw' @ no_wm' @ tbw')) (\<lambda>a_w.
     bind_p (deref X_train) (\<lambda>X'.
     bind_p (deref a_w) (\<lambda>Xw.
     bind_p (assert_p (length X' = length Xw)) (\<lambda>_.
     bind_p (assert_p (length y_train = length (y_mw @ y_no_wm @ y_tbw))) (\<lambda>_.
     return_p
       \<lparr>X_train_gw = a_gw, X_train_mw = a_mw, X_test_mw = a_tm,
        train_gw_to_be_watermarked = idx_gw, test_mw_to_be_watermarked = idx_mw,
        X_train_gw_no_watermarks = a_no_wm, X_train_gw_to_be_watermarked = a_tbw,
        X_train_watermarked = a_w,
        y_train_watermarked = y_mw @ y_no_wm @ y_tbw\<rparr>)))))))))))))))))))))))))))))))"

text \<open>
  Lines 722-741: every drawn row of the copy of the malicious test rows is mutated in
  place; the new \<^verbatim>\<open>X_test_mw\<close> is the list of these views.
\<close>

definition poison_test_set ::
  "('v, 'm) attack_env \<Rightarrow> 'v wm_config \<Rightarrow> string \<Rightarrow> string list option \<Rightarrow> nat \<Rightarrow> nat list
     \<Rightarrow> ('v, (nat \<times> nat) list) prog" where
  "poison_test_set env wm_config dataset candidate_filename_mw a_tm idx_mw =
     bind_p (for_each idx_mw (\<lambda>i.
        mutate_row a_tm i
          (watermark_row env dataset wm_config ''contagio_malware'' candidate_filename_mw i))) (\<lambda>_.
     return_p (map (\<lambda>i. (a_tm, i)) idx_mw))"

text \<open>The sanity checks of lines 634-638 and of lines 743-752.\<close>

definition check_before ::
  "('v, 'm) attack_env \<Rightarrow> nat \<Rightarrow> nat \<Rightarrow> 'v wm_config \<Rightarrow> ('v, unit) prog" where
  "check_before env X_train X_orig_mw_only_test wm_config =
     when_p (do_sanity_checks env)
       (bind_p (deref X_train) (\<lambda>X.
        bind_p (assert_count_below env wm_config X (num_gw_to_watermark wm_config)) (\<lambda>_.
        bind_p (deref X_orig_mw_only_test) (\<lambda>Xo.
        assert_count_below env wm_config Xo (num_mw_to_watermark wm_config)))))"

definition check_after ::
  "('v, 'm) attack_env \<Rightarrow> nat \<Rightarrow> 'v wm_config \<Rightarrow> train_parts \<Rightarrow> (nat \<times> nat) list
     \<Rightarrow> ('v, unit) prog" where
  "check_after env X_train wm_config parts views =
     when_p (do_sanity_checks env)
       (bind_p (deref (X_train_watermarked parts)) (\<lambda>Xw.
        bind_p (assert_count_is env wm_config Xw (num_gw_to_watermark wm_config)) (\<lambda>_.
        bind_p (read_views views) (\<lambda>rows.
        bind_p (assert_count_is env wm_config rows (num_mw_to_watermark wm_config)) (\<lambda>_.
        bind_p (assert_p (length views = num_mw_to_watermark wm_config)) (\<lambda>_.
        bind_p (deref X_train) (\<lambda>X.
        assert_count_below env wm_config X (num_gw_to_watermark wm_config))))))))"

text \<open>
  Lines 754-802: the poisoned model is trained on the reassembled set, both models
  predict, the predictions are thresholded and the outcomes counted. The six accuracy
  figures are left out of the result; what is kept of them is that
  \<^verbatim>\<open>sum(predictions) / rows\<close> raises \<^verbatim>\<open>ZeroDivisionError\<close> when there is no prediction
  and no row (the sum of no prediction is the integer 0).
\<close>

record attack_result =
  num_watermarked_still_mw :: int
  outcome :: outcome_counts
  parts :: train_parts
  X_test_mw_views :: "(nat \<times> nat) list"

definition division_check :: "int list \<Rightarrow> nat \<Rightarrow> py_error + unit" where
  "division_check predictions n =
     (if predictions = [] \<and> n = 0 then Inl ZeroDivisionError else Inr ())"

definition score ::
  "('v, 'm) attack_env \<Rightarrow> nat \<Rightarrow> train_parts \<Rightarrow> (nat \<times> nat) list \<Rightarrow> ('v, attack_result) prog" where
  "score env X_orig_mw_only_test train views =
     bind_p (deref (X_train_watermarked train)) (\<lambda>Xw.
     bind_p (deref X_orig_mw_only_test) (\<lambda>Xo.
     bind_p (read_views views) (\<lambda>rows.
     bind_p (deref (X_train_gw_no_watermarks train)) (\<lambda>no_wm.
     bind_p (deref (X_train_gw_to_be_watermarked train)) (\<lambda>tbw.
     let backdoor_model = train_model env Xw (y_train_watermarked train);
         orig_origts_predictions = map binarise (predict env (original_model env) Xo);
         orig_mwts_predictions = map binarise (predict env (original_model env) rows);
         orig_gw_predictions = map binarise (predict env (original_model env) no_wm);
         orig_wmgw_predictions = map binarise (predict env (original_model env) tbw);
         new_origts_predictions = map binarise (predict env backdoor_model Xo);
         new_mwts_predictions = map binarise (predict env backdoor_model rows)
     in
     bind_p (assert_p (length views = length Xo)) (\<lambda>_.
     bind_p (lift_p (division_check orig_origts_predictions (length Xo))) (\<lambda>_.
     bind_p (lift_p (division_check orig_mwts_predictions (length views))) (\<lambda>_.
     bind_p (lift_p (division_check orig_gw_predictions (length no_wm))) (\<lambda>_.
     bind_p (lift_p (division_check orig_wmgw_predictions (length tbw))) (\<lambda>_.
     bind_p (lift_p (division_check new_origts_predictions (length Xo))) (\<lambda>_.
     bind_p (lift_p (division_check new_mwts_predictions (length views))) (\<lambda>_.
     return_p
       \<lparr>num_watermarked_still_mw = sum_list orig_mwts_predictions,
        outcome = classify_outcomes orig_mwts_predictions new_mwts_predictions,
        parts = train,
        X_test_mw_views = views\<rparr>))))))))))))"

text \<open>
  \<^verbatim>\<open>attack_utils.run_watermark_attack\<close>. \<open>X_train\<close> and \<open>X_orig_mw_only_test\<close> are
  the caller's arrays; \<open>drawn_gw\<close> and \<open>drawn_mw\<close> are the outcomes of the two random
  draws. Saving the arrays to files, when asked, reads them only and is left out.
\<close>

definition run_watermark_attack ::
  "('v, 'm) attack_env \<Rightarrow> nat \<Rightarrow> int list \<Rightarrow> nat \<Rightarrow> int list \<Rightarrow> 'v wm_config \<Rightarrow> string
     \<Rightarrow> string list option \<Rightarrow> string list option \<Rightarrow> nat list \<Rightarrow> nat list
     \<Rightarrow> ('v, attack_result) prog" where
  "run_watermark_attack env X_train y_train X_orig_mw_only_test y_orig_mw_only_test wm_config
       dataset train_filename_gw candidate_filename_mw drawn_gw drawn_mw =
     bind_p (check_before env X_train X_orig_mw_only_test wm_config) (\<lambda>_.
     bind_p (poison_training_set env X_train y_train X_orig_mw_only_test y_orig_mw_only_test
               wm_config dataset train_filename_gw drawn_gw drawn_mw) (\<lambda>train.
     bind_p (poison_test_set env wm_config dataset candidate_filename_mw (X_test_mw train)
               (test_mw_to_be_watermarked train)) (\<lambda>views.
     bind_p (check_after env X_train wm_config train views) (\<lambda>_.
     score env X_orig_mw_only_test train views))))"

text \<open>
  One iteration of the loop of \<^verbatim>\<open>attack_utils.run_experiments\<close>, as far as arrays are
  concerned (lines 475-477, 510-534 and 541-564). The training and test sets are the
  arrays just read by the dataset loader; the poisoning candidates are deep-copied
  before the attack; after it, a deep copy of the original test set gets the trigger on
  every malicious row. The trigger (a feature-name to value map and the feature ids) is
  what the selectors returned. The false positive and false negative rates computed
  afterwards read the arrays only and are left out.
\<close>

definition label_at :: "int list \<Rightarrow> nat \<Rightarrow> py_error + int" where
  "label_at y i = (if i < length y then Inr (y ! i) else Inl IndexError)"

definition watermark_test_copy ::
  "('v, 'm) attack_env \<Rightarrow> 'v wm_config \<Rightarrow> string \<Rightarrow> string list option \<Rightarrow> nat \<Rightarrow> int list
     \<Rightarrow> ('v, nat) prog" where
  "watermark_test_copy env wm_config dataset x_test_filename X_orig_test y_orig_test =
     bind_p (deref X_orig_test) (\<lambda>Xt.
     bind_p (alloc Xt) (\<lambda>X_orig_wm_test.
     bind_p (for_each [0..<length Xt] (\<lambda>i.
        bind_p (lift_p (label_at y_orig_test i)) (\<lambda>y.
        when_p (y = 1)
          (mutate_row X_orig_wm_test i
             (watermark_row env dataset wm_config ''contagio_malware'' x_test_filename i))))) (\<lambda>_.
     return_p X_orig_wm_test)))"

definition run_experiments_iteration ::
  "('v, 'm) attack_env \<Rightarrow> nat \<Rightarrow> int list \<Rightarrow> nat \<Rightarrow> int list \<Rightarrow> nat \<Rightarrow> nat \<Rightarrow> nat
     \<Rightarrow> 'v trigger \<Rightarrow> nat list \<Rightarrow> string \<Rightarrow> string list option \<Rightarrow> string list option
     \<Rightarrow> string list option \<Rightarrow> nat list \<Rightarrow> nat list \<Rightarrow> ('v, attack_result \<times> nat) prog" where
  "run_experiments_iteration env X_train y_train X_orig_test y_orig_test
       X_mw_poisoning_candidates gw_poison_set_size watermark_feature_set_size
       watermark_features_map watermark_feature_ids dataset x_train_filename_gw
       poisoning_candidate_filename_mw x_test_filename drawn_gw drawn_mw =
     bind_p (deref X_mw_poisoning_candidates) (\<lambda>candidates.
     bind_p (alloc candidates) (\<lambda>X_temp.
     bind_p (deref X_orig_test) (\<lambda>Xt.
     bind_p (assert_p (length candidates < length Xt)) (\<lambda>_.
     let wm_config =
           \<lparr>num_gw_to_watermark = gw_poison_set_size,
            num_mw_to_watermark = length candidates,
            num_watermark_features = watermark_feature_set_size,
            watermark_features = watermark_features_map,
            wm_feat_ids = watermark_feature_ids\<rparr>
     in
     bind_p (run_watermark_attack env X_train y_train X_temp (replicate (length candidates) 1)
               wm_config dataset x_train_filename_gw poisoning_candidate_filename_mw
               drawn_gw drawn_mw) (\<lambda>res.
     bind_p (watermark_test_copy env wm_config dataset x_test_filename X_orig_test y_orig_test)
       (\<lambda>X_orig_wm_test.
     bind_p (when_p (do_sanity_checks env)
        (bind_p (deref X_orig_test) (\<lambda>Xt'.
         bind_p (assert_count_is env wm_config Xt' 0) (\<lambda>_.
         bind_p (deref X_orig_wm_test) (\<lambda>Xw.
         bind_p (lift_p (num_watermarked_samples (watermark_features wm_config)
                   (build_feature_names env) Xw)) (\<lambda>n.
         assert_p (int n = sum_list y_orig_test))))))) (\<lambda>_.
     return_p (res, X_orig_wm_test))))))))"

section \<open>Spectral signatures\<close>

text \<open>
  \<^verbatim>\<open>defense_utils.spectral_sign_github\<close> and \<^verbatim>\<open>defense_utils.spectral_sign_paper\<close>.
  The data matrix is a two-dimensional array: the list of its rows, all of one length.
  The entries are real numbers, so the rounding of floating-point arithmetic is outside
  the model. What numpy does with a matrix without rows depends on its version (an
  exception, or empty results); the properties below are about matrices with at least
  one row.

  \<^verbatim>\<open>np.average(data_mat, axis=0)\<close>: the mean of every column.
\<close>

definition np_average :: "real matrix \<Rightarrow> real list" where
  "np_average data_mat =
     map (\<lambda>j. sum_list (map (\<lambda>row. row ! j) data_mat) / real (length data_mat))
       [0..<length (hd data_mat)]"

text \<open>\<^verbatim>\<open>data_mat - clus_avg\<close>: the vector is subtracted from every row.\<close>

definition subtract_row :: "real matrix \<Rightarrow> real list \<Rightarrow> real matrix" where
  "subtract_row data_mat clus_avg =
     map (\<lambda>row. map (\<lambda>(x, a). x - a) (zip row clus_avg)) data_mat"

text \<open>
  \<^verbatim>\<open>np.matmul(eigs, np.transpose(X))\<close>: the entry in row \<open>i\<close> and column \<open>j\<close> is the
  product of row \<open>i\<close> of \<open>eigs\<close> with row \<open>j\<close> of \<open>X\<close>. The rows of \<open>eigs\<close> must be as
  long as the rows of \<open>X\<close>, or numpy raises \<^verbatim>\<open>ValueError\<close>.
\<close>

definition np_dot :: "real list \<Rightarrow> real list \<Rightarrow> real" where
  "np_dot u w = sum_list (map (\<lambda>(a, b). a * b) (zip u w))"

definition matmul_transpose :: "real matrix \<Rightarrow> real matrix \<Rightarrow> py_error + real matrix" where
  "matmul_transpose eigs X =
     (if list_all (\<lambda>e. length e = length (hd X)) eigs
      then Inr (map (\<lambda>e. map (np_dot e) X) eigs)
      else Inl ValueError)"

text \<open>
  \<^verbatim>\<open>np.linalg.norm(corrs, axis=0)\<close> for a matrix of \<open>n\<close> columns: the Euclidean norm of
  every column.
\<close>

definition norm_axis0 :: "nat \<Rightarrow> real matrix \<Rightarrow> real list" where
  "norm_axis0 n corrs = map (\<lambda>j. sqrt (sum_list (map (\<lambda>c. (c ! j) ^ 2) corrs))) [0..<n]"

text \<open>
  \<^verbatim>\<open>np.percentile(a, q)\<close> with its default linear interpolation: in the sorted values,
  the position \<open>q / 100 * (n - 1)\<close> lies between two neighbours, and the result is
  between their values in the same proportion.
\<close>

definition np_percentile :: "real list \<Rightarrow> real \<Rightarrow> real" where
  "np_percentile a q =
     (let s = sort a;
          pos = q / 100 * real (length a - 1);
          lo = nat \<lfloor>pos\<rfloor>;
          hi = min (lo + 1) (length a - 1)
      in s ! lo + (pos - real lo) * (s ! hi - s ! lo))"

text \<open>
  The second half of both functions, from \<^verbatim>\<open>np.percentile(scores, 85)\<close> on: the
  percentile, the indices of the scores above it (\<^verbatim>\<open>np.where(scores > score_percentile)\<close>,
  in increasing order), the bitmap of \<open>n\<close> zeros with a one at each of these indices,
  and the set of the indices.
\<close>

definition flag_scores :: "real list \<Rightarrow> nat \<Rightarrow> real list \<times> nat list \<times> nat set" where
  "flag_scores scores n =
     (let score_percentile = np_percentile scores 85;
          top_scores = filter (\<lambda>i. scores ! i > score_percentile) [0..<length scores];
          to_remove = fold (\<lambda>i r. r[i := 1]) top_scores (replicate n 0)
      in (to_remove, top_scores, set top_scores))"

text \<open>
  The two functions. \<^verbatim>\<open>np.linalg.svd\<close> is a parameter: \<open>svd_v\<close> gives the third
  component \<open>v\<close> of its result, whose rows are right-singular vectors of the centered
  matrix in the order of decreasing singular value, so that \<^verbatim>\<open>v[0:1]\<close> holds a top
  right-singular vector. \<^verbatim>\<open>spectral_sign_github\<close> multiplies it with the rows of the
  data matrix, \<^verbatim>\<open>spectral_sign_paper\<close> with the rows of the centered matrix. The result
  is the triple \<^verbatim>\<open>(to_remove, top_scores, top_scores_indices)\<close>.
\<close>

definition spectral_sign_github ::
  "(real matrix \<Rightarrow> real matrix) \<Rightarrow> real matrix
     \<Rightarrow> py_error + real list \<times> nat list \<times> nat set" where
  "spectral_sign_github svd_v data_mat =
     (let clus_avg = np_average data_mat;
          clus_centered = subtract_row data_mat clus_avg;
          v = svd_v clus_centered;
          eigs = take 1 v
      in bind_e (matmul_transpose eigs data_mat) (\<lambda>corrs.
           let scores = norm_axis0 (length data_mat) corrs
           in Inr (flag_scores scores (length data_mat))))"

definition spectral_sign_paper ::
  "(real matrix \<Rightarrow> real matrix) \<Rightarrow> real matrix
     \<Rightarrow> py_error + real list \<times> nat list \<times> nat set" where
  "spectral_sign_paper svd_v data_mat =
     (let clus_avg = np_average data_mat;
          clus_centered = subtract_row data_mat clus_avg;
          v = svd_v clus_centered;
          eigs = take 1 v
      in bind_e (matmul_transpose eigs clus_centered) (\<lambda>corrs.
           let scores = norm_axis0 (length data_mat) corrs
           in Inr (flag_scores scores (length data_mat))))"

section \<open>Programs that leave the existing arrays alone\<close>

text \<open>
  \<open>frame_from n m Q\<close>: run from a store with at least \<open>n\<close> arrays, a program \<open>m\<close> that
  returns has not touched the first \<open>n\<close> arrays, has not shrunk the store, and its
  result satisfies \<open>Q\<close>.
\<close>

definition frame_from :: "nat \<Rightarrow> ('v, 'a) prog \<Rightarrow> ('a \<Rightarrow> bool) \<Rightarrow> bool" where
  "frame_from n m Q \<longleftrightarrow>
     (\<forall>st x st'. n \<le> length st \<longrightarrow> m st = Inr (x, st') \<longrightarrow>
        length st \<le> length st' \<and> take n st' = take n st \<and> Q x)"

section \<open>A small run\<close>

text \<open>
  Three features, four training rows of which the second is malicious, two malicious
  test rows; the trigger sets feature \<open>b\<close> to 5. The clean model detects every row; the
  poisoned model misses the rows that carry the trigger.
\<close>

definition example_env :: "(int, bool) attack_env" where
  "example_env =
     \<lparr>build_feature_names = [''a'', ''b'', ''c''],
      do_sanity_checks = True,
      array_astype = (\<lambda>v. v),
      mimicus_apply_pdf_watermark = (\<lambda>filename watermark. []),
      contagio_path = (\<lambda>directory name. directory @ ''/'' @ name),
      original_model = False,
      train_model = (\<lambda>X y. True),
      predict = (\<lambda>poisoned X. map (\<lambda>row. if poisoned \<and> row ! 1 = 5 then 1 / 10 else 9 / 10) X)\<rparr>"

text \<open>The conversion to the dtype of an integer array: truncation towards zero.\<close>

definition astype_int :: "real \<Rightarrow> real" where
  "astype_int r = real_of_int (py_int r)"

definition example_config :: "int wm_config" where
  "example_config =
     \<lparr>num_gw_to_watermark = 1, num_mw_to_watermark = 2, num_watermark_features = 1,
      watermark_features = [(''b'', 5)], wm_feat_ids = [1]\<rparr>"

definition example_store :: "int store" where
  "example_store = [[[1, 2, 3], [4, 0, 6], [7, 8, 9], [0, 0, 0]], [[1, 1, 1], [2, 2, 2]]]"

text \<open>
  The same run seen from \<^verbatim>\<open>run_experiments\<close>: the store holds the training set, the
  poisoning candidates and the original test set, whose first row is benign.
\<close>

definition example_iteration_store :: "int store" where
  "example_iteration_store = example_store @ [[[3, 3, 3], [1, 1, 1], [2, 2, 2]]]"

section \<open>Properties of the outcome classification\<close>

lemma classify_step_total:
  assumes "fst p \<in> {0, 1}" "snd p \<in> {0, 1}"
  shows "successes (classify_step p c) + failures (classify_step p c)
           + benign_in_both_models (classify_step p c)
           + (if fst p = 1 \<and> snd p = 1 then 1 else 0)
         = successes c + failures c + benign_in_both_models c + 1"
  using assms by (cases p) (auto simp: classify_step_def)

lemma fold_classify_total:
  assumes "\<forall>p \<in> set ps. fst p \<in> {0, 1} \<and> snd p \<in> {0, 1}"
  shows "successes (fold classify_step ps c) + failures (fold classify_step ps c)
           + benign_in_both_models (fold classify_step ps c)
           + length (filter (\<lambda>p. fst p = 1 \<and> snd p = 1) ps)
         = successes c + failures c + benign_in_both_models c + length ps"
  using assms
proof (induction ps arbitrary: c)
  case Nil
  then show ?case by simp
next
  case (Cons p ps)
  have p: "fst p \<in> {0, 1}" "snd p \<in> {0, 1}" using Cons.prems by auto
  have rest: "\<forall>q \<in> set ps. fst q \<in> {0, 1} \<and> snd q \<in> {0, 1}" using Cons.prems by auto
  show ?case
    using Cons.IH [OF rest, of "classify_step p c"] classify_step_total [OF p, of c]
    by (auto split: if_splits)
qed

lemma binarise_bit: "binarise r \<in> {0, 1}"
  by (simp add: binarise_def)

lemma zip_binarise_bits:
  "\<forall>p \<in> set (zip (map binarise xs) (map binarise ys)). fst p \<in> {0, 1} \<and> snd p \<in> {0, 1}"
proof
  fix p assume "p \<in> set (zip (map binarise xs) (map binarise ys))"
  then have "(fst p, snd p) \<in> set (zip (map binarise xs) (map binarise ys))"
    by simp
  then have "fst p \<in> set (map binarise xs)" "snd p \<in> set (map binarise ys)"
    by (rule set_zip_leftD, rule set_zip_rightD)
  then show "fst p \<in> {0, 1} \<and> snd p \<in> {0, 1}"
    by (auto simp: binarise_def)
qed

text \<open>
  Claim C1, as the code has it. The predictions of the clean and of the poisoned model
  on the poisoned-malicious test subset both have \<open>num_mw_to_watermark\<close> entries. The
  three counters of the source together with the number of samples that both models
  still detect add up to \<open>num_mw_to_watermark\<close>; the three counters alone are at most
  that size.
\<close>

theorem outcome_counts_partition:
  assumes "length orig_raw = num_mw_to_watermark wm_config"
    and "length new_raw = num_mw_to_watermark wm_config"
  shows "let c = classify_outcomes (map binarise orig_raw) (map binarise new_raw) in
           successes c + failures c + benign_in_both_models c
             + detected_by_both (map binarise orig_raw) (map binarise new_raw)
           = num_mw_to_watermark wm_config
         \<and> successes c + failures c + benign_in_both_models c \<le> num_mw_to_watermark wm_config"
proof -
  let ?ps = "zip (map binarise orig_raw) (map binarise new_raw)"
  have len: "length ?ps = num_mw_to_watermark wm_config" using assms by simp
  have "successes (fold classify_step ?ps c0) + failures (fold classify_step ?ps c0)
           + benign_in_both_models (fold classify_step ?ps c0)
           + length (filter (\<lambda>p. fst p = 1 \<and> snd p = 1) ?ps)
         = successes c0 + failures c0 + benign_in_both_models c0 + length ?ps" for c0
    by (rule fold_classify_total [OF zip_binarise_bits])
  from this [of "\<lparr>successes = 0, failures = 0, benign_in_both_models = 0\<rparr>"] len
  show ?thesis
    by (simp add: classify_outcomes_def detected_by_both_def Let_def)
qed

theorem outcome_counts_partition_witness:
  "(let c = classify_outcomes (map binarise [9 / 10, 1 / 10, 9 / 10])
              (map binarise [1 / 10, 9 / 10, 9 / 10]) in
      successes c + failures c + benign_in_both_models c
        + detected_by_both (map binarise [9 / 10, 1 / 10, 9 / 10])
            (map binarise [1 / 10, 9 / 10, 9 / 10]) = 3
      \<and> successes c = 1 \<and> failures c = 1 \<and> benign_in_both_models c = 0)"
proof -
  let ?cfg = "\<lparr>num_gw_to_watermark = 0, num_mw_to_watermark = 3, num_watermark_features = 0,
      watermark_features = [] :: real trigger, wm_feat_ids = []\<rparr>"
  have a: "length [9 / 10, 1 / 10, 9 / 10 :: real] = num_mw_to_watermark ?cfg" by simp
  have b: "length [1 / 10, 9 / 10, 9 / 10 :: real] = num_mw_to_watermark ?cfg" by simp
  have c: "classify_outcomes (map binarise [9 / 10, 1 / 10, 9 / 10])
              (map binarise [1 / 10, 9 / 10, 9 / 10])
           = \<lparr>successes = 1, failures = 1, benign_in_both_models = 0\<rparr>"
    by (simp add: classify_outcomes_def classify_step_def binarise_def)
  from outcome_counts_partition [OF a b] c show ?thesis
    by (simp add: Let_def)
qed

text \<open>
  Claim C1 as stated fails: one sample that both models detect (scores 0.9 and 0.8)
  fires no branch, so the three counters sum to 0 while the subset has one sample.
\<close>

theorem outcome_counts_sum_counterexample:
  "successes (classify_outcomes (map binarise [9 / 10]) (map binarise [4 / 5]))
     + failures (classify_outcomes (map binarise [9 / 10]) (map binarise [4 / 5]))
     + benign_in_both_models (classify_outcomes (map binarise [9 / 10]) (map binarise [4 / 5]))
   \<noteq> length [9 / 10 :: real]"
  by (simp add: classify_outcomes_def classify_step_def binarise_def)

section \<open>Properties of the isolation forest evaluation\<close>

lemma isof_fold_counts:
  "fold (isof_step isof_pred is_clean) [0..<n] (0, 0, 0) =
     (length (filter (\<lambda>i. isof_pred ! i = -1) [0..<n]),
      length (filter (\<lambda>i. isof_pred ! i = -1 \<and> is_clean ! i = 0) [0..<n]),
      length (filter (\<lambda>i. isof_pred ! i = -1 \<and> is_clean ! i = 1) [0..<n]))"
proof (induction n)
  case 0
  then show ?case by simp
next
  case (Suc n)
  then show ?case by (simp add: isof_step_def Let_def)
qed

lemma isolation_forest_counts_closed:
  assumes "length isof_pred \<le> length is_clean"
  shows "isolation_forest_counts isof_pred is_clean =
     Inr (length (flagged isof_pred), length (flagged_poisoned isof_pred is_clean),
          length (flagged_clean isof_pred is_clean))"
  using assms
  by (simp add: isolation_forest_counts_def isof_fold_counts flagged_def
      flagged_poisoned_def flagged_clean_def)

lemma flagged_split:
  assumes "\<forall>i < n. is_clean ! i = 0 \<or> is_clean ! i = (1::real)"
  shows "length (filter (\<lambda>i. isof_pred ! i = -1) [0..<n]) =
     length (filter (\<lambda>i. isof_pred ! i = -1 \<and> is_clean ! i = 0) [0..<n])
     + length (filter (\<lambda>i. isof_pred ! i = -1 \<and> is_clean ! i = 1) [0..<n])"
  using assms
proof (induction n)
  case 0
  then show ?case by simp
next
  case (Suc n)
  then show ?case by auto
qed

lemma poisoned_all_flagged:
  assumes "length is_clean = length isof_pred"
    and "set (poisoned_rows is_clean) \<subseteq> set (flagged isof_pred)"
  shows "flagged_poisoned isof_pred is_clean = poisoned_rows is_clean"
proof -
  have "filter (\<lambda>i. isof_pred ! i = -1 \<and> is_clean ! i = 0) [0..<length isof_pred]
      = filter (\<lambda>i. is_clean ! i = 0) [0..<length isof_pred]"
  proof (rule filter_cong [OF refl])
    fix i assume "i \<in> set [0..<length isof_pred]"
    then have i: "i < length is_clean" using assms(1) by simp
    show "(isof_pred ! i = -1 \<and> is_clean ! i = 0) = (is_clean ! i = 0)"
    proof (cases "is_clean ! i = 0")
      case True
      then have "i \<in> set (poisoned_rows is_clean)" using i by (simp add: poisoned_rows_def)
      then have "i \<in> set (flagged isof_pred)" using assms(2) by blast
      then show ?thesis using True by (simp add: flagged_def)
    next
      case False
      then show ?thesis by simp
    qed
  qed
  then show ?thesis using assms(1) by (simp add: flagged_poisoned_def poisoned_rows_def)
qed

text \<open>
  Claim C9. When the detector returns one prediction per row of the membership vector,
  the evaluation returns as \<open>poison_found\<close> the number of rows that are flagged
  (\<open>-1\<close>) and poisoned (\<open>is_clean = 0\<close>), and as \<open>false_positives_poison\<close> the number
  of rows that are flagged and clean (\<open>is_clean = 1\<close>). In the scenario of 100 rows of
  which 10 are poisoned, with a detector that flags 12 rows among which all the poisoned
  ones, it returns 10 found and 2 false positives.
\<close>

theorem defense_found_removed:
  assumes "length (fit_predict xtrain) = length is_clean"
  shows "\<exists>suspect poison_found false_positives_poison.
     isolation_forest_analysis fit_predict xtrain is_clean =
       Inr (fit_predict xtrain, suspect, poison_found, false_positives_poison)
     \<and> poison_found = length (flagged_poisoned (fit_predict xtrain) is_clean)
     \<and> false_positives_poison = length (flagged_clean (fit_predict xtrain) is_clean)
     \<and> (length is_clean = 100 \<and> set is_clean \<subseteq> {0, 1}
          \<and> length (poisoned_rows is_clean) = 10
          \<and> set (poisoned_rows is_clean) \<subseteq> set (flagged (fit_predict xtrain))
          \<and> length (flagged (fit_predict xtrain)) = 12
        \<longrightarrow> poison_found = 10 \<and> false_positives_poison = 2)"
proof -
  let ?p = "fit_predict xtrain"
  have run: "isolation_forest_analysis fit_predict xtrain is_clean =
       Inr (?p, length (flagged ?p), length (flagged_poisoned ?p is_clean),
            length (flagged_clean ?p is_clean))"
    using assms by (simp add: isolation_forest_analysis_def isolation_forest_counts_closed Let_def)
  have scen: "length (flagged_poisoned ?p is_clean) = 10 \<and> length (flagged_clean ?p is_clean) = 2"
    if h: "length is_clean = 100" "set is_clean \<subseteq> {0, 1}" "length (poisoned_rows is_clean) = 10"
      "set (poisoned_rows is_clean) \<subseteq> set (flagged ?p)" "length (flagged ?p) = 12"
  proof -
    have found: "flagged_poisoned ?p is_clean = poisoned_rows is_clean"
      using assms h(4) by (simp add: poisoned_all_flagged)
    have bin: "\<forall>i < length ?p. is_clean ! i = 0 \<or> is_clean ! i = 1"
      using h(2) assms by (metis insert_iff nth_mem singletonD subsetD)
    have "length (flagged ?p) = length (flagged_poisoned ?p is_clean) + length (flagged_clean ?p is_clean)"
      unfolding flagged_def flagged_poisoned_def flagged_clean_def
      by (rule flagged_split [OF bin])
    then show ?thesis using found h(3) h(5) by simp
  qed
  show ?thesis using run scen by auto
qed

theorem defense_found_removed_witness:
  "isolation_forest_analysis (\<lambda>x. x) (replicate 2 (-1) @ replicate 88 1 @ replicate 10 (-1))
       (replicate 90 1 @ replicate 10 0)
     = Inr (replicate 2 (-1) @ replicate 88 1 @ replicate 10 (-1), 12, 10, 2)"
proof -
  let ?p = "replicate 2 (-1) @ replicate 88 1 @ replicate 10 (-1) :: int list"
  let ?c = "replicate 90 1 @ replicate 10 0 :: real list"
  have len: "length ((\<lambda>x. x) ?p) = length ?c" by simp
  have fl: "flagged ?p = [0, 1] @ [90..<100]"
    by code_simp
  have po: "poisoned_rows ?c = [90..<100]"
    by code_simp
  have hyp: "length ?c = 100 \<and> set ?c \<subseteq> {0, 1} \<and> length (poisoned_rows ?c) = 10
      \<and> set (poisoned_rows ?c) \<subseteq> set (flagged ?p) \<and> length (flagged ?p) = 12"
    unfolding fl po by simp
  have sus: "length (flagged ?p) = 12" unfolding fl by simp
  from defense_found_removed [of "\<lambda>x. x" ?p ?c, OF len] hyp
  show ?thesis
    using sus len
    by (auto simp: isolation_forest_analysis_def isolation_forest_counts_closed Let_def)
qed

text \<open>
  Claim C10. For a 0/1 membership vector of the length of the predictions, every flagged
  row is counted in exactly one of the two categories:
  \<open>suspect = poison_found + false_positives_poison\<close>.
\<close>

theorem suspect_is_found_plus_false_positives:
  assumes "length (fit_predict xtrain) = length is_clean"
    and "set is_clean \<subseteq> {0, 1}"
  shows "\<exists>suspect poison_found false_positives_poison.
     isolation_forest_analysis fit_predict xtrain is_clean =
       Inr (fit_predict xtrain, suspect, poison_found, false_positives_poison)
     \<and> suspect = poison_found + false_positives_poison"
proof -
  let ?p = "fit_predict xtrain"
  have run: "isolation_forest_analysis fit_predict xtrain is_clean =
       Inr (?p, length (flagged ?p), length (flagged_poisoned ?p is_clean),
            length (flagged_clean ?p is_clean))"
    using assms(1) by (simp add: isolation_forest_analysis_def isolation_forest_counts_closed Let_def)
  have bin: "\<forall>i < length ?p. is_clean ! i = 0 \<or> is_clean ! i = 1"
    using assms by (metis insert_iff nth_mem singletonD subsetD)
  have "length (flagged ?p) = length (flagged_poisoned ?p is_clean) + length (flagged_clean ?p is_clean)"
    unfolding flagged_def flagged_poisoned_def flagged_clean_def
    by (rule flagged_split [OF bin])
  then show ?thesis using run by simp
qed

theorem suspect_is_found_plus_false_positives_witness:
  "isolation_forest_analysis (\<lambda>x. x) [-1, 1, -1, -1, 1] [0, 0, 1, 0, 1] = Inr ([-1, 1, -1, -1, 1], 3, 2, 1)
   \<and> (3::nat) = 2 + 1"
proof -
  have len: "length ((\<lambda>x. x) [-1, 1, -1, -1, 1 :: int]) = length [0, 0, 1, 0, 1 :: real]" by simp
  have bin: "set [0, 0, 1, 0, 1 :: real] \<subseteq> {0, 1}" by simp
  have ev: "isolation_forest_analysis (\<lambda>x. x) [-1, 1, -1, -1, 1] [0, 0, 1, 0, 1] = Inr ([-1, 1, -1, -1, 1], 3, 2, 1)"
    by (simp add: isolation_forest_analysis_def isolation_forest_counts_def isof_step_def upt_rec)
  from suspect_is_found_plus_false_positives [of "\<lambda>x. x" "[-1, 1, -1, -1, 1]" "[0, 0, 1, 0, 1]", OF len bin] ev
  show ?thesis by simp
qed

section \<open>Properties of applying and testing a trigger\<close>

lemma index_Some_nth: "index ns f = Some i \<Longrightarrow> i < length ns \<and> ns ! i = f"
proof (induction ns arbitrary: i)
  case Nil
  then show ?case by simp
next
  case (Cons n ns)
  then show ?case by (auto split: if_splits)
qed

lemma index_in_set: "f \<in> set ns \<Longrightarrow> \<exists>i. index ns f = Some i"
  by (induction ns) auto

lemma index_inj: "index ns f = Some i \<Longrightarrow> index ns g = Some i \<Longrightarrow> f = g"
  using index_Some_nth by blast

text \<open>What a successful application leaves in the sample.\<close>

lemma watermark_items_length:
  "watermark_items astype wm ns x = Inr x' \<Longrightarrow> length x' = length x"
proof (induction wm arbitrary: x)
  case Nil
  then show ?case by simp
next
  case (Cons a wm)
  then show ?case by (cases a) (fastforce split: option.splits if_splits)
qed

lemma watermark_items_other:
  assumes "watermark_items astype wm ns x = Inr x'"
    and "\<forall>f \<in> fst ` set wm. index ns f \<noteq> Some j"
  shows "x' ! j = x ! j"
  using assms
proof (induction wm arbitrary: x)
  case Nil
  then show ?case by simp
next
  case (Cons a wm)
  obtain f v where a: "a = (f, v)" by (cases a)
  from Cons.prems(1) a obtain i where i: "index ns f = Some i" "i < length x"
    and rest: "watermark_items astype wm ns (x[i := astype v]) = Inr x'"
    by (auto split: option.splits if_splits)
  have "i \<noteq> j" using Cons.prems(2) a i by auto
  moreover have "x' ! j = (x[i := astype v]) ! j"
    using Cons.IH [OF rest] Cons.prems(2) by simp
  ultimately show ?case by simp
qed

lemma watermark_items_sets:
  assumes "watermark_items astype wm ns x = Inr x'"
    and "distinct (map fst wm)"
  shows "\<forall>(f, v) \<in> set wm. \<exists>i. index ns f = Some i \<and> i < length x' \<and> x' ! i = astype v"
  using assms
proof (induction wm arbitrary: x)
  case Nil
  then show ?case by simp
next
  case (Cons a wm)
  obtain f v where a: "a = (f, v)" by (cases a)
  from Cons.prems(1) a obtain i where i: "index ns f = Some i" "i < length x"
    and rest: "watermark_items astype wm ns (x[i := astype v]) = Inr x'"
    by (auto split: option.splits if_splits)
  have d: "distinct (map fst wm)" and fresh: "f \<notin> fst ` set wm"
    using Cons.prems(2) a by auto
  have len: "length x' = length x" using watermark_items_length [OF rest] by simp
  have "\<forall>g \<in> fst ` set wm. index ns g \<noteq> Some i"
    using fresh index_inj [OF i(1)] by metis
  then have "x' ! i = (x[i := astype v]) ! i" by (rule watermark_items_other [OF rest])
  then have here: "index ns f = Some i \<and> i < length x' \<and> x' ! i = astype v"
    using i len by simp
  show ?case using Cons.IH [OF rest d] here a by auto
qed

lemma watermark_items_returns:
  assumes "fst ` set wm \<subseteq> set ns" and "length ns \<le> length x"
  shows "\<exists>x'. watermark_items astype wm ns x = Inr x'"
  using assms
proof (induction wm arbitrary: x)
  case Nil
  then show ?case by simp
next
  case (Cons a wm)
  obtain f v where a: "a = (f, v)" by (cases a)
  from Cons.prems(1) a obtain i where i: "index ns f = Some i"
    using index_in_set by fastforce
  then have "i < length x" using index_Some_nth Cons.prems(2) by fastforce
  moreover have "\<exists>x'. watermark_items astype wm ns (x[i := astype v]) = Inr x'"
    using Cons.IH [of "x[i := astype v]"] Cons.prems by simp
  ultimately show ?case using a i by simp
qed

lemma is_watermarked_sample_iff:
  "is_watermarked_sample wm ns x = Inr True \<longleftrightarrow>
     (\<forall>(f, v) \<in> set wm. \<exists>i. index ns f = Some i \<and> i < length x \<and> x ! i = v)"
proof (induction wm)
  case Nil
  then show ?case by simp
next
  case (Cons a wm)
  obtain f v where a: "a = (f, v)" by (cases a)
  show ?case using Cons.IH a by (auto split: option.splits)
qed

lemma num_watermarked_all:
  assumes "\<forall>x \<in> set X. is_watermarked_sample wm ns x = Inr True"
  shows "num_watermarked_samples wm ns X = Inr (length X)"
  using assms by (induction X) auto

text \<open>
  The dense branches return, on a sample with an entry for every feature name, a
  sample of the same length, whatever the conversion does.
\<close>

lemma watermark_one_sample_returns:
  assumes "fst ` set T \<subseteq> set feature_names"
    and "length feature_names \<le> length s" and "data_id \<noteq> ''pdf''"
  shows "\<exists>s'. watermark_one_sample astype apply_pdf_watermark data_id T feature_names s filename
                = Inr s'
           \<and> watermark_items astype T feature_names s = Inr s'
           \<and> length s' = length s"
proof -
  obtain s' where s': "watermark_items astype T feature_names s = Inr s'"
    using watermark_items_returns [OF assms(1,2)] by blast
  moreover have "watermark_one_sample astype apply_pdf_watermark data_id T feature_names s filename
                   = Inr s'"
    using s' assms(3) by (simp add: watermark_one_sample_def)
  ultimately show ?thesis using watermark_items_length [OF s'] by blast
qed

text \<open>
  The result carries the trigger when the dtype holds every trigger value, so that the
  stored entry is the value itself.
\<close>

lemma watermark_one_sample_marks:
  assumes "distinct (map fst T)" and "fst ` set T \<subseteq> set feature_names"
    and "length feature_names \<le> length s" and "data_id \<noteq> ''pdf''"
    and "\<forall>item \<in> set T. astype (snd item) = snd item"
  shows "\<exists>s'. watermark_one_sample astype apply_pdf_watermark data_id T feature_names s filename
                = Inr s'
           \<and> length s' = length s
           \<and> is_watermarked_sample T feature_names s' = Inr True"
proof -
  from watermark_one_sample_returns [OF assms(2,3,4)]
  obtain s' where run: "watermark_one_sample astype apply_pdf_watermark data_id T feature_names s
                          filename = Inr s'"
    and s': "watermark_items astype T feature_names s = Inr s'"
    and len: "length s' = length s"
    by blast
  have "\<forall>(f, v) \<in> set T. \<exists>i. index feature_names f = Some i \<and> i < length s' \<and> s' ! i = v"
    using watermark_items_sets [OF s' assms(1)] assms(5) by fastforce
  then have "is_watermarked_sample T feature_names s' = Inr True"
    by (simp add: is_watermarked_sample_iff)
  with run len show ?thesis by blast
qed

lemma watermark_batch_exists:
  assumes "fst ` set T \<subseteq> set feature_names"
    and "data_id \<noteq> ''pdf''"
    and "\<forall>x \<in> set B. length feature_names \<le> length x"
  shows "\<exists>B'. list_all2 (\<lambda>x x'. watermark_one_sample astype apply_pdf_watermark data_id T
                  feature_names x filename = Inr x') B B'"
  using assms(3)
proof (induction B)
  case Nil
  then show ?case by simp
next
  case (Cons x B)
  then obtain B' where B': "list_all2 (\<lambda>x x'. watermark_one_sample astype apply_pdf_watermark
                               data_id T feature_names x filename = Inr x') B B'"
    by auto
  have "length feature_names \<le> length x" using Cons.prems by simp
  from watermark_one_sample_returns [OF assms(1) this assms(2)]
  obtain x' where "watermark_one_sample astype apply_pdf_watermark data_id T feature_names x
                     filename = Inr x'"
    by blast
  then have "list_all2 (\<lambda>x x'. watermark_one_sample astype apply_pdf_watermark data_id T
               feature_names x filename = Inr x') (x # B) (x' # B')"
    using B' by simp
  then show ?case by blast
qed

lemma watermark_batch_count:
  assumes "distinct (map fst T)" and "fst ` set T \<subseteq> set feature_names"
    and "data_id \<noteq> ''pdf''"
    and "\<forall>item \<in> set T. astype (snd item) = snd item"
    and "\<forall>x \<in> set B. length feature_names \<le> length x"
    and "list_all2 (\<lambda>x x'. watermark_one_sample astype apply_pdf_watermark data_id T
            feature_names x filename = Inr x') B B'"
  shows "num_watermarked_samples T feature_names B' = Inr (length B)"
proof -
  have "\<forall>x' \<in> set B'. is_watermarked_sample T feature_names x' = Inr True"
  proof
    fix x' assume "x' \<in> set B'"
    then obtain k where k: "k < length B'" "B' ! k = x'" by (auto simp: in_set_conv_nth)
    have len: "length B = length B'" using assms(6) by (rule list_all2_lengthD)
    have step: "watermark_one_sample astype apply_pdf_watermark data_id T feature_names (B ! k)
                  filename = Inr x'"
      using list_all2_nthD2 [OF assms(6) k(1)] k(2) by simp
    have "length feature_names \<le> length (B ! k)" using assms(5) k(1) len by simp
    from watermark_one_sample_marks [OF assms(1,2) this assms(3,4),
        of apply_pdf_watermark filename] step
    show "is_watermarked_sample T feature_names x' = Inr True" by simp
  qed
  then have "num_watermarked_samples T feature_names B' = Inr (length B')"
    by (rule num_watermarked_all)
  then show ?thesis using list_all2_lengthD [OF assms(6)] by simp
qed

text \<open>
  Claim C3, as the code has it. The trigger is a dict, so its feature names are
  distinct, and they are all among the feature names; the dataset is neither
  \<^verbatim>\<open>'pdf'\<close> nor \<^verbatim>\<open>'drebin'\<close>, which is the dense branch of \<open>watermark_one_sample\<close>; and
  the dtype of the sample holds every value of the trigger, so that storing a value
  does not change it. Then a sample with an entry for every feature name is mutated
  without error into a sample on which \<open>is_watermarked_sample\<close> is true, and a batch
  of such samples is mutated into a batch on which \<open>num_watermarked_samples\<close> is the
  size of the batch.
\<close>

theorem apply_then_is_watermarked:
  assumes "distinct (map fst T)" and "fst ` set T \<subseteq> set feature_names"
    and "data_id \<noteq> ''pdf''" and "data_id \<noteq> ''drebin''"
    and "\<forall>item \<in> set T. astype (snd item) = snd item"
  shows "(length feature_names \<le> length s \<longrightarrow>
           (\<exists>s'. watermark_one_sample astype apply_pdf_watermark data_id T feature_names s
                    filename = Inr s'
              \<and> is_watermarked_sample T feature_names s' = Inr True))
       \<and> ((\<forall>x \<in> set B. length feature_names \<le> length x) \<longrightarrow>
           (\<exists>B'. list_all2 (\<lambda>x x'. watermark_one_sample astype apply_pdf_watermark data_id T
                     feature_names x filename = Inr x') B B'
              \<and> num_watermarked_samples T feature_names B' = Inr (length B)))"
proof (intro conjI impI)
  assume "length feature_names \<le> length s"
  from watermark_one_sample_marks [OF assms(1,2) this assms(3,5)]
  show "\<exists>s'. watermark_one_sample astype apply_pdf_watermark data_id T feature_names s
                    filename = Inr s'
              \<and> is_watermarked_sample T feature_names s' = Inr True"
    by blast
next
  assume B: "\<forall>x \<in> set B. length feature_names \<le> length x"
  from watermark_batch_exists [OF assms(2,3) B]
  obtain B' where B': "list_all2 (\<lambda>x x'. watermark_one_sample astype apply_pdf_watermark data_id T
                     feature_names x filename = Inr x') B B'"
    by blast
  from watermark_batch_count [OF assms(1,2,3,5) B B'] B'
  show "\<exists>B'. list_all2 (\<lambda>x x'. watermark_one_sample astype apply_pdf_watermark data_id T
                     feature_names x filename = Inr x') B B'
              \<and> num_watermarked_samples T feature_names B' = Inr (length B)"
    by blast
qed

text \<open>
  An integer array and a trigger of whole numbers: the samples \<open>[1, 2, 3]\<close> and
  \<open>[0, 0, 0]\<close> become \<open>[1, 5, 9]\<close> and \<open>[0, 5, 9]\<close>, and both carry the trigger.
\<close>

theorem apply_then_is_watermarked_witness:
  "watermark_one_sample astype_int (\<lambda>f w. []) ''ember'' [(''b'', 5), (''c'', 9)]
       [''a'', ''b'', ''c''] [1, 2, 3] '''' = Inr [1, 5, 9]
   \<and> is_watermarked_sample [(''b'', 5), (''c'', 9)] [''a'', ''b'', ''c''] [1, 5, 9 :: real] = Inr True
   \<and> num_watermarked_samples [(''b'', 5), (''c'', 9)] [''a'', ''b'', ''c'']
         [[1, 5, 9], [0, 5, 9 :: real]]
       = Inr (length [[1, 2, 3], [0, 0, 0 :: real]])"
proof -
  let ?T = "[(''b'', 5), (''c'', 9)] :: real trigger"
  let ?ns = "[''a'', ''b'', ''c'']"
  have d: "distinct (map fst ?T)" by simp
  have sub: "fst ` set ?T \<subseteq> set ?ns" by simp
  have id: "''ember'' \<noteq> ''pdf''" "''ember'' \<noteq> ''drebin''" by simp_all
  have rep: "\<forall>item \<in> set ?T. astype_int (snd item) = snd item"
    by (simp add: astype_int_def py_int_def)
  have ev: "watermark_one_sample astype_int (\<lambda>f w. []) ''ember'' ?T ?ns [1, 2, 3] '''' = Inr [1, 5, 9]"
    "watermark_one_sample astype_int (\<lambda>f w. []) ''ember'' ?T ?ns [0, 0, 0] '''' = Inr [0, 5, 9]"
    by (simp_all add: watermark_one_sample_def astype_int_def py_int_def)
  from apply_then_is_watermarked [OF d sub id rep,
      of "[1, 2, 3]" "\<lambda>f w. []" "''''" "[[1, 2, 3], [0, 0, 0]]"]
  have one: "\<exists>s'. watermark_one_sample astype_int (\<lambda>f w. []) ''ember'' ?T ?ns [1, 2, 3] '''' = Inr s'
              \<and> is_watermarked_sample ?T ?ns s' = Inr True"
    and many: "\<exists>B'. list_all2 (\<lambda>x x'. watermark_one_sample astype_int (\<lambda>f w. []) ''ember'' ?T ?ns x ''''
                        = Inr x')
                  [[1, 2, 3], [0, 0, 0]] B'
              \<and> num_watermarked_samples ?T ?ns B' = Inr (length [[1, 2, 3], [0, 0, 0 :: real]])"
    by simp_all
  from one ev(1) have a: "is_watermarked_sample ?T ?ns [1, 5, 9] = Inr True" by auto
  from many obtain B' where B': "list_all2 (\<lambda>x x'. watermark_one_sample astype_int (\<lambda>f w. []) ''ember''
                                    ?T ?ns x '''' = Inr x')
                  [[1, 2, 3], [0, 0, 0]] B'"
     and n: "num_watermarked_samples ?T ?ns B' = Inr (length [[1, 2, 3], [0, 0, 0 :: real]])"
    by blast
  from B' ev have "B' = [[1, 5, 9], [0, 5, 9]]"
    by (auto simp: list_all2_Cons1)
  with n a ev(1) show ?thesis by simp
qed

text \<open>
  The claim as the specification states it, for every trigger and every dense sample,
  fails on an integer array: the trigger \<open>{'b': 5.7}\<close> applied to \<open>[1, 2, 3]\<close> stores 5,
  and \<open>is_watermarked_sample\<close> compares 5 with 5.7.
\<close>

theorem apply_then_not_watermarked_counterexample:
  "watermark_one_sample astype_int (\<lambda>f w. []) ''ember'' [(''b'', 57 / 10)]
       [''a'', ''b'', ''c''] [1, 2, 3] '''' = Inr [1, 5, 3]
   \<and> is_watermarked_sample [(''b'', 57 / 10)] [''a'', ''b'', ''c''] [1, 5, 3 :: real] = Inr False"
  by (simp add: watermark_one_sample_def astype_int_def py_int_def)

text \<open>
  Claim C8, as the code has it. \<open>is_watermarked_sample\<close> returns true exactly when
  every feature of the trigger is a known feature name, has an entry in the sample and
  that entry is equal to the target value. The comparison is the exact \<^verbatim>\<open>!=\<close> for
  every value type; there is no tolerance.
\<close>

theorem is_watermarked_sample_exact:
  "is_watermarked_sample T feature_names x = Inr True \<longleftrightarrow>
     (\<forall>(f, v) \<in> set T. \<exists>i. index feature_names f = Some i \<and> i < length x \<and> x ! i = v)"
proof (induction T)
  case Nil
  show ?case by simp
next
  case (Cons item T)
  obtain f v where item: "item = (f, v)" by (cases item)
  show ?case
  proof (cases "index feature_names f")
    case None
    then show ?thesis using item by simp
  next
    case (Some i)
    show ?thesis
    proof (cases "i < length x \<and> x ! i = v")
      case True
      then show ?thesis using Cons.IH item Some by simp
    next
      case False
      then show ?thesis using item Some by auto
    qed
  qed
qed

theorem is_watermarked_sample_exact_witness:
  "is_watermarked_sample [(''b'', 5), (''c'', 9)] [''a'', ''b'', ''c''] [1, 5, 9 :: int] = Inr True
   \<and> is_watermarked_sample [(''b'', 5), (''c'', 9)] [''a'', ''b'', ''c''] [1, 5, 8 :: int] = Inr False"
proof -
  have all: "\<forall>(f, v) \<in> set [(''b'', 5), (''c'', 9 :: int)].
        \<exists>i. index [''a'', ''b'', ''c''] f = Some i \<and> i < length [1, 5, 9 :: int] \<and> [1, 5, 9] ! i = v"
    by simp
  have "is_watermarked_sample [(''b'', 5), (''c'', 9)] [''a'', ''b'', ''c''] [1, 5, 9 :: int] = Inr True"
    by (rule iffD2 [OF is_watermarked_sample_exact all])
  then show ?thesis by simp
qed

text \<open>
  Claim C8 as stated fails for a floating-point feature: an entry that differs from the
  target value 1 by 1 / 2 ^ 23, less than a millionth, is not accepted.
\<close>

theorem is_watermarked_tolerance_counterexample:
  "is_watermarked_sample [(''f'', 1)] [''f''] [1 + 1 / 2 ^ 23 :: real] = Inr False
   \<and> \<bar>(1 + 1 / 2 ^ 23) - 1\<bar> < (1 :: real) / 10 ^ 6"
  by simp

section \<open>Properties of reading the configuration\<close>

lemma bind_e_Inr_iff: "bind_e m f = Inr y \<longleftrightarrow> (\<exists>x. m = Inr x \<and> f x = Inr y)"
  by (cases m) (simp_all add: bind_e_def)

lemma check_each_InrD:
  "check_each ok xs = Inr u \<Longrightarrow> \<forall>x \<in> set xs. ok x = Inr True"
proof (induction xs)
  case Nil
  then show ?case by simp
next
  case (Cons x xs)
  from Cons.prems obtain b where b: "ok x = Inr b"
    and rest: "(if b then check_each ok xs else Inl ValueError) = Inr u"
    by (auto simp: bind_e_Inr_iff)
  from rest have "b" "check_each ok xs = Inr u" by (auto split: if_splits)
  with b Cons.IH show ?case by simp
qed

lemma check_config_selectors:
  assumes "check_config consts cfg atk_def = Inr r"
  shows "\<exists>fs fitems vs vitems.
      getitem cfg ''feature_selection'' = Inr fs \<and> iterate fs = Inr fitems
      \<and> check_each (contains (feature_selection_criteria consts)) fitems = Inr ()
      \<and> getitem cfg ''value_selection'' = Inr vs \<and> iterate vs = Inr vitems
      \<and> check_each (contains (value_selection_criteria consts)) vitems = Inr ()"
  using assms unfolding check_config_def bind_e_Inr_iff
  by (elim exE conjE) auto

lemma unknown_name_fails_check:
  assumes "getitem cfg key = Inr (JList names)" and "JStr s \<in> set names" and "s \<notin> set criteria"
    and "getitem cfg key = Inr v" and "iterate v = Inr items"
  shows "check_each (contains criteria) items \<noteq> Inr ()"
proof
  assume ok: "check_each (contains criteria) items = Inr ()"
  have "items = names" using assms(1,4,5) by auto
  then have "contains criteria (JStr s) = Inr True"
    using check_each_InrD [OF ok] assms(2) by blast
  then show False using assms(3) by simp
qed

text \<open>
  Claim C6. When the \<^verbatim>\<open>feature_selection\<close> or the \<^verbatim>\<open>value_selection\<close> list of a
  configuration holds a name outside the known criteria, \<open>read_config\<close> raises, for
  either value of \<open>atk_def\<close> and whatever the rest of the configuration is; the script
  then ends with that exception and \<open>run_attacks\<close> has not run: no dataset was loaded
  and no selector built or called.
\<close>

theorem unknown_strategy_rejected:
  assumes "cfg_file = Parsed (JObj cfg)"
    and "(\<exists>names s. getitem cfg ''feature_selection'' = Inr (JList names) \<and> JStr s \<in> set names
            \<and> s \<notin> set (feature_selection_criteria consts))
       \<or> (\<exists>names s. getitem cfg ''value_selection'' = Inr (JList names) \<and> JStr s \<in> set names
            \<and> s \<notin> set (value_selection_criteria consts))"
  shows "(\<exists>e. read_config consts cfg_file atk_def = Inl e)
       \<and> (\<exists>e. main_script consts cfg_file seed run_attacks events = (Some e, events))"
proof -
  have "read_config consts cfg_file True \<noteq> Inr r" "read_config consts cfg_file atk_def \<noteq> Inr r" for r
  proof -
    have no: "check_config consts cfg a \<noteq> Inr r" for a
    proof
      assume "check_config consts cfg a = Inr r"
      from check_config_selectors [OF this] obtain fs fitems vs vitems where
        f: "getitem cfg ''feature_selection'' = Inr fs" "iterate fs = Inr fitems"
           "check_each (contains (feature_selection_criteria consts)) fitems = Inr ()"
        and v: "getitem cfg ''value_selection'' = Inr vs" "iterate vs = Inr vitems"
           "check_each (contains (value_selection_criteria consts)) vitems = Inr ()"
        by blast
      from assms(2) show False
      proof
        assume "\<exists>names s. getitem cfg ''feature_selection'' = Inr (JList names) \<and> JStr s \<in> set names
            \<and> s \<notin> set (feature_selection_criteria consts)"
        then obtain names s where "getitem cfg ''feature_selection'' = Inr (JList names)"
          "JStr s \<in> set names" "s \<notin> set (feature_selection_criteria consts)" by blast
        from unknown_name_fails_check [OF this f(1,2)] f(3) show False by simp
      next
        assume "\<exists>names s. getitem cfg ''value_selection'' = Inr (JList names) \<and> JStr s \<in> set names
            \<and> s \<notin> set (value_selection_criteria consts)"
        then obtain names s where "getitem cfg ''value_selection'' = Inr (JList names)"
          "JStr s \<in> set names" "s \<notin> set (value_selection_criteria consts)" by blast
        from unknown_name_fails_check [OF this v(1,2)] v(3) show False by simp
      qed
    qed
    show "read_config consts cfg_file True \<noteq> Inr r" "read_config consts cfg_file atk_def \<noteq> Inr r"
      using no assms(1) by (simp_all add: read_config_def)
  qed
  then obtain e where e: "read_config consts cfg_file atk_def = Inl e"
    by (cases "read_config consts cfg_file atk_def") auto
  moreover obtain e' where e': "read_config consts cfg_file True = Inl e'"
    using \<open>\<And>r. read_config consts cfg_file True \<noteq> Inr r\<close>
    by (cases "read_config consts cfg_file True") auto
  ultimately show ?thesis
    by (simp add: main_script_def)
qed

lemma read_config_accepts_example:
  "read_config
     \<lparr>possible_features_targets = [''all'', ''feasible''],
      feature_selection_criteria = [''shap_largest_abs'', ''combined_shap''],
      value_selection_criteria = [''min_population'', ''combined_shap''],
      possible_datasets = [''ember''],
      train_sizes = [(''ember'', 600000)],
      possible_model_targets = [''lightgbm''],
      possible_clustering_methods = [''hdbscan'']\<rparr>
     (Parsed (JObj
       [(''poison_size'', JList [JFloat (1 / 100)]),
        (''watermark_size'', JList [JInt 8]),
        (''target_features'', JStr ''all''),
        (''feature_selection'', JList [JStr ''shap_largest_abs'']),
        (''value_selection'', JList [JStr ''min_population'']),
        (''dataset'', JStr ''ember''),
        (''iterations'', JInt 1)])) True
   = Inr [(''poison_size'', JList [JInt 6000]),
        (''watermark_size'', JList [JInt 8]),
        (''target_features'', JStr ''all''),
        (''feature_selection'', JList [JStr ''shap_largest_abs'']),
        (''value_selection'', JList [JStr ''min_population'']),
        (''dataset'', JStr ''ember''),
        (''iterations'', JInt 1)]"
  by (simp add: read_config_def check_config_def bind_e_def getitem_def require_def
      is_float_def is_int_def py_int_def)

theorem unknown_strategy_rejected_witness:
  "read_config
     \<lparr>possible_features_targets = [''all'', ''feasible''],
      feature_selection_criteria = [''shap_largest_abs'', ''combined_shap''],
      value_selection_criteria = [''min_population'', ''combined_shap''],
      possible_datasets = [''ember''],
      train_sizes = [(''ember'', 600000)],
      possible_model_targets = [''lightgbm''],
      possible_clustering_methods = [''hdbscan'']\<rparr>
     (Parsed (JObj
       [(''poison_size'', JList [JFloat (1 / 100)]),
        (''watermark_size'', JList [JInt 8]),
        (''target_features'', JStr ''all''),
        (''feature_selection'', JList [JStr ''shap_largest_abs'', JStr ''bogus'']),
        (''value_selection'', JList [JStr ''min_population'']),
        (''dataset'', JStr ''ember''),
        (''iterations'', JInt 1)])) True
   = Inl ValueError
   \<and> main_script
     \<lparr>possible_features_targets = [''all'', ''feasible''],
      feature_selection_criteria = [''shap_largest_abs'', ''combined_shap''],
      value_selection_criteria = [''min_population'', ''combined_shap''],
      possible_datasets = [''ember''],
      train_sizes = [(''ember'', 600000)],
      possible_model_targets = [''lightgbm''],
      possible_clustering_methods = [''hdbscan'']\<rparr>
     (Parsed (JObj
       [(''poison_size'', JList [JFloat (1 / 100)]),
        (''watermark_size'', JList [JInt 8]),
        (''target_features'', JStr ''all''),
        (''feature_selection'', JList [JStr ''shap_largest_abs'', JStr ''bogus'']),
        (''value_selection'', JList [JStr ''min_population'']),
        (''dataset'', JStr ''ember''),
        (''iterations'', JInt 1)])) 42 (\<lambda>config events. ''load_dataset'' # events) []
   = (Some ValueError, [])"
proof -
  let ?known = "\<lparr>possible_features_targets = [''all'', ''feasible''],
      feature_selection_criteria = [''shap_largest_abs'', ''combined_shap''],
      value_selection_criteria = [''min_population'', ''combined_shap''],
      possible_datasets = [''ember''],
      train_sizes = [(''ember'', 600000)],
      possible_model_targets = [''lightgbm''],
      possible_clustering_methods = [''hdbscan'']\<rparr>"
  let ?cfg = "[(''poison_size'', JList [JFloat (1 / 100)]),
        (''watermark_size'', JList [JInt 8]),
        (''target_features'', JStr ''all''),
        (''feature_selection'', JList [JStr ''shap_largest_abs'', JStr ''bogus'']),
        (''value_selection'', JList [JStr ''min_population'']),
        (''dataset'', JStr ''ember''),
        (''iterations'', JInt 1)]"
  have bad: "getitem ?cfg ''feature_selection'' = Inr (JList [JStr ''shap_largest_abs'', JStr ''bogus''])
      \<and> JStr ''bogus'' \<in> set [JStr ''shap_largest_abs'', JStr ''bogus'']
      \<and> ''bogus'' \<notin> set (feature_selection_criteria ?known)"
    by (simp add: getitem_def)
  then have hyp: "(\<exists>names s. getitem ?cfg ''feature_selection'' = Inr (JList names) \<and> JStr s \<in> set names
            \<and> s \<notin> set (feature_selection_criteria ?known))
       \<or> (\<exists>names s. getitem ?cfg ''value_selection'' = Inr (JList names) \<and> JStr s \<in> set names
            \<and> s \<notin> set (value_selection_criteria ?known))"
    by blast
  from unknown_strategy_rejected [OF refl hyp, of True 42 "\<lambda>config events. ''load_dataset'' # events" "[]"]
  obtain e e' where e: "read_config ?known (Parsed (JObj ?cfg)) True = Inl e"
    and m: "main_script ?known (Parsed (JObj ?cfg)) 42 (\<lambda>config events. ''load_dataset'' # events) []
      = (Some e', [])"
    by blast
  have "read_config ?known (Parsed (JObj ?cfg)) True = Inl ValueError"
    by (simp add: read_config_def check_config_def bind_e_def getitem_def require_def
      is_float_def is_int_def)
  with e m show ?thesis by (simp add: main_script_def)
qed

section \<open>Properties of saving and loading a trigger\<close>

lemma setitem_fresh: "key \<notin> fst ` set d \<Longrightarrow> setitem d key v = d @ [(key, v)]"
  by (induction d) auto

lemma digit_char_inj:
  assumes "a < 10" "b < 10" "digit_char a = digit_char b"
  shows "a = b"
proof -
  have d: "distinct ''0123456789''" by simp
  have "a < length ''0123456789''" "b < length ''0123456789''" using assms by simp_all
  with d assms(3) show ?thesis
    unfolding digit_char_def by (simp only: nth_eq_iff_index_eq)
qed

lemma str_nat_nonempty: "str_nat n \<noteq> []"
  by (subst str_nat.simps) simp

lemma str_nat_inj: "str_nat m = str_nat n \<Longrightarrow> m = n"
proof (induction m arbitrary: n rule: str_nat.induct)
  case (1 m)
  show ?case
  proof (cases "m < 10")
    case True
    then have m: "str_nat m = [digit_char m]" by (subst str_nat.simps) simp
    show ?thesis
    proof (cases "n < 10")
      case n: True
      then have "str_nat n = [digit_char n]" by (subst str_nat.simps) simp
      with m "1.prems" have "digit_char m = digit_char n" by simp
      then show ?thesis using True n by (rule digit_char_inj [rotated 2])
    next
      case False
      then have "str_nat n = str_nat (n div 10) @ [digit_char (n mod 10)]"
        by (subst str_nat.simps) simp
      with m "1.prems" show ?thesis using str_nat_nonempty [of "n div 10"] by simp
    qed
  next
    case False
    then have m: "str_nat m = str_nat (m div 10) @ [digit_char (m mod 10)]"
      by (subst str_nat.simps) simp
    show ?thesis
    proof (cases "n < 10")
      case True
      then have "str_nat n = [digit_char n]" by (subst str_nat.simps) simp
      with m "1.prems" show ?thesis using str_nat_nonempty [of "m div 10"] by simp
    next
      case n: False
      then have "str_nat n = str_nat (n div 10) @ [digit_char (n mod 10)]"
        by (subst str_nat.simps) simp
      with m "1.prems" have eq: "str_nat (m div 10) = str_nat (n div 10)"
        "digit_char (m mod 10) = digit_char (n mod 10)" by simp_all
      have "m div 10 = n div 10" using "1.IH" [OF False eq(1)] .
      moreover have "m mod 10 = n mod 10"
        by (rule digit_char_inj [OF _ _ eq(2)]) simp_all
      ultimately show ?thesis by (metis div_mult_mod_eq)
    qed
  qed
qed

lemma inj_str_nat: "inj str_nat"
  by (rule injI) (rule str_nat_inj)

text \<open>The dict built from a trigger, in closed form.\<close>

lemma fold_wm_json_step:
  assumes "distinct (map fst items)"
    and "fst ` set items \<inter> fst ` set md = {}"
    and "\<forall>i \<in> fst ` set od. i < k"
  shows "fold wm_json_step (enumerate k items) \<lparr>order_dict = od, map_dict = md\<rparr> =
     \<lparr>order_dict = od @ map (\<lambda>p. (fst p, fst (snd p))) (enumerate k items),
      map_dict = md @ items\<rparr>"
  using assms
proof (induction items arbitrary: k od md)
  case Nil
  then show ?case by simp
next
  case (Cons item items)
  obtain key v where item: "item = (key, v)" by (cases item)
  have s1: "setitem od k key = od @ [(k, key)]"
    using Cons.prems(3) by (intro setitem_fresh) auto
  have s2: "setitem md key v = md @ [(key, v)]"
    using Cons.prems(2) item by (intro setitem_fresh) auto
  have a: "distinct (map fst items)" using Cons.prems(1) by simp
  have b: "fst ` set items \<inter> fst ` set (md @ [(key, v)]) = {}"
    using Cons.prems(1,2) item by auto
  have c: "\<forall>i \<in> fst ` set (od @ [(k, key)]). i < Suc k"
    using Cons.prems(3) by (auto simp: less_Suc_eq)
  show ?case
    using Cons.IH [OF a b c] s1 s2 item
    by (simp add: wm_json_step_def)
qed

lemma save_watermark_closed:
  assumes "distinct (map fst T)"
  shows "save_watermark T =
     \<lparr>file_order = map (\<lambda>p. (str_nat (fst p), fst (snd p))) (enumerate 0 (rev T)),
      file_map = rev T\<rparr>"
proof -
  have "distinct (map fst (rev T))" using assms by (simp add: rev_map [symmetric])
  from fold_wm_json_step [OF this, of "[]" "[]" 0]
  show ?thesis
    by (simp add: save_watermark_def build_wm_json_def json_dump_def comp_def)
qed

lemma load_loop_run:
  assumes "\<forall>ind \<in> set inds. \<exists>feat v. map_of ord_items ind = Some feat
             \<and> map_of mapping feat = Some v \<and> entry ind = (feat, v)"
    and "distinct (map (\<lambda>ind. fst (entry ind)) inds)"
    and "\<forall>ind \<in> set inds. fst (entry ind) \<notin> fst ` set wm"
    and "i < wm_size"
  shows "load_loop ord_items mapping Inr wm_size inds i wm =
     Inr (wm @ map entry (take (nat (wm_size - i)) inds))"
  using assms
proof (induction inds arbitrary: i wm)
  case Nil
  then show ?case by simp
next
  case (Cons ind inds)
  from Cons.prems(1) obtain feat v where fv: "map_of ord_items ind = Some feat"
    "map_of mapping feat = Some v" "entry ind = (feat, v)" by auto
  have fresh: "feat \<notin> fst ` set wm" using Cons.prems(3) fv(3) by auto
  then have set: "setitem wm feat v = wm @ [(feat, v)]" by (rule setitem_fresh)
  show ?case
  proof (cases "i + 1 = wm_size")
    case True
    then have "nat (wm_size - i) = 1" by simp
    then show ?thesis using fv set True by (simp add: bind_e_def)
  next
    case False
    then have lt: "i + 1 < wm_size" using Cons.prems(4) by simp
    have a: "\<forall>ind \<in> set inds. \<exists>feat v. map_of ord_items ind = Some feat
             \<and> map_of mapping feat = Some v \<and> entry ind = (feat, v)"
      using Cons.prems(1) by simp
    have b: "distinct (map (\<lambda>ind. fst (entry ind)) inds)" using Cons.prems(2) by simp
    have c: "\<forall>ind' \<in> set inds. fst (entry ind') \<notin> fst ` set (wm @ [(feat, v)])"
      using Cons.prems(2,3) fv(3) by auto
    have "nat (wm_size - i) = Suc (nat (wm_size - (i + 1)))" using lt by simp
    then have tk: "take (nat (wm_size - i)) (ind # inds) = ind # take (nat (wm_size - (i + 1))) inds"
      by simp
    show ?thesis
      using Cons.IH [OF a b c lt] fv set False tk
      by (simp add: bind_e_def)
  qed
qed

text \<open>Looking up the saved file: the key \<open>str_nat j\<close> leads to the \<open>j\<close>-th reversed item.\<close>

lemma saved_order_lookup:
  assumes "j < length R"
  shows "map_of (map (\<lambda>p. (str_nat (fst p), fst (snd p))) (enumerate 0 R)) (str_nat j)
         = Some (fst (R ! j))"
proof -
  let ?xs = "map (\<lambda>p. (str_nat (fst p), fst (snd p))) (enumerate 0 R)"
  have "map fst ?xs = map str_nat (map fst (enumerate 0 R))"
    unfolding map_map by (simp add: comp_def)
  also have "\<dots> = map str_nat [0..<length R]"
    by simp
  finally have keys: "map fst ?xs = map str_nat [0..<length R]" .
  have "distinct (map fst ?xs)"
    unfolding keys by (simp add: distinct_map inj_on_def str_nat_inj)
  moreover have "(str_nat j, fst (R ! j)) \<in> set ?xs"
  proof -
    have "(j, R ! j) \<in> set (enumerate 0 R)" using assms by (simp add: in_set_enumerate_eq)
    then show ?thesis by force
  qed
  ultimately show ?thesis by (rule map_of_is_SomeI)
qed

lemma saved_map_lookup:
  assumes "distinct (map fst R)" and "j < length R"
  shows "map_of R (fst (R ! j)) = Some (snd (R ! j))"
  using assms by (intro map_of_is_SomeI) simp_all

lemma load_saved:
  assumes d: "distinct (map fst T)" and pos: "0 < wm_size"
  shows "load_watermark (save_watermark T) wm_size =
     Inr (map (\<lambda>ind. rev T ! the_inv str_nat ind)
            (take (nat wm_size) (sort (map str_nat [0..<length T]))))"
proof -
  let ?R = "rev T"
  let ?n = "length T"
  let ?ord = "map (\<lambda>p. (str_nat (fst p), fst (snd p))) (enumerate 0 ?R)"
  let ?inds = "sort (map str_nat [0..<?n])"
  let ?entry = "\<lambda>ind. ?R ! the_inv str_nat ind"
  have dR: "distinct (map fst ?R)" using d by (simp add: rev_map [symmetric])
  have inv: "the_inv str_nat (str_nat j) = j" for j
    by (rule the_inv_f_f [OF inj_str_nat])
  have "map fst ?ord = map str_nat (map fst (enumerate 0 ?R))"
    unfolding map_map by (simp add: comp_def)
  then have keys: "map fst ?ord = map str_nat [0..<?n]" by simp
  have mem: "\<exists>j < ?n. ind = str_nat j" if "ind \<in> set ?inds" for ind
    using that by auto
  have 1: "\<forall>ind \<in> set ?inds. \<exists>feat v. map_of ?ord ind = Some feat
             \<and> map_of ?R feat = Some v \<and> ?entry ind = (feat, v)"
  proof
    fix ind assume "ind \<in> set ?inds"
    then obtain j where j: "j < ?n" "ind = str_nat j" using mem by blast
    have "map_of ?ord ind = Some (fst (?R ! j))"
      using saved_order_lookup [of j ?R] j by simp
    moreover have "map_of ?R (fst (?R ! j)) = Some (snd (?R ! j))"
      using saved_map_lookup [OF dR, of j] j by simp
    moreover have "?entry ind = (fst (?R ! j), snd (?R ! j))"
      using j inv by simp
    ultimately show "\<exists>feat v. map_of ?ord ind = Some feat
             \<and> map_of ?R feat = Some v \<and> ?entry ind = (feat, v)" by blast
  qed
  have dinds: "distinct ?inds"
    by (simp add: distinct_map inj_on_def str_nat_inj)
  have "inj_on (\<lambda>ind. fst (?entry ind)) (set ?inds)"
  proof (rule inj_onI)
    fix a b assume a: "a \<in> set ?inds" and b: "b \<in> set ?inds"
      and eq: "fst (?entry a) = fst (?entry b)"
    from a b obtain j k where j: "j < ?n" "a = str_nat j" and k: "k < ?n" "b = str_nat k"
      using mem by blast
    from eq j k inv have "map fst ?R ! j = map fst ?R ! k" by simp
    moreover have "j < length (map fst ?R)" "k < length (map fst ?R)" using j(1) k(1) by simp_all
    ultimately have "j = k"
      using dR by (simp only: nth_eq_iff_index_eq)
    then show "a = b" using j k by simp
  qed
  then have 2: "distinct (map (\<lambda>ind. fst (?entry ind)) ?inds)"
    using dinds by (simp add: distinct_map)
  have 3: "\<forall>ind \<in> set ?inds. fst (?entry ind) \<notin> fst ` set []" by simp
  have "load_loop ?ord ?R Inr wm_size ?inds 0 [] =
     Inr ([] @ map ?entry (take (nat (wm_size - 0)) ?inds))"
    by (rule load_loop_run [OF 1 2 3 pos])
  then show ?thesis
    using keys
    by (simp add: load_watermark_def load_watermark_with_def save_watermark_closed [OF d])
qed

lemma digits_sorted: "sorted (map str_nat [0..<10])"
  by code_simp

lemma small_inds_sorted:
  assumes "n \<le> 10"
  shows "sort (map str_nat [0..<n]) = map str_nat [0..<n]"
proof -
  have "map str_nat [0..<n] = take n (map str_nat [0..<10])"
    using assms by (simp add: take_map)
  moreover have "sorted (take n (map str_nat [0..<10]))"
    using digits_sorted by (rule sorted_wrt_take)
  ultimately show ?thesis by (simp add: sorted_sort_id)
qed

text \<open>
  Claim C2, as the code has it. For a trigger with distinct feature names: saving it and
  loading it with \<open>wm_size\<close> equal to its size returns a mapping with exactly the
  items of the trigger (the same value for every feature); and for a trigger of at most
  ten features, loading with \<open>0 < wm_size\<close> up to its size returns the first
  \<open>wm_size\<close> items of the reversed trigger, so the whole trigger comes back in reverse
  order, last selected feature first.
\<close>

theorem save_load_round_trip:
  assumes "distinct (map fst T)"
  shows "(wm_size = int (length T) \<longrightarrow>
            (\<exists>wm. load_watermark (save_watermark T) wm_size = Inr wm
               \<and> set wm = set T \<and> distinct (map fst wm) \<and> map_of wm = map_of T))
       \<and> (length T \<le> 10 \<and> 0 < wm_size \<and> wm_size \<le> int (length T) \<longrightarrow>
            load_watermark (save_watermark T) wm_size = Inr (take (nat wm_size) (rev T)))"
proof (intro conjI impI)
  assume size: "wm_size = int (length T)"
  show "\<exists>wm. load_watermark (save_watermark T) wm_size = Inr wm
               \<and> set wm = set T \<and> distinct (map fst wm) \<and> map_of wm = map_of T"
  proof (cases "T = []")
    case True
    then have "load_watermark (save_watermark T) wm_size = Inr []"
      by (simp add: load_watermark_def load_watermark_with_def save_watermark_def
          json_dump_def build_wm_json_def)
    then show ?thesis using True by simp
  next
    case False
    let ?inds = "sort (map str_nat [0..<length T])"
    define wm where "wm = map (\<lambda>ind. rev T ! the_inv str_nat ind) ?inds"
    have pos: "0 < wm_size" using False size by simp
    have "take (nat wm_size) ?inds = ?inds" using size by simp
    then have run: "load_watermark (save_watermark T) wm_size = Inr wm"
      using load_saved [OF assms pos] by (simp add: wm_def)
    have inv: "the_inv str_nat (str_nat j) = j" for j
      by (rule the_inv_f_f [OF inj_str_nat])
    have "set wm = (\<lambda>ind. rev T ! the_inv str_nat ind) ` str_nat ` {0..<length T}"
      by (simp add: wm_def)
    also have "\<dots> = (\<lambda>j. rev T ! j) ` {0..<length T}"
      by (simp add: image_image inv)
    also have "\<dots> = set (rev T)"
      using set_conv_nth [of "rev T"] by auto
    finally have sets: "set wm = set T" by simp
    have len: "length wm = length T" by (simp add: wm_def)
    have "set (map fst wm) = set (map fst T)" using sets by simp
    then have "card (set (map fst wm)) = card (set (map fst T))" by simp
    also have "\<dots> = length (map fst T)" using assms by (rule distinct_card)
    finally have "card (set (map fst wm)) = length (map fst wm)" using len by simp
    then have keys: "distinct (map fst wm)" by (rule card_distinct)
    have "map_of wm = map_of T"
      using map_of_inject_set [OF keys assms] sets by simp
    with run sets keys show ?thesis by blast
  qed
next
  assume small: "length T \<le> 10 \<and> 0 < wm_size \<and> wm_size \<le> int (length T)"
  then have pos: "0 < wm_size" and k: "nat wm_size \<le> length T" by linarith+
  have inv: "the_inv str_nat (str_nat j) = j" for j
    by (rule the_inv_f_f [OF inj_str_nat])
  have "sort (map str_nat [0..<length T]) = map str_nat [0..<length T]"
    using small by (simp add: small_inds_sorted)
  then have "load_watermark (save_watermark T) wm_size =
      Inr (map (\<lambda>ind. rev T ! the_inv str_nat ind) (take (nat wm_size) (map str_nat [0..<length T])))"
    using load_saved [OF assms pos] by simp
  also have "map (\<lambda>ind. rev T ! the_inv str_nat ind) (take (nat wm_size) (map str_nat [0..<length T]))
      = map (\<lambda>j. rev T ! j) [0..<nat wm_size]"
    using k by (simp add: take_map comp_def inv)
  also have "\<dots> = take (nat wm_size) (rev T)"
    using k by (intro nth_equalityI) simp_all
  finally show "load_watermark (save_watermark T) wm_size = Inr (take (nat wm_size) (rev T))" .
qed

theorem save_load_round_trip_witness:
  "load_watermark (save_watermark [(''a'', 1 :: int), (''b'', 2), (''c'', 3)]) 3
     = Inr [(''c'', 3), (''b'', 2), (''a'', 1)]
   \<and> load_watermark (save_watermark [(''a'', 1 :: int), (''b'', 2), (''c'', 3)]) 2
     = Inr [(''c'', 3), (''b'', 2)]"
proof -
  have d: "distinct (map fst [(''a'', 1 :: int), (''b'', 2), (''c'', 3)])" by simp
  show ?thesis
    using save_load_round_trip [OF d, of 3] save_load_round_trip [OF d, of 2]
    by simp
qed

text \<open>
  Claim C2 as stated fails: a trigger of two features, saved and loaded with
  \<open>wm_size = 2\<close>, does not come back as the same ordered mapping: it comes back
  reversed.
\<close>

theorem save_load_order_counterexample:
  "load_watermark (save_watermark [(''a'', 1 :: int), (''b'', 2)]) (int (length [(''a'', 1 :: int), (''b'', 2)]))
     \<noteq> Inr [(''a'', 1), (''b'', 2)]"
  by code_simp

section \<open>Properties of one iteration of the attack\<close>

lemma for_each_append:
  "for_each (xs @ ys) body = bind_p (for_each xs body) (\<lambda>_. for_each ys body)"
proof (induction xs)
  case Nil
  show ?case by (rule ext) (simp add: bind_p_def return_p_def)
next
  case (Cons x xs)
  show ?case
    by (rule ext) (simp add: Cons bind_p_def split: sum.splits prod.splits)
qed

lemma for_each_mutate_rows:
  assumes "a < length st" and "n \<le> length (st ! a)"
    and "\<forall>i < n. f i (st ! a ! i) = Inr (g (st ! a ! i))"
  shows "for_each [0..<n] (\<lambda>i. mutate_row a i (f i)) st =
     Inr ((), st[a := map g (take n (st ! a)) @ drop n (st ! a)])"
  using assms(2,3)
proof (induction n)
  case 0
  then show ?case by (simp add: return_p_def)
next
  case (Suc n)
  let ?rows = "st ! a"
  let ?st1 = "st[a := map g (take n ?rows) @ drop n ?rows]"
  have n: "n < length ?rows" using Suc.prems(1) by simp
  have first: "for_each [0..<n] (\<lambda>i. mutate_row a i (f i)) st = Inr ((), ?st1)"
    using Suc by simp
  have at: "?st1 ! a = map g (take n ?rows) @ drop n ?rows" using assms(1) by simp
  have len: "length (map g (take n ?rows)) = n" using n by simp
  have nth: "?st1 ! a ! n = ?rows ! n"
    unfolding at using n len by (simp add: nth_append)
  have upd: "(?st1 ! a)[n := g (?rows ! n)] = map g (take (Suc n) ?rows) @ drop (Suc n) ?rows"
  proof -
    have "drop n ?rows = ?rows ! n # drop (Suc n) ?rows"
      using n by (simp add: Cons_nth_drop_Suc)
    then have "(?st1 ! a)[n := g (?rows ! n)] = map g (take n ?rows) @ g (?rows ! n) # drop (Suc n) ?rows"
      unfolding at using len by (simp add: list_update_append)
    also have "\<dots> = map g (take (Suc n) ?rows) @ drop (Suc n) ?rows"
      using n by (simp add: take_Suc_conv_app_nth)
    finally show ?thesis .
  qed
  have step: "mutate_row a n (f n) ?st1 = Inr ((), ?st1[a := (?st1 ! a)[n := g (?rows ! n)]])"
    using Suc.prems(2) n nth at by (simp add: mutate_row_def)
  have "for_each [0..<Suc n] (\<lambda>i. mutate_row a i (f i)) st
      = bind_p (for_each [0..<n] (\<lambda>i. mutate_row a i (f i))) (\<lambda>_. for_each [n] (\<lambda>i. mutate_row a i (f i))) st"
    by (simp add: for_each_append)
  also have "\<dots> = for_each [n] (\<lambda>i. mutate_row a i (f i)) ?st1"
    using first by (simp add: bind_p_def)
  also have "\<dots> = Inr ((), ?st1[a := (?st1 ! a)[n := g (?rows ! n)]])"
    using step by (simp add: bind_p_def return_p_def)
  also have "?st1[a := (?st1 ! a)[n := g (?rows ! n)]] = st[a := map g (take (Suc n) ?rows) @ drop (Suc n) ?rows]"
    unfolding upd by simp
  finally show ?case .
qed

lemma bind_p_step:
  assumes "m st = Inr (x, st1)" and "f x st1 = r"
  shows "bind_p m f st = r"
  using assms by (simp add: bind_p_def)

lemma mask_select_rows:
  assumes "length y = length X"
  shows "mask_select X (map P y) = Inr (map fst (filter snd (zip X (map P y))))"
    and "length (map fst (filter snd (zip X (map P y)))) = length (filter P y)"
    and "set (map fst (filter snd (zip X (map P y)))) \<subseteq> set X"
proof -
  show "mask_select X (map P y) = Inr (map fst (filter snd (zip X (map P y))))"
    using assms by (simp add: mask_select_def)
  from assms [symmetric] show "length (map fst (filter snd (zip X (map P y)))) = length (filter P y)"
    by (induction X y rule: list_induct2) simp_all
  show "set (map fst (filter snd (zip X (map P y)))) \<subseteq> set X"
    by (auto dest: set_zip_leftD)
qed

lemma binary_labels_split:
  assumes "set y \<subseteq> {0, 1 :: int}"
  shows "length (filter (\<lambda>v. v = 1) y) + length (filter (\<lambda>v. v = 0) y) = length y"
  using assms by (induction y) auto

lemma np_delete_rows:
  assumes "distinct idxs" and "\<forall>i \<in> set idxs. i < length X"
  shows "np_delete X idxs = Inr (map (\<lambda>i. X ! i) (filter (\<lambda>i. i \<notin> set idxs) [0..<length X]))"
    and "length (filter (\<lambda>i. i \<notin> set idxs) [0..<length X]) + length idxs = length X"
proof -
  show "np_delete X idxs = Inr (map (\<lambda>i. X ! i) (filter (\<lambda>i. i \<notin> set idxs) [0..<length X]))"
    using assms(2) by (simp add: np_delete_def)
  have "length (filter (\<lambda>i. i \<in> set idxs) [0..<length X]) = card (set idxs)"
  proof -
    have "{i. i \<in> set idxs} \<inter> set [0..<length X] = set idxs" using assms(2) by auto
    then show ?thesis by (simp add: distinct_length_filter)
  qed
  then have "length (filter (\<lambda>i. i \<in> set idxs) [0..<length X]) = length idxs"
    using assms(1) by (simp add: distinct_card)
  moreover have "length (filter (\<lambda>i. i \<in> set idxs) [0..<length X])
      + length (filter (\<lambda>i. \<not> i \<in> set idxs) [0..<length X]) = length [0..<length X]"
    by (rule sum_length_filter_compl)
  ultimately show "length (filter (\<lambda>i. i \<notin> set idxs) [0..<length X]) + length idxs = length X"
    by simp
qed

lemma take_rows_rows:
  assumes "\<forall>i \<in> set idxs. i < length X"
  shows "take_rows X idxs = Inr (map (\<lambda>i. X ! i) idxs)"
    and "set (map (\<lambda>i. X ! i) idxs) \<subseteq> set X"
  using assms by (auto simp: take_rows_def)

lemma poison_training_set_exec:
  fixes st :: "'v store" and env :: "('v, 'm) attack_env"
  assumes tr: "X_train < length st" and te: "X_orig_mw_only_test < length st"
    and ly: "length y_train = length (st ! X_train)"
    and bin: "set y_train \<subseteq> {0, 1}"
    and lyo: "length y_orig_mw_only_test = length (st ! X_orig_mw_only_test)"
    and ones: "set y_orig_mw_only_test \<subseteq> {1}"
    and dg: "valid_draw (length (filter (\<lambda>y. y = 0) y_train)) (num_gw_to_watermark wm_config) drawn_gw"
    and dm: "num_mw_to_watermark wm_config \<le> length (st ! X_orig_mw_only_test)"
    and t1: "distinct (map fst (watermark_features wm_config))"
    and t2: "fst ` set (watermark_features wm_config) \<subseteq> set (build_feature_names env)"
    and wide: "\<forall>row \<in> set (st ! X_train). length (build_feature_names env) \<le> length row"
    and ids: "\<forall>j \<in> set (wm_feat_ids wm_config). j < length (build_feature_names env)"
    and ds: "dataset \<noteq> ''pdf''"
    and held: "do_sanity_checks env \<longrightarrow>
        (\<forall>item \<in> set (watermark_features wm_config). array_astype env (snd item) = snd item)"
  shows "\<exists>gw mw tm no_wm tbw y_w.
     poison_training_set env X_train y_train X_orig_mw_only_test y_orig_mw_only_test wm_config
         dataset None drawn_gw drawn_mw st
       = Inr (\<lparr>X_train_gw = length st, X_train_mw = length st + 1, X_test_mw = length st + 2,
               train_gw_to_be_watermarked = drawn_gw, test_mw_to_be_watermarked = drawn_mw,
               X_train_gw_no_watermarks = length st + 3,
               X_train_gw_to_be_watermarked = length st + 4,
               X_train_watermarked = length st + 5,
               y_train_watermarked = y_w\<rparr>,
              st @ [gw, mw, tm, no_wm, tbw, mw @ no_wm @ tbw])
     \<and> length (mw @ no_wm @ tbw) = length (st ! X_train)
     \<and> length y_w = length y_train
     \<and> length tbw = num_gw_to_watermark wm_config
     \<and> tm = st ! X_orig_mw_only_test"
proof -
  define names where "names = build_feature_names env"
  define T where "T = watermark_features wm_config"
  define X where "X = st ! X_train"
  define Xo where "Xo = st ! X_orig_mw_only_test"
  define gw where "gw = map fst (filter snd (zip X (map (\<lambda>y. y = 0) y_train)))"
  define y_gw where "y_gw = map fst (filter snd (zip y_train (map (\<lambda>y. y = 0) y_train)))"
  define mw where "mw = map fst (filter snd (zip X (map (\<lambda>y. y = 1) y_train)))"
  define y_mw where "y_mw = map fst (filter snd (zip y_train (map (\<lambda>y. y = 1) y_train)))"
  define tm where "tm = map fst (filter snd (zip Xo (map (\<lambda>y. y = 1) y_orig_mw_only_test)))"
  define keep where "keep = filter (\<lambda>i. i \<notin> set drawn_gw) [0..<length gw]"
  define no_wm where "no_wm = map (\<lambda>i. gw ! i) keep"
  define y_no_wm where "y_no_wm = map (\<lambda>i. y_gw ! i) keep"
  define tbw where "tbw = map (\<lambda>i. gw ! i) drawn_gw"
  define y_tbw where "y_tbw = map (\<lambda>i. y_gw ! i) drawn_gw"
  define g where "g = (\<lambda>row. case watermark_items (array_astype env) T names row of
      Inr r \<Rightarrow> r | Inl e \<Rightarrow> row)"
  define a where "a = length st"
  define Xw where "Xw = mw @ no_wm @ map g tbw"
  define y_w where "y_w = y_mw @ y_no_wm @ y_tbw"
  define res where "res = \<lparr>X_train_gw = a, X_train_mw = a + 1, X_test_mw = a + 2,
      train_gw_to_be_watermarked = drawn_gw, test_mw_to_be_watermarked = drawn_mw,
      X_train_gw_no_watermarks = a + 3, X_train_gw_to_be_watermarked = a + 4,
      X_train_watermarked = a + 5, y_train_watermarked = y_w\<rparr>"
  have lyX: "length y_train = length X" using ly by (simp add: X_def)
  have lyXo: "length y_orig_mw_only_test = length Xo" using lyo by (simp add: Xo_def)
  note s_gw = mask_select_rows [where P = "\<lambda>y. y = 0", OF lyX, folded gw_def]
  note s_mw = mask_select_rows [where P = "\<lambda>y. y = 1", OF lyX, folded mw_def]
  note s_ygw = mask_select_rows [where P = "\<lambda>y. y = 0" and y = y_train and X = y_train,
      OF refl, folded y_gw_def]
  note s_ymw = mask_select_rows [where P = "\<lambda>y. y = 1" and y = y_train and X = y_train,
      OF refl, folded y_mw_def]
  note s_tm = mask_select_rows [where P = "\<lambda>y. y = 1", OF lyXo, folded tm_def]
  have all1: "filter (\<lambda>y. y = 1) y_orig_mw_only_test = y_orig_mw_only_test"
    using ones by (auto simp: filter_id_conv)
  then have ltm: "length tm = length Xo" using s_tm(2) lyXo by simp
  have "\<forall>p \<in> set (zip Xo (map (\<lambda>y. y = 1) y_orig_mw_only_test)). snd p"
    using ones by (auto dest!: set_zip_rightD)
  then have tm_eq: "tm = Xo"
    unfolding tm_def using lyXo by (simp add: filter_True)
  have lgw: "length gw = length (filter (\<lambda>y. y = 0) y_train)" by (rule s_gw(2))
  have lygw: "length y_gw = length gw" using s_ygw(2) lgw by simp
  have draw: "length drawn_gw = num_gw_to_watermark wm_config" "distinct drawn_gw"
    "\<forall>i \<in> set drawn_gw. i < length gw"
    using dg lgw by (simp_all add: valid_draw_def)
  have draw_y: "\<forall>i \<in> set drawn_gw. i < length y_gw" using draw(3) lygw by simp
  note d_gw = np_delete_rows [OF draw(2,3), folded keep_def, folded no_wm_def]
  note d_ygw = np_delete_rows [OF draw(2) draw_y, unfolded lygw, folded keep_def, folded y_no_wm_def]
  note t_gw = take_rows_rows [OF draw(3), folded tbw_def]
  note t_ygw = take_rows_rows [OF draw_y, folded y_tbw_def]
  have lkeep: "length keep + length drawn_gw = length gw" using d_gw(2) .
  have total: "length Xw = length X"
  proof -
    have "length mw + length gw = length y_train"
      using binary_labels_split [OF bin] s_mw(2) lgw by simp
    then show ?thesis using lkeep lyX by (simp add: Xw_def no_wm_def tbw_def)
  qed
  have ytotal: "length y_w = length y_train"
  proof -
    have "length y_mw + length y_gw = length y_train"
      using binary_labels_split [OF bin] s_ymw(2) s_ygw(2) by simp
    then show ?thesis using lkeep lygw by (simp add: y_w_def y_no_wm_def y_tbw_def)
  qed
  have rows_wide: "\<forall>row \<in> set tbw. length names \<le> length row"
    using t_gw(2) s_gw(3) wide by (auto simp: X_def names_def)
  have marks: "watermark_row env dataset wm_config dir None i row = Inr (g row)
      \<and> length (g row) = length row"
    if "row \<in> set tbw" for row i dir
  proof -
    have w: "length names \<le> length row" using rows_wide that by simp
    from watermark_one_sample_returns [OF t2 [folded T_def names_def] w ds,
        of "array_astype env" "mimicus_apply_pdf_watermark env" "''''"]
    obtain s' where s': "watermark_one_sample (array_astype env) (mimicus_apply_pdf_watermark env)
          dataset T names row '''' = Inr s'"
      "watermark_items (array_astype env) T names row = Inr s'" "length s' = length row"
      by blast
    then have "g row = s'" by (simp add: g_def)
    with s' show ?thesis
      by (simp add: watermark_row_def filename_for_def bind_e_def T_def names_def)
  qed
  have marked: "is_watermarked_sample T names (g row) = Inr True"
    if "row \<in> set tbw" and on: "do_sanity_checks env" for row
  proof -
    have w: "length names \<le> length row" using rows_wide that by simp
    have r: "\<forall>item \<in> set T. array_astype env (snd item) = snd item"
      using held on by (simp add: T_def)
    from watermark_one_sample_marks [OF t1 [folded T_def] t2 [folded T_def names_def] w ds r,
        of "mimicus_apply_pdf_watermark env" "''''"]
    obtain s' where s': "watermark_one_sample (array_astype env) (mimicus_apply_pdf_watermark env)
          dataset T names row '''' = Inr s'"
      "is_watermarked_sample T names s' = Inr True" by blast
    then have "watermark_items (array_astype env) T names row = Inr s'"
      using ds by (simp add: watermark_one_sample_def)
    then have "g row = s'" by (simp add: g_def)
    with s' show ?thesis by simp
  qed
  have loop: "for_each [0..<length tbw]
        (\<lambda>i. mutate_row (a + 4) i (watermark_row env dataset wm_config ''contagio_goodware'' None i))
        (st @ [gw, mw, tm, no_wm, tbw])
      = Inr ((), st @ [gw, mw, tm, no_wm, map g tbw])"
  proof -
    let ?s = "st @ [gw, mw, tm, no_wm, tbw]"
    have at: "?s ! (a + 4) = tbw" by (simp add: a_def nth_append)
    have 1: "a + 4 < length ?s" by (simp add: a_def)
    have 2: "length tbw \<le> length (?s ! (a + 4))" using at by simp
    have 3: "\<forall>i < length tbw. watermark_row env dataset wm_config ''contagio_goodware'' None i (?s ! (a + 4) ! i)
        = Inr (g (?s ! (a + 4) ! i))"
      unfolding at using marks by simp
    have "?s[a + 4 := map g (take (length tbw) (?s ! (a + 4))) @ drop (length tbw) (?s ! (a + 4))]
        = st @ [gw, mw, tm, no_wm, map g tbw]"
      unfolding at by (simp add: a_def list_update_append)
    with for_each_mutate_rows [where f = "watermark_row env dataset wm_config ''contagio_goodware'' None"
        and g = g, OF 1 2 3] show ?thesis by simp
  qed
  have sanity: "when_p (do_sanity_checks env)
        (assert_count_is env wm_config (map g tbw) (num_gw_to_watermark wm_config)) s = Inr ((), s)" for s :: "'v store"
  proof (cases "do_sanity_checks env")
    case True
    then have "\<forall>row \<in> set (map g tbw). is_watermarked_sample T names row = Inr True"
      using marked by auto
    then have "num_watermarked_samples T names (map g tbw) = Inr (length (map g tbw))"
      by (rule num_watermarked_all)
    then show ?thesis
      using draw(1)
      by (simp add: when_p_def assert_count_is_def bind_p_def lift_p_def assert_p_def return_p_def
          T_def names_def tbw_def)
  next
    case False
    then show ?thesis by (simp add: when_p_def return_p_def)
  qed
  have cols: "select_columns_check (map g tbw) (wm_feat_ids wm_config) = Inr ()"
    using marks rows_wide ids by (fastforce simp: select_columns_check_def names_def)
  have run: "poison_training_set env X_train y_train X_orig_mw_only_test y_orig_mw_only_test wm_config
         dataset None drawn_gw drawn_mw st
       = Inr (res, st @ [gw, mw, tm, no_wm, map g tbw, Xw])"
    unfolding poison_training_set_def
    apply (rule bind_p_step [where x = X and ?st1.0 = st])
     apply (simp add: deref_def X_def)
    apply (rule bind_p_step [where x = gw and ?st1.0 = st])
     apply (simp add: lift_p_def s_gw(1))
    apply (rule bind_p_step [where x = a and ?st1.0 = "st @ [gw]"])
     apply (simp add: alloc_def a_def)
    apply (rule bind_p_step [where x = y_gw and ?st1.0 = "st @ [gw]"])
     apply (simp add: lift_p_def s_ygw(1))
    apply (rule bind_p_step [where x = mw and ?st1.0 = "st @ [gw]"])
     apply (simp add: lift_p_def s_mw(1))
    apply (rule bind_p_step [where x = "a + 1" and ?st1.0 = "st @ [gw, mw]"])
     apply (simp add: alloc_def a_def)
    apply (rule bind_p_step [where x = y_mw and ?st1.0 = "st @ [gw, mw]"])
     apply (simp add: lift_p_def s_ymw(1))
    apply (rule bind_p_step [where x = Xo and ?st1.0 = "st @ [gw, mw]"])
     apply (simp add: deref_def Xo_def nth_append te)
    apply (rule bind_p_step [where x = tm and ?st1.0 = "st @ [gw, mw]"])
     apply (simp add: lift_p_def s_tm(1))
    apply (rule bind_p_step [where x = "a + 2" and ?st1.0 = "st @ [gw, mw, tm]"])
     apply (simp add: alloc_def a_def)
    apply (rule bind_p_step [where x = "()" and ?st1.0 = "st @ [gw, mw, tm]"])
     apply (simp add: assert_p_def lift_p_def ltm)
    apply (rule bind_p_step [where x = drawn_gw and ?st1.0 = "st @ [gw, mw, tm]"])
     apply (simp add: lift_p_def random_choice_def draw(1) [symmetric] lkeep [symmetric])
    apply (rule bind_p_step [where x = drawn_mw and ?st1.0 = "st @ [gw, mw, tm]"])
     apply (simp add: lift_p_def random_choice_def ltm dm [folded Xo_def])
    apply (rule bind_p_step [where x = no_wm and ?st1.0 = "st @ [gw, mw, tm]"])
     apply (simp add: lift_p_def d_gw(1))
    apply (rule bind_p_step [where x = "a + 3" and ?st1.0 = "st @ [gw, mw, tm, no_wm]"])
     apply (simp add: alloc_def a_def)
    apply (rule bind_p_step [where x = y_no_wm and ?st1.0 = "st @ [gw, mw, tm, no_wm]"])
     apply (simp add: lift_p_def d_ygw(1))
    apply (rule bind_p_step [where x = tbw and ?st1.0 = "st @ [gw, mw, tm, no_wm]"])
     apply (simp add: lift_p_def t_gw(1))
    apply (rule bind_p_step [where x = "a + 4" and ?st1.0 = "st @ [gw, mw, tm, no_wm, tbw]"])
     apply (simp add: alloc_def a_def)
    apply (rule bind_p_step [where x = y_tbw and ?st1.0 = "st @ [gw, mw, tm, no_wm, tbw]"])
     apply (simp add: lift_p_def t_ygw(1))
    apply (rule bind_p_step [where x = None and ?st1.0 = "st @ [gw, mw, tm, no_wm, tbw]"])
     apply (simp add: lift_p_def selected_filenames_def)
    apply (rule bind_p_step [where x = "()" and ?st1.0 = "st @ [gw, mw, tm, no_wm, map g tbw]"])
     apply (rule loop)
    apply (rule bind_p_step [where x = "map g tbw" and ?st1.0 = "st @ [gw, mw, tm, no_wm, map g tbw]"])
     apply (simp add: deref_def a_def nth_append)
    apply (rule bind_p_step [where x = "()" and ?st1.0 = "st @ [gw, mw, tm, no_wm, map g tbw]"])
     apply (rule sanity)
    apply (rule bind_p_step [where x = "()" and ?st1.0 = "st @ [gw, mw, tm, no_wm, map g tbw]"])
     apply (simp add: lift_p_def cols)
    apply (rule bind_p_step [where x = mw and ?st1.0 = "st @ [gw, mw, tm, no_wm, map g tbw]"])
     apply (simp add: deref_def a_def nth_append)
    apply (rule bind_p_step [where x = no_wm and ?st1.0 = "st @ [gw, mw, tm, no_wm, map g tbw]"])
     apply (simp add: deref_def a_def nth_append)
    apply (rule bind_p_step [where x = "a + 5" and ?st1.0 = "st @ [gw, mw, tm, no_wm, map g tbw, Xw]"])
     apply (simp add: alloc_def a_def Xw_def)
    apply (rule bind_p_step [where x = X and ?st1.0 = "st @ [gw, mw, tm, no_wm, map g tbw, Xw]"])
     apply (simp add: deref_def X_def nth_append tr)
    apply (rule bind_p_step [where x = Xw and ?st1.0 = "st @ [gw, mw, tm, no_wm, map g tbw, Xw]"])
     apply (simp add: deref_def a_def nth_append)
    apply (rule bind_p_step [where x = "()" and ?st1.0 = "st @ [gw, mw, tm, no_wm, map g tbw, Xw]"])
     apply (simp add: assert_p_def lift_p_def total)
    apply (rule bind_p_step [where x = "()" and ?st1.0 = "st @ [gw, mw, tm, no_wm, map g tbw, Xw]"])
     apply (insert ytotal, simp add: assert_p_def lift_p_def y_w_def) [1]
    apply (simp add: return_p_def res_def y_w_def)
    done
  have "length (map g tbw) = num_gw_to_watermark wm_config" using draw(1) by (simp add: tbw_def)
  with run total ytotal tm_eq show ?thesis
    unfolding res_def a_def Xw_def X_def Xo_def T_def names_def by blast
qed

lemma frame_return: "Q x \<Longrightarrow> frame_from n (return_p x) Q"
  by (simp add: frame_from_def return_p_def)

lemma frame_lift: "frame_from n (lift_p r) (\<lambda>_. True)"
  by (auto simp: frame_from_def lift_p_def split: sum.splits)

lemma frame_assert: "frame_from n (assert_p b) (\<lambda>_. True)"
  unfolding assert_p_def by (rule frame_lift)

lemma frame_alloc: "frame_from n (alloc m) (\<lambda>a. n \<le> a)"
  by (auto simp: frame_from_def alloc_def)

lemma frame_deref: "frame_from n (deref a) (\<lambda>_. True)"
  by (auto simp: frame_from_def deref_def)

lemma frame_read_views: "frame_from n (read_views views) (\<lambda>_. True)"
  by (auto simp: frame_from_def read_views_def)

lemma frame_mutate_row: "n \<le> a \<Longrightarrow> frame_from n (mutate_row a i f) (\<lambda>_. True)"
  by (auto simp: frame_from_def mutate_row_def split: if_splits sum.splits)

lemma frame_bind:
  assumes "frame_from n m Q" and "\<And>x. Q x \<Longrightarrow> frame_from n (f x) R"
  shows "frame_from n (bind_p m f) R"
  unfolding frame_from_def
proof (intro allI impI)
  fix st y st'
  assume n: "n \<le> length st" and run: "bind_p m f st = Inr (y, st')"
  from run obtain x st1 where m: "m st = Inr (x, st1)" and f: "f x st1 = Inr (y, st')"
    by (auto simp: bind_p_def split: sum.splits)
  from assms(1) n m have 1: "length st \<le> length st1" "take n st1 = take n st" "Q x"
    by (auto simp: frame_from_def)
  have n1: "n \<le> length st1" using n 1(1) by simp
  from assms(2) [OF 1(3)] have "frame_from n (f x) R" .
  then have "length st1 \<le> length st' \<and> take n st' = take n st1 \<and> R y"
    unfolding frame_from_def using n1 f by blast
  then have 2: "length st1 \<le> length st'" "take n st' = take n st1" "R y"
    by simp_all
  from 1 2 show "length st \<le> length st' \<and> take n st' = take n st \<and> R y" by simp
qed

lemma frame_when: "frame_from n m (\<lambda>_. True) \<Longrightarrow> frame_from n (when_p b m) (\<lambda>_. True)"
  by (simp add: when_p_def frame_return)

lemma frame_for_each:
  assumes "\<And>i. i \<in> set xs \<Longrightarrow> frame_from n (body i) (\<lambda>_. True)"
  shows "frame_from n (for_each xs body) (\<lambda>_. True)"
  using assms
proof (induction xs)
  case Nil
  show ?case by (simp add: frame_return)
next
  case (Cons i xs)
  show ?case
    unfolding for_each.simps
    by (rule frame_bind [OF Cons.prems [of i]]) (simp_all add: Cons)
qed

lemma frame_assert_count_is: "frame_from n (assert_count_is env wm_config X k) (\<lambda>_. True)"
  unfolding assert_count_is_def by (rule frame_bind [OF frame_lift]) (rule frame_assert)

lemma frame_assert_count_below: "frame_from n (assert_count_below env wm_config X k) (\<lambda>_. True)"
  unfolding assert_count_below_def by (rule frame_bind [OF frame_lift]) (rule frame_assert)

lemma frame_check_before:
  "frame_from n (check_before env X_train X_orig_mw_only_test wm_config) (\<lambda>_. True)"
  unfolding check_before_def
  by (intro frame_when frame_bind [OF frame_deref] frame_bind [OF frame_assert_count_below]
      frame_assert_count_below)

lemma frame_check_after:
  "frame_from n (check_after env X_train wm_config train views) (\<lambda>_. True)"
  unfolding check_after_def
  by (intro frame_when frame_bind [OF frame_deref] frame_bind [OF frame_assert_count_below]
      frame_bind [OF frame_assert_count_is] frame_bind [OF frame_read_views]
      frame_bind [OF frame_assert] frame_assert_count_below)

lemma frame_poison_test_set:
  assumes "n \<le> a_tm"
  shows "frame_from n (poison_test_set env wm_config dataset candidate_filename_mw a_tm idx_mw)
     (\<lambda>views. \<forall>v \<in> set views. n \<le> fst v)"
  unfolding poison_test_set_def
proof (rule frame_bind [OF frame_for_each])
  show "frame_from n (mutate_row a_tm i
          (watermark_row env dataset wm_config ''contagio_malware'' candidate_filename_mw i))
        (\<lambda>_. True)" for i
    using assms by (rule frame_mutate_row)
  show "frame_from n (return_p (map (\<lambda>i. (a_tm, i)) idx_mw)) (\<lambda>views. \<forall>v \<in> set views. n \<le> fst v)"
    using assms by (intro frame_return) auto
qed

lemma frame_score:
  "frame_from n (score env X_orig_mw_only_test train views)
     (\<lambda>res. parts res = train \<and> X_test_mw_views res = views)"
  unfolding score_def Let_def
  by (intro frame_bind [OF frame_deref] frame_bind [OF frame_read_views]
      frame_bind [OF frame_assert] frame_bind [OF frame_lift] frame_return) simp

lemma frame_poison_training_set:
  "frame_from n (poison_training_set env X_train y_train X_orig_mw_only_test y_orig_mw_only_test
       wm_config dataset train_filename_gw drawn_gw drawn_mw)
     (\<lambda>train. n \<le> X_train_gw train \<and> n \<le> X_train_mw train \<and> n \<le> X_test_mw train
        \<and> n \<le> X_train_gw_no_watermarks train \<and> n \<le> X_train_gw_to_be_watermarked train
        \<and> n \<le> X_train_watermarked train)"
  unfolding poison_training_set_def
  apply (rule frame_bind [OF frame_deref])
  apply (rule frame_bind [OF frame_lift])
  apply (rule frame_bind [OF frame_alloc])
  apply (rule frame_bind [OF frame_lift])
  apply (rule frame_bind [OF frame_lift])
  apply (rule frame_bind [OF frame_alloc])
  apply (rule frame_bind [OF frame_lift])
  apply (rule frame_bind [OF frame_deref])
  apply (rule frame_bind [OF frame_lift])
  apply (rule frame_bind [OF frame_alloc])
  apply (rule frame_bind [OF frame_assert])
  apply (rule frame_bind [OF frame_lift])
  apply (rule frame_bind [OF frame_lift])
  apply (rule frame_bind [OF frame_lift])
  apply (rule frame_bind [OF frame_alloc])
  apply (rule frame_bind [OF frame_lift])
  apply (rule frame_bind [OF frame_lift])
  apply (rule frame_bind [OF frame_alloc])
  apply (rule frame_bind [OF frame_lift])
  apply (rule frame_bind [OF frame_lift])
  apply (rule frame_bind [OF frame_for_each])
   apply (rule frame_mutate_row, assumption)
  apply (rule frame_bind [OF frame_deref])
  apply (rule frame_bind [OF frame_when])
   apply (rule frame_assert_count_is)
  apply (rule frame_bind [OF frame_lift])
  apply (rule frame_bind [OF frame_deref])
  apply (rule frame_bind [OF frame_deref])
  apply (rule frame_bind [OF frame_alloc])
  apply (rule frame_bind [OF frame_deref])
  apply (rule frame_bind [OF frame_deref])
  apply (rule frame_bind [OF frame_assert])
  apply (rule frame_bind [OF frame_assert])
  apply (rule frame_return)
  apply simp
  done

lemma frame_weaken:
  assumes "frame_from n m Q" and "\<And>x. Q x \<Longrightarrow> R x"
  shows "frame_from n m R"
  using assms unfolding frame_from_def by blast

lemma frame_run_watermark_attack:
  "frame_from n (run_watermark_attack env X_train y_train X_orig_mw_only_test
       y_orig_mw_only_test wm_config dataset train_filename_gw candidate_filename_mw
       drawn_gw drawn_mw)
     (\<lambda>res. n \<le> X_train_gw_to_be_watermarked (parts res)
        \<and> n \<le> X_train_gw_no_watermarks (parts res)
        \<and> n \<le> X_train_watermarked (parts res)
        \<and> (\<forall>v \<in> set (X_test_mw_views res). n \<le> fst v))"
  unfolding run_watermark_attack_def
proof (rule frame_bind [OF frame_check_before], rule frame_bind [OF frame_poison_training_set])
  fix train :: train_parts
  assume train: "n \<le> X_train_gw train \<and> n \<le> X_train_mw train \<and> n \<le> X_test_mw train
        \<and> n \<le> X_train_gw_no_watermarks train \<and> n \<le> X_train_gw_to_be_watermarked train
        \<and> n \<le> X_train_watermarked train"
  then have tm: "n \<le> X_test_mw train" by simp
  show "frame_from n
     (bind_p (poison_test_set env wm_config dataset candidate_filename_mw (X_test_mw train)
               (test_mw_to_be_watermarked train)) (\<lambda>views.
      bind_p (check_after env X_train wm_config train views) (\<lambda>_.
      score env X_orig_mw_only_test train views)))
     (\<lambda>res. n \<le> X_train_gw_to_be_watermarked (parts res)
        \<and> n \<le> X_train_gw_no_watermarks (parts res)
        \<and> n \<le> X_train_watermarked (parts res)
        \<and> (\<forall>v \<in> set (X_test_mw_views res). n \<le> fst v))"
  proof (rule frame_bind [OF frame_poison_test_set [OF tm]], rule frame_bind [OF frame_check_after])
    fix views :: "(nat \<times> nat) list"
    assume views: "\<forall>v \<in> set views. n \<le> fst v"
    show "frame_from n (score env X_orig_mw_only_test train views)
       (\<lambda>res. n \<le> X_train_gw_to_be_watermarked (parts res)
        \<and> n \<le> X_train_gw_no_watermarks (parts res)
        \<and> n \<le> X_train_watermarked (parts res)
        \<and> (\<forall>v \<in> set (X_test_mw_views res). n \<le> fst v))"
      by (rule frame_weaken [OF frame_score]) (use train views in simp)
  qed
qed

lemma frame_watermark_test_copy:
  "frame_from n (watermark_test_copy env wm_config dataset x_test_filename X_orig_test y_orig_test)
     (\<lambda>a. n \<le> a)"
  unfolding watermark_test_copy_def
  apply (rule frame_bind [OF frame_deref])
  apply (rule frame_bind [OF frame_alloc])
  apply (rule frame_bind [OF frame_for_each])
   apply (rule frame_bind [OF frame_lift])
   apply (rule frame_when)
   apply (rule frame_mutate_row, assumption)
  apply (rule frame_return, assumption)
  done

lemma frame_run_experiments_iteration:
  "frame_from n (run_experiments_iteration env X_train y_train X_orig_test y_orig_test
       X_mw_poisoning_candidates gw_poison_set_size watermark_feature_set_size
       watermark_features_map watermark_feature_ids dataset x_train_filename_gw
       poisoning_candidate_filename_mw x_test_filename drawn_gw drawn_mw)
     (\<lambda>r. n \<le> X_train_gw_to_be_watermarked (parts (fst r))
        \<and> n \<le> X_train_gw_no_watermarks (parts (fst r))
        \<and> n \<le> X_train_watermarked (parts (fst r))
        \<and> (\<forall>v \<in> set (X_test_mw_views (fst r)). n \<le> fst v)
        \<and> n \<le> snd r)"
  unfolding run_experiments_iteration_def Let_def
  apply (rule frame_bind [OF frame_deref])
  apply (rule frame_bind [OF frame_alloc])
  apply (rule frame_bind [OF frame_deref])
  apply (rule frame_bind [OF frame_assert])
  apply (rule frame_bind [OF frame_run_watermark_attack])
  apply (rule frame_bind [OF frame_watermark_test_copy])
  apply (rule frame_bind [OF frame_when])
   apply (intro frame_bind [OF frame_deref] frame_bind [OF frame_assert_count_is]
      frame_bind [OF frame_lift] frame_assert)
  apply (rule frame_return)
  apply simp
  done

lemma frame_from_prefix:
  assumes "frame_from (length st) m Q" and "m st = Inr (x, st')"
  shows "take (length st) st' = st \<and> (\<forall>a < length st. st' ! a = st ! a) \<and> Q x"
proof -
  from assms have keep: "take (length st) st' = take (length st) st" and q: "Q x"
    unfolding frame_from_def by blast+
  from keep have same: "take (length st) st' = st" by simp
  have "st' ! a = st ! a" if "a < length st" for a
  proof -
    have "take (length st) st' ! a = st' ! a" using that by simp
    then show ?thesis using same by simp
  qed
  with same q show ?thesis by blast
qed

text \<open>
  Claim C5. When \<open>run_watermark_attack\<close> returns, every array that existed before the
  call is unchanged, in particular the caller's training set and its set of malicious
  test rows; and the arrays that hold poisoned rows (the mutated benign rows, the benign
  rows not drawn, the reassembled training set, and the array that the views of the
  watermarked test rows point into) were all allocated during the call. The same holds
  for a whole iteration of \<open>run_experiments\<close>: the training set, the original test
  set and the poisoning candidates are unchanged, and the watermarked test set is a new
  array.
\<close>

theorem clean_partitions_unchanged:
  fixes st :: "'v store"
  shows "(\<forall>res st'.
            run_watermark_attack env X_train y_train X_orig_mw_only_test y_orig_mw_only_test
              wm_config dataset train_filename_gw candidate_filename_mw drawn_gw drawn_mw st
              = Inr (res, st')
            \<longrightarrow> take (length st) st' = st
              \<and> (X_train < length st \<longrightarrow> st' ! X_train = st ! X_train)
              \<and> (X_orig_mw_only_test < length st \<longrightarrow>
                   st' ! X_orig_mw_only_test = st ! X_orig_mw_only_test)
              \<and> length st \<le> X_train_gw_to_be_watermarked (parts res)
              \<and> length st \<le> X_train_gw_no_watermarks (parts res)
              \<and> length st \<le> X_train_watermarked (parts res)
              \<and> (\<forall>v \<in> set (X_test_mw_views res). length st \<le> fst v))
       \<and> (\<forall>r st'.
            run_experiments_iteration env X_train y_train X_orig_test y_orig_test
              X_mw_poisoning_candidates gw_poison_set_size watermark_feature_set_size
              watermark_features_map watermark_feature_ids dataset x_train_filename_gw
              poisoning_candidate_filename_mw x_test_filename drawn_gw drawn_mw st
              = Inr (r, st')
            \<longrightarrow> take (length st) st' = st
              \<and> (X_train < length st \<longrightarrow> st' ! X_train = st ! X_train)
              \<and> (X_orig_test < length st \<longrightarrow> st' ! X_orig_test = st ! X_orig_test)
              \<and> (X_mw_poisoning_candidates < length st \<longrightarrow>
                   st' ! X_mw_poisoning_candidates = st ! X_mw_poisoning_candidates)
              \<and> length st \<le> X_train_gw_to_be_watermarked (parts (fst r))
              \<and> length st \<le> X_train_watermarked (parts (fst r))
              \<and> (\<forall>v \<in> set (X_test_mw_views (fst r)). length st \<le> fst v)
              \<and> length st \<le> snd r)"
proof (intro conjI allI impI)
  fix res st'
  assume run: "run_watermark_attack env X_train y_train X_orig_mw_only_test y_orig_mw_only_test
              wm_config dataset train_filename_gw candidate_filename_mw drawn_gw drawn_mw st
              = Inr (res, st')"
  note f = frame_from_prefix [OF frame_run_watermark_attack run]
  from f show "take (length st) st' = st" by simp
  from f show "st' ! X_train = st ! X_train" if "X_train < length st" using that by simp
  from f show "st' ! X_orig_mw_only_test = st ! X_orig_mw_only_test"
    if "X_orig_mw_only_test < length st" using that by simp
  from f show "length st \<le> X_train_gw_to_be_watermarked (parts res)" by simp
  from f show "length st \<le> X_train_gw_no_watermarks (parts res)" by simp
  from f show "length st \<le> X_train_watermarked (parts res)" by simp
  from f show "\<forall>v \<in> set (X_test_mw_views res). length st \<le> fst v" by simp
next
  fix r st'
  assume run: "run_experiments_iteration env X_train y_train X_orig_test y_orig_test
              X_mw_poisoning_candidates gw_poison_set_size watermark_feature_set_size
              watermark_features_map watermark_feature_ids dataset x_train_filename_gw
              poisoning_candidate_filename_mw x_test_filename drawn_gw drawn_mw st
              = Inr (r, st')"
  note f = frame_from_prefix [OF frame_run_experiments_iteration run]
  from f show "take (length st) st' = st" by simp
  from f show "st' ! X_train = st ! X_train" if "X_train < length st" using that by simp
  from f show "st' ! X_orig_test = st ! X_orig_test" if "X_orig_test < length st"
    using that by simp
  from f show "st' ! X_mw_poisoning_candidates = st ! X_mw_poisoning_candidates"
    if "X_mw_poisoning_candidates < length st" using that by simp
  from f show "length st \<le> X_train_gw_to_be_watermarked (parts (fst r))" by simp
  from f show "length st \<le> X_train_watermarked (parts (fst r))" by simp
  from f show "\<forall>v \<in> set (X_test_mw_views (fst r)). length st \<le> fst v" by simp
  from f show "length st \<le> snd r" by simp
qed

theorem clean_partitions_unchanged_witness:
  "run_watermark_attack example_env 0 [0, 1, 0, 0] 1 [1, 1] example_config ''ember'' None None
       [1] [1, 0] example_store
     = Inr (\<lparr>num_watermarked_still_mw = 2,
             outcome = \<lparr>successes = 2, failures = 0, benign_in_both_models = 0\<rparr>,
             parts = \<lparr>X_train_gw = 2, X_train_mw = 3, X_test_mw = 4,
                train_gw_to_be_watermarked = [1], test_mw_to_be_watermarked = [1, 0],
                X_train_gw_no_watermarks = 5, X_train_gw_to_be_watermarked = 6,
                X_train_watermarked = 7, y_train_watermarked = [1, 0, 0, 0]\<rparr>,
             X_test_mw_views = [(4, 1), (4, 0)]\<rparr>,
            example_store @
              [[[1, 2, 3], [7, 8, 9], [0, 0, 0]], [[4, 0, 6]], [[1, 5, 1], [2, 5, 2]],
               [[1, 2, 3], [0, 0, 0]], [[7, 5, 9]],
               [[4, 0, 6], [1, 2, 3], [0, 0, 0], [7, 5, 9]]])
   \<and> run_experiments_iteration example_env 0 [0, 1, 0, 0] 2 [0, 1, 1] 1 1 1 [(''b'', 5)] [1]
       ''ember'' None None None [1] [1, 0] example_iteration_store
     = Inr ((\<lparr>num_watermarked_still_mw = 2,
             outcome = \<lparr>successes = 2, failures = 0, benign_in_both_models = 0\<rparr>,
             parts = \<lparr>X_train_gw = 4, X_train_mw = 5, X_test_mw = 6,
                train_gw_to_be_watermarked = [1], test_mw_to_be_watermarked = [1, 0],
                X_train_gw_no_watermarks = 7, X_train_gw_to_be_watermarked = 8,
                X_train_watermarked = 9, y_train_watermarked = [1, 0, 0, 0]\<rparr>,
             X_test_mw_views = [(6, 1), (6, 0)]\<rparr>, 10),
            example_iteration_store @
              [[[1, 1, 1], [2, 2, 2]],
               [[1, 2, 3], [7, 8, 9], [0, 0, 0]], [[4, 0, 6]], [[1, 5, 1], [2, 5, 2]],
               [[1, 2, 3], [0, 0, 0]], [[7, 5, 9]],
               [[4, 0, 6], [1, 2, 3], [0, 0, 0], [7, 5, 9]],
               [[3, 3, 3], [1, 5, 1], [2, 5, 2]]])
   \<and> take (length example_store)
        (example_store @
              [[[1, 2, 3], [7, 8, 9], [0, 0, 0]], [[4, 0, 6]], [[1, 5, 1], [2, 5, 2]],
               [[1, 2, 3], [0, 0, 0]], [[7, 5, 9]],
               [[4, 0, 6], [1, 2, 3], [0, 0, 0], [7, 5, 9]]]) = example_store
   \<and> take (length example_iteration_store)
        (example_iteration_store @
              [[[1, 1, 1], [2, 2, 2]],
               [[1, 2, 3], [7, 8, 9], [0, 0, 0]], [[4, 0, 6]], [[1, 5, 1], [2, 5, 2]],
               [[1, 2, 3], [0, 0, 0]], [[7, 5, 9]],
               [[4, 0, 6], [1, 2, 3], [0, 0, 0], [7, 5, 9]],
               [[3, 3, 3], [1, 5, 1], [2, 5, 2]]]) = example_iteration_store"
proof -
  have attack: "run_watermark_attack example_env 0 [0, 1, 0, 0] 1 [1, 1] example_config ''ember'' None None
       [1] [1, 0] example_store
     = Inr (\<lparr>num_watermarked_still_mw = 2,
             outcome = \<lparr>successes = 2, failures = 0, benign_in_both_models = 0\<rparr>,
             parts = \<lparr>X_train_gw = 2, X_train_mw = 3, X_test_mw = 4,
                train_gw_to_be_watermarked = [1], test_mw_to_be_watermarked = [1, 0],
                X_train_gw_no_watermarks = 5, X_train_gw_to_be_watermarked = 6,
                X_train_watermarked = 7, y_train_watermarked = [1, 0, 0, 0]\<rparr>,
             X_test_mw_views = [(4, 1), (4, 0)]\<rparr>,
            example_store @
              [[[1, 2, 3], [7, 8, 9], [0, 0, 0]], [[4, 0, 6]], [[1, 5, 1], [2, 5, 2]],
               [[1, 2, 3], [0, 0, 0]], [[7, 5, 9]],
               [[4, 0, 6], [1, 2, 3], [0, 0, 0], [7, 5, 9]]])"
    by code_simp
  have iteration: "run_experiments_iteration example_env 0 [0, 1, 0, 0] 2 [0, 1, 1] 1 1 1 [(''b'', 5)] [1]
       ''ember'' None None None [1] [1, 0] example_iteration_store
     = Inr ((\<lparr>num_watermarked_still_mw = 2,
             outcome = \<lparr>successes = 2, failures = 0, benign_in_both_models = 0\<rparr>,
             parts = \<lparr>X_train_gw = 4, X_train_mw = 5, X_test_mw = 6,
                train_gw_to_be_watermarked = [1], test_mw_to_be_watermarked = [1, 0],
                X_train_gw_no_watermarks = 7, X_train_gw_to_be_watermarked = 8,
                X_train_watermarked = 9, y_train_watermarked = [1, 0, 0, 0]\<rparr>,
             X_test_mw_views = [(6, 1), (6, 0)]\<rparr>, 10),
            example_iteration_store @
              [[[1, 1, 1], [2, 2, 2]],
               [[1, 2, 3], [7, 8, 9], [0, 0, 0]], [[4, 0, 6]], [[1, 5, 1], [2, 5, 2]],
               [[1, 2, 3], [0, 0, 0]], [[7, 5, 9]],
               [[4, 0, 6], [1, 2, 3], [0, 0, 0], [7, 5, 9]],
               [[3, 3, 3], [1, 5, 1], [2, 5, 2]]])"
    by code_simp
  note kept_attack = clean_partitions_unchanged [THEN conjunct1, THEN spec, THEN spec,
      THEN mp, OF attack, THEN conjunct1]
  note kept = clean_partitions_unchanged [THEN conjunct2, THEN spec, THEN spec, THEN mp,
      OF iteration, THEN conjunct1]
  show ?thesis using attack iteration kept_attack kept by (intro conjI)
qed

lemma bind_p_Inr_iff:
  "bind_p m f st = Inr r \<longleftrightarrow> (\<exists>x st1. m st = Inr (x, st1) \<and> f x st1 = Inr r)"
  by (auto simp: bind_p_def split: sum.splits)

lemma poison_training_set_asserted:
  assumes "poison_training_set env X_train y_train X_orig_mw_only_test y_orig_mw_only_test
       wm_config dataset train_filename_gw drawn_gw drawn_mw st = Inr (train, st')"
  shows "length (st' ! X_train_watermarked train) = length (st' ! X_train)
     \<and> length (y_train_watermarked train) = length y_train"
  using assms unfolding poison_training_set_def bind_p_Inr_iff
  by (elim exE conjE)
    (auto simp: deref_def assert_p_def lift_p_def return_p_def split: if_splits)

text \<open>
  Claim C4. Whenever the reassembly of lines 640-720 returns, the reassembled training
  set has as many rows as the clean training set and the reassembled label vector as
  many entries as the clean one. And it does return, with the rows in the order
  malicious, benign not drawn, mutated drawn benign, when the labels are 0 or 1 (all 1
  for the malicious test rows), the draw is of distinct benign row numbers, the features
  of the trigger are known features, every row has an entry per feature, the rows are
  dense vectors without file names, and, if the sanity checks are on, the dtype of the
  training matrix holds every value of the trigger (the check of line 687 counts the
  rows that carry the trigger, and a value that the store changed is not found again).
\<close>

theorem reassembled_training_set_rows:
  assumes "X_train < length st"
  shows "(\<forall>train st'.
            poison_training_set env X_train y_train X_orig_mw_only_test y_orig_mw_only_test
              wm_config dataset train_filename_gw drawn_gw drawn_mw st = Inr (train, st')
            \<longrightarrow> length (st' ! X_train_watermarked train) = length (st ! X_train)
              \<and> length (y_train_watermarked train) = length y_train)
       \<and> (X_orig_mw_only_test < length st
            \<and> length y_train = length (st ! X_train) \<and> set y_train \<subseteq> {0, 1}
            \<and> length y_orig_mw_only_test = length (st ! X_orig_mw_only_test)
            \<and> set y_orig_mw_only_test \<subseteq> {1}
            \<and> valid_draw (length (filter (\<lambda>y. y = 0) y_train)) (num_gw_to_watermark wm_config)
                 drawn_gw
            \<and> num_mw_to_watermark wm_config \<le> length (st ! X_orig_mw_only_test)
            \<and> distinct (map fst (watermark_features wm_config))
            \<and> fst ` set (watermark_features wm_config) \<subseteq> set (build_feature_names env)
            \<and> (\<forall>row \<in> set (st ! X_train). length (build_feature_names env) \<le> length row)
            \<and> (\<forall>j \<in> set (wm_feat_ids wm_config). j < length (build_feature_names env))
            \<and> dataset \<noteq> ''pdf'' \<and> dataset \<noteq> ''drebin''
            \<and> (do_sanity_checks env \<longrightarrow>
                 (\<forall>item \<in> set (watermark_features wm_config).
                    array_astype env (snd item) = snd item))
          \<longrightarrow> (\<exists>train st'.
                 poison_training_set env X_train y_train X_orig_mw_only_test
                   y_orig_mw_only_test wm_config dataset None drawn_gw drawn_mw st
                   = Inr (train, st')
                 \<and> st' ! X_train_watermarked train
                     = st' ! X_train_mw train @ st' ! X_train_gw_no_watermarks train
                         @ st' ! X_train_gw_to_be_watermarked train
                 \<and> length (st' ! X_train_gw_to_be_watermarked train)
                     = num_gw_to_watermark wm_config
                 \<and> length (st' ! X_train_watermarked train) = length (st ! X_train)
                 \<and> length (y_train_watermarked train) = length y_train))"
proof (intro conjI allI impI)
  fix train st'
  assume run: "poison_training_set env X_train y_train X_orig_mw_only_test y_orig_mw_only_test
              wm_config dataset train_filename_gw drawn_gw drawn_mw st = Inr (train, st')"
  from frame_poison_training_set [of "length st" env X_train y_train X_orig_mw_only_test
      y_orig_mw_only_test wm_config dataset train_filename_gw drawn_gw drawn_mw] run
  have "take (length st) st' = take (length st) st"
    unfolding frame_from_def by blast
  then have "take (length st) st' ! X_train = st ! X_train" by simp
  then have same: "st' ! X_train = st ! X_train" using assms by simp
  from poison_training_set_asserted [OF run] same
  show "length (st' ! X_train_watermarked train) = length (st ! X_train)"
    and "length (y_train_watermarked train) = length y_train"
    by simp_all
next
  assume pre: "X_orig_mw_only_test < length st
            \<and> length y_train = length (st ! X_train) \<and> set y_train \<subseteq> {0, 1}
            \<and> length y_orig_mw_only_test = length (st ! X_orig_mw_only_test)
            \<and> set y_orig_mw_only_test \<subseteq> {1}
            \<and> valid_draw (length (filter (\<lambda>y. y = 0) y_train)) (num_gw_to_watermark wm_config)
                 drawn_gw
            \<and> num_mw_to_watermark wm_config \<le> length (st ! X_orig_mw_only_test)
            \<and> distinct (map fst (watermark_features wm_config))
            \<and> fst ` set (watermark_features wm_config) \<subseteq> set (build_feature_names env)
            \<and> (\<forall>row \<in> set (st ! X_train). length (build_feature_names env) \<le> length row)
            \<and> (\<forall>j \<in> set (wm_feat_ids wm_config). j < length (build_feature_names env))
            \<and> dataset \<noteq> ''pdf'' \<and> dataset \<noteq> ''drebin''
            \<and> (do_sanity_checks env \<longrightarrow>
                 (\<forall>item \<in> set (watermark_features wm_config).
                    array_astype env (snd item) = snd item))"
  have "\<exists>gw mw tm no_wm tbw y_w.
     poison_training_set env X_train y_train X_orig_mw_only_test y_orig_mw_only_test wm_config
         dataset None drawn_gw drawn_mw st
       = Inr (\<lparr>X_train_gw = length st, X_train_mw = length st + 1, X_test_mw = length st + 2,
               train_gw_to_be_watermarked = drawn_gw, test_mw_to_be_watermarked = drawn_mw,
               X_train_gw_no_watermarks = length st + 3,
               X_train_gw_to_be_watermarked = length st + 4,
               X_train_watermarked = length st + 5,
               y_train_watermarked = y_w\<rparr>,
              st @ [gw, mw, tm, no_wm, tbw, mw @ no_wm @ tbw])
     \<and> length (mw @ no_wm @ tbw) = length (st ! X_train)
     \<and> length y_w = length y_train
     \<and> length tbw = num_gw_to_watermark wm_config
     \<and> tm = st ! X_orig_mw_only_test"
    using assms pre by (intro poison_training_set_exec) simp_all
  then obtain gw mw tm no_wm tbw y_w where
    run: "poison_training_set env X_train y_train X_orig_mw_only_test y_orig_mw_only_test wm_config
         dataset None drawn_gw drawn_mw st
       = Inr (\<lparr>X_train_gw = length st, X_train_mw = length st + 1, X_test_mw = length st + 2,
               train_gw_to_be_watermarked = drawn_gw, test_mw_to_be_watermarked = drawn_mw,
               X_train_gw_no_watermarks = length st + 3,
               X_train_gw_to_be_watermarked = length st + 4,
               X_train_watermarked = length st + 5,
               y_train_watermarked = y_w\<rparr>,
              st @ [gw, mw, tm, no_wm, tbw, mw @ no_wm @ tbw])"
    and len: "length (mw @ no_wm @ tbw) = length (st ! X_train)" "length y_w = length y_train"
      "length tbw = num_gw_to_watermark wm_config"
    by blast
  show "\<exists>train st'.
                 poison_training_set env X_train y_train X_orig_mw_only_test
                   y_orig_mw_only_test wm_config dataset None drawn_gw drawn_mw st
                   = Inr (train, st')
                 \<and> st' ! X_train_watermarked train
                     = st' ! X_train_mw train @ st' ! X_train_gw_no_watermarks train
                         @ st' ! X_train_gw_to_be_watermarked train
                 \<and> length (st' ! X_train_gw_to_be_watermarked train)
                     = num_gw_to_watermark wm_config
                 \<and> length (st' ! X_train_watermarked train) = length (st ! X_train)
                 \<and> length (y_train_watermarked train) = length y_train"
    apply (rule exI, rule exI, rule conjI, rule run)
    using len by (simp add: nth_append)
qed

theorem reassembled_training_set_rows_witness:
  "\<exists>train st'.
     poison_training_set example_env 0 [0, 1, 0, 0] 1 [1, 1] example_config ''ember'' None
       [1] [1, 0] example_store = Inr (train, st')
     \<and> length (st' ! X_train_watermarked train) = 4
     \<and> length (y_train_watermarked train) = 4"
proof -
  have a: "0 < length example_store" by (simp add: example_store_def)
  have pre: "1 < length example_store
            \<and> length [0, 1, 0, 0 :: int] = length (example_store ! 0)
            \<and> set [0, 1, 0, 0 :: int] \<subseteq> {0, 1}
            \<and> length [1, 1 :: int] = length (example_store ! 1)
            \<and> set [1, 1 :: int] \<subseteq> {1}
            \<and> valid_draw (length (filter (\<lambda>y. y = 0) [0, 1, 0, 0 :: int]))
                 (num_gw_to_watermark example_config) [1]
            \<and> num_mw_to_watermark example_config \<le> length (example_store ! 1)
            \<and> distinct (map fst (watermark_features example_config))
            \<and> fst ` set (watermark_features example_config)
                 \<subseteq> set (build_feature_names example_env)
            \<and> (\<forall>row \<in> set (example_store ! 0). length (build_feature_names example_env) \<le> length row)
            \<and> (\<forall>j \<in> set (wm_feat_ids example_config). j < length (build_feature_names example_env))
            \<and> ''ember'' \<noteq> ''pdf'' \<and> ''ember'' \<noteq> ''drebin''
            \<and> (do_sanity_checks example_env \<longrightarrow>
                 (\<forall>item \<in> set (watermark_features example_config).
                    array_astype example_env (snd item) = snd item))"
    by (simp add: example_store_def example_config_def example_env_def valid_draw_def)
  have four: "length (example_store ! 0) = 4" by (simp add: example_store_def)
  note run = mp [OF conjunct2 [OF reassembled_training_set_rows [OF a, of example_env
      "[0, 1, 0, 0]" 1 "[1, 1]" example_config "''ember''" None "[1]" "[1, 0]"]] pre]
  then obtain train st' where
    "poison_training_set example_env 0 [0, 1, 0, 0] 1 [1, 1] example_config ''ember'' None
       [1] [1, 0] example_store = Inr (train, st')"
    "length (st' ! X_train_watermarked train) = length (example_store ! 0)"
    "length (y_train_watermarked train) = length [0, 1, 0, 0 :: int]"
    by blast
  then show ?thesis unfolding four by auto
qed

section \<open>Properties of the spectral signatures\<close>

text \<open>The bitmap has a one exactly at the flagged indices.\<close>

lemma fold_update_one:
  "fold (\<lambda>i r. r[i := c]) idxs r = map (\<lambda>i. if i \<in> set idxs then c else r ! i) [0..<length r]"
proof (induction idxs arbitrary: r)
  case Nil
  show ?case by (simp add: map_nth)
next
  case (Cons i idxs)
  show ?case by (simp add: Cons.IH)
qed

text \<open>
  Counting the flagged indices is counting the scores above the percentile, in the
  list or in the sorted list.
\<close>

lemma count_by_index:
  "length (filter (\<lambda>i. P (xs ! i)) [0..<length xs]) = length (filter P xs)"
proof -
  have "filter P xs = filter P (map (\<lambda>i. xs ! i) [0..<length xs])" by (simp add: map_nth)
  also have "\<dots> = map (\<lambda>i. xs ! i) (filter (\<lambda>i. P (xs ! i)) [0..<length xs])"
    by (simp add: filter_map o_def)
  finally show ?thesis by simp
qed

lemma count_sort: "length (filter P (sort xs)) = length (filter P (xs :: real list))"
  by (simp add: filter_sort)

text \<open>
  The 85th percentile of \<open>n\<close> values lies between the sorted values at the positions
  \<open>lo = \<lfloor>0.85 (n - 1)\<rfloor>\<close> and \<open>lo + 1\<close>: it is at least the first, and below the second
  when the values are pairwise distinct.
\<close>

lemma percentile_cut:
  fixes a :: "real list"
  assumes "a \<noteq> []"
  shows "nat \<lfloor>85 / 100 * real (length a - 1)\<rfloor> \<le> length a - 1"
    and "sort a ! nat \<lfloor>85 / 100 * real (length a - 1)\<rfloor> \<le> np_percentile a 85"
    and "nat \<lfloor>85 / 100 * real (length a - 1)\<rfloor> + 1 < length a \<Longrightarrow> distinct a
           \<Longrightarrow> np_percentile a 85 < sort a ! (nat \<lfloor>85 / 100 * real (length a - 1)\<rfloor> + 1)"
proof -
  define n where "n = length a"
  define lo where "lo = nat \<lfloor>85 / 100 * real (n - 1)\<rfloor>"
  let ?pos = "85 / 100 * real (n - 1)"
  have n: "0 < n" using assms by (simp add: n_def)
  have pos0: "0 \<le> ?pos" by simp
  have "?pos \<le> real (n - 1)" by simp
  then have "\<lfloor>?pos\<rfloor> \<le> int (n - 1)" by linarith
  then have lo: "lo \<le> n - 1" unfolding lo_def by linarith
  have "0 \<le> \<lfloor>?pos\<rfloor>" using pos0 by (simp only: zero_le_floor of_int_0)
  then have lo_fl: "real lo = of_int \<lfloor>?pos\<rfloor>" unfolding lo_def by simp
  have lo_le: "real lo \<le> ?pos" unfolding lo_fl by (rule of_int_floor_le)
  have lo_gt: "?pos < real lo + 1" unfolding lo_fl by linarith
  let ?hi = "min (lo + 1) (n - 1)"
  have s: "sorted (sort a)" "length (sort a) = n" by (simp_all add: n_def)
  have hi: "lo \<le> ?hi" "?hi < n" using lo n by auto
  have le: "sort a ! lo \<le> sort a ! ?hi"
    using s hi by (simp add: sorted_nth_mono)
  have P: "np_percentile a 85 = sort a ! lo + (?pos - real lo) * (sort a ! ?hi - sort a ! lo)"
    by (simp add: np_percentile_def Let_def lo_def n_def)
  have above: "sort a ! lo \<le> np_percentile a 85"
    unfolding P using le lo_le by simp
  have below: "np_percentile a 85 < sort a ! (lo + 1)" if more: "lo + 1 < n" and d: "distinct a"
  proof -
    have hi_eq: "?hi = lo + 1" using more by simp
    have "distinct (sort a)" using d by simp
    then have "sort a ! lo \<noteq> sort a ! (lo + 1)"
      using more s(2) by (simp add: nth_eq_iff_index_eq)
    moreover have "sort a ! lo \<le> sort a ! (lo + 1)" using le hi_eq by simp
    ultimately have lt: "sort a ! lo < sort a ! (lo + 1)" by simp
    have "(?pos - real lo) * (sort a ! (lo + 1) - sort a ! lo)
            < 1 * (sort a ! (lo + 1) - sort a ! lo)"
      using lt lo_gt by (intro mult_strict_right_mono) simp_all
    then show ?thesis unfolding P hi_eq by simp
  qed
  show "nat \<lfloor>85 / 100 * real (length a - 1)\<rfloor> \<le> length a - 1"
    using lo unfolding lo_def n_def .
  show "sort a ! nat \<lfloor>85 / 100 * real (length a - 1)\<rfloor> \<le> np_percentile a 85"
    using above unfolding lo_def n_def .
  show "nat \<lfloor>85 / 100 * real (length a - 1)\<rfloor> + 1 < length a \<Longrightarrow> distinct a
           \<Longrightarrow> np_percentile a 85 < sort a ! (nat \<lfloor>85 / 100 * real (length a - 1)\<rfloor> + 1)"
    using below unfolding lo_def n_def .
qed

text \<open>
  So at most the \<open>n - 1 - lo\<close> values of the sorted list after position \<open>lo\<close> are
  above the percentile, and all of them are when the values are pairwise distinct.
\<close>

lemma flagged_count:
  fixes a :: "real list"
  assumes "a \<noteq> []"
  shows "length (filter (\<lambda>i. a ! i > np_percentile a 85) [0..<length a])
           \<le> length a - 1 - nat \<lfloor>85 / 100 * real (length a - 1)\<rfloor>"
    and "distinct a \<Longrightarrow> length (filter (\<lambda>i. a ! i > np_percentile a 85) [0..<length a])
           = length a - 1 - nat \<lfloor>85 / 100 * real (length a - 1)\<rfloor>"
proof -
  define lo where "lo = nat \<lfloor>85 / 100 * real (length a - 1)\<rfloor>"
  define P where "P = np_percentile a 85"
  define s where "s = sort a"
  note cut = percentile_cut [OF assms, folded lo_def P_def s_def]
  have s: "sorted s" "length s = length a" by (simp_all add: s_def)
  have cnt: "length (filter (\<lambda>i. a ! i > P) [0..<length a]) = length (filter (\<lambda>x. x > P) s)"
    using count_by_index [of "\<lambda>x. x > P" a] count_sort [of "\<lambda>x. x > P" a] by (simp add: s_def)
  have low: "filter (\<lambda>x. x > P) (take (lo + 1) s) = []"
  proof -
    have "\<forall>x \<in> set (take (lo + 1) s). x \<le> P"
    proof
      fix x assume "x \<in> set (take (lo + 1) s)"
      then obtain k where k: "k < lo + 1" "k < length s" "x = s ! k"
        by (auto simp: in_set_conv_nth)
      have "lo < length s" using cut(1) s(2) assms by (cases a) auto
      then have "s ! k \<le> s ! lo" using s(1) k by (simp add: sorted_nth_mono)
      then show "x \<le> P" using cut(2) k by simp
    qed
    then show ?thesis by (auto simp: filter_empty_conv)
  qed
  have split: "filter (\<lambda>x. x > P) s = filter (\<lambda>x. x > P) (drop (lo + 1) s)"
  proof -
    have "filter (\<lambda>x. x > P) s = filter (\<lambda>x. x > P) (take (lo + 1) s @ drop (lo + 1) s)" by simp
    also have "\<dots> = filter (\<lambda>x. x > P) (drop (lo + 1) s)" unfolding filter_append low by simp
    finally show ?thesis .
  qed
  have "length (filter (\<lambda>x. x > P) (drop (lo + 1) s)) \<le> length (drop (lo + 1) s)"
    by (rule length_filter_le)
  then show "length (filter (\<lambda>i. a ! i > np_percentile a 85) [0..<length a])
           \<le> length a - 1 - nat \<lfloor>85 / 100 * real (length a - 1)\<rfloor>"
    using cnt split s(2) by (simp add: P_def lo_def)
  assume d: "distinct a"
  have "\<forall>x \<in> set (drop (lo + 1) s). x > P"
  proof
    fix x assume "x \<in> set (drop (lo + 1) s)"
    then obtain k where k: "k < length s - (lo + 1)" "x = s ! (lo + 1 + k)"
      by (auto simp: in_set_conv_nth)
    then have more: "lo + 1 < length a" using s(2) by simp
    have "s ! (lo + 1) \<le> s ! (lo + 1 + k)" using s(1) k by (simp add: sorted_nth_mono)
    then show "x > P" using cut(3) [OF more d] k by simp
  qed
  then have "filter (\<lambda>x. x > P) (drop (lo + 1) s) = drop (lo + 1) s" by (simp add: filter_id_conv)
  then show "length (filter (\<lambda>i. a ! i > np_percentile a 85) [0..<length a])
           = length a - 1 - nat \<lfloor>85 / 100 * real (length a - 1)\<rfloor>"
    using cnt split s(2) by (simp add: P_def lo_def)
qed


text \<open>
  A right-singular vector is determined up to its sign only; the norm removes the sign,
  so the scores do not depend on which of the two the decomposition returns.
\<close>

lemma np_dot_minus: "np_dot (map uminus e) row = - np_dot e row"
proof (induction e arbitrary: row)
  case Nil
  show ?case by (simp add: np_dot_def)
next
  case (Cons x e)
  show ?case
  proof (cases row)
    case Nil
    then show ?thesis by (simp add: np_dot_def)
  next
    case (Cons y row')
    then show ?thesis using Cons.IH [of row'] by (simp add: np_dot_def)
  qed
qed

lemma scores_sign:
  "map (\<lambda>row. \<bar>np_dot (map uminus e) row\<bar>) X = map (\<lambda>row. \<bar>np_dot e row\<bar>) X"
  by (simp add: np_dot_minus)

text \<open>
  With one vector in \<open>eigs\<close> the norm of a column of \<^verbatim>\<open>corrs\<close> is the absolute value of its
  only entry.
\<close>

lemma scores_one_vector:
  assumes "length e = length (hd X)"
  shows "bind_e (matmul_transpose (take 1 (e # rest)) X)
           (\<lambda>corrs. let scores = norm_axis0 (length X) corrs in Inr (F scores))
         = Inr (F (map (\<lambda>row. \<bar>np_dot e row\<bar>) X))"
proof -
  have "norm_axis0 (length X) [map (np_dot e) X] = map (\<lambda>row. \<bar>np_dot e row\<bar>) X"
    by (intro nth_equalityI) (simp_all add: norm_axis0_def)
  then show ?thesis using assms by (simp add: matmul_transpose_def bind_e_def)
qed

lemma centered_shape:
  assumes "data_mat \<noteq> []"
  shows "length (subtract_row data_mat (np_average data_mat)) = length data_mat"
    and "length (hd (subtract_row data_mat (np_average data_mat))) = length (hd data_mat)"
  using assms by (simp_all add: subtract_row_def np_average_def hd_map)

lemma flag_scores_eq:
  assumes "length scores = n"
  shows "flag_scores scores n =
     (map (\<lambda>i. if scores ! i > np_percentile scores 85 then 1 else 0) [0..<n],
      filter (\<lambda>i. scores ! i > np_percentile scores 85) [0..<n],
      set (filter (\<lambda>i. scores ! i > np_percentile scores 85) [0..<n]))"
  using assms by (simp add: flag_scores_def Let_def fold_update_one)

text \<open>Equal scores are all equal to their percentile, and none is above it.\<close>

lemma flag_scores_equal:
  assumes "0 < n"
  shows "flag_scores (replicate n c) n = (replicate n 0, [], {})"
proof -
  let ?lo = "nat \<lfloor>85 / 100 * real (length (replicate n c) - 1)\<rfloor>"
  have lo: "?lo \<le> length (replicate n c) - 1"
    using percentile_cut(1) [of "replicate n c"] assms by simp
  have "sort (replicate n c) = replicate n c" by (simp add: sorted_sort_id)
  then have "np_percentile (replicate n c) 85 = c"
    using lo assms by (simp add: np_percentile_def Let_def)
  then show ?thesis by (simp add: flag_scores_def Let_def)
qed

text \<open>
  Claim C7, as the code has it. The data matrix has at least one row, and the
  decomposition of the centered matrix returns a vector \<open>e\<close> first, as long as a row.
  Then both functions return. The score of a row is the absolute value of its product
  with \<open>e\<close>, which is the norm of its projection onto \<open>e\<close>: of the row itself in
  \<^verbatim>\<open>spectral_sign_github\<close>, of the centered row in \<^verbatim>\<open>spectral_sign_paper\<close>. The
  flagged samples are exactly those whose score is strictly above the 85th percentile
  of the scores, and the bitmap has a one exactly at them. Of \<open>n\<close> samples at most
  \<open>n - 1 - \<lfloor>0.85 (n - 1)\<rfloor>\<close> are flagged (15 of 100), and exactly that many when the
  scores are pairwise distinct.
\<close>

theorem spectral_sign_flags_above_percentile:
  fixes data_mat :: "real matrix"
  assumes "data_mat \<noteq> []"
    and "svd_v (subtract_row data_mat (np_average data_mat)) = e # rest"
    and "length e = length (hd data_mat)"
  shows "\<exists>scores_gh scores_pa to_remove_gh top_gh to_remove_pa top_pa.
      scores_gh = map (\<lambda>row. \<bar>np_dot e row\<bar>) data_mat
    \<and> scores_pa = map (\<lambda>row. \<bar>np_dot e row\<bar>) (subtract_row data_mat (np_average data_mat))
    \<and> spectral_sign_github svd_v data_mat = Inr (to_remove_gh, top_gh, set top_gh)
    \<and> spectral_sign_paper svd_v data_mat = Inr (to_remove_pa, top_pa, set top_pa)
    \<and> (\<forall>(scores, to_remove, top_scores)
          \<in> {(scores_gh, to_remove_gh, top_gh), (scores_pa, to_remove_pa, top_pa)}.
         top_scores = filter (\<lambda>i. scores ! i > np_percentile scores 85) [0..<length data_mat]
       \<and> to_remove = map (\<lambda>i. if scores ! i > np_percentile scores 85 then 1 else 0)
                        [0..<length data_mat]
       \<and> length top_scores \<le> length data_mat - 1 - nat \<lfloor>85 / 100 * real (length data_mat - 1)\<rfloor>
       \<and> (distinct scores \<longrightarrow>
            length top_scores = length data_mat - 1 - nat \<lfloor>85 / 100 * real (length data_mat - 1)\<rfloor>))"
proof -
  define n where "n = length data_mat"
  define centered where "centered = subtract_row data_mat (np_average data_mat)"
  define scores_gh where "scores_gh = map (\<lambda>row. \<bar>np_dot e row\<bar>) data_mat"
  define scores_pa where "scores_pa = map (\<lambda>row. \<bar>np_dot e row\<bar>) centered"
  define tops_of where "tops_of = (\<lambda>scores :: real list.
      filter (\<lambda>i. scores ! i > np_percentile scores 85) [0..<n])"
  define bits_of where "bits_of = (\<lambda>scores :: real list.
      map (\<lambda>i. if scores ! i > np_percentile scores 85 then 1 else 0 :: real) [0..<n])"
  note shape = centered_shape [OF assms(1), folded centered_def]
  have lg: "length scores_gh = n" and lp: "length scores_pa = n"
    using shape(1) by (simp_all add: scores_gh_def scores_pa_def n_def)
  have ne: "scores_gh \<noteq> []" "scores_pa \<noteq> []"
    using assms(1) lg lp by (auto simp: n_def)
  have gh: "spectral_sign_github svd_v data_mat = Inr (bits_of scores_gh, tops_of scores_gh, set (tops_of scores_gh))"
    unfolding spectral_sign_github_def Let_def assms(2)
    using scores_one_vector [OF assms(3), of rest "\<lambda>scores. flag_scores scores (length data_mat)"]
      flag_scores_eq [OF lg]
    by (simp add: Let_def scores_gh_def n_def tops_of_def bits_of_def)
  have len': "length e = length (hd centered)" using assms(3) shape(2) by simp
  have pa: "spectral_sign_paper svd_v data_mat = Inr (bits_of scores_pa, tops_of scores_pa, set (tops_of scores_pa))"
    unfolding spectral_sign_paper_def Let_def assms(2)
    using scores_one_vector [OF len', of rest "\<lambda>scores. flag_scores scores (length data_mat)"]
      flag_scores_eq [OF lp] shape(1)
    by (simp add: Let_def scores_pa_def n_def tops_of_def bits_of_def centered_def)
  have cg: "length (tops_of scores_gh) \<le> n - 1 - nat \<lfloor>85 / 100 * real (n - 1)\<rfloor>"
    "distinct scores_gh \<Longrightarrow> length (tops_of scores_gh) = n - 1 - nat \<lfloor>85 / 100 * real (n - 1)\<rfloor>"
    using flagged_count [OF ne(1)] unfolding lg tops_of_def by simp_all
  have cp: "length (tops_of scores_pa) \<le> n - 1 - nat \<lfloor>85 / 100 * real (n - 1)\<rfloor>"
    "distinct scores_pa \<Longrightarrow> length (tops_of scores_pa) = n - 1 - nat \<lfloor>85 / 100 * real (n - 1)\<rfloor>"
    using flagged_count [OF ne(2)] unfolding lp tops_of_def by simp_all
  have main: "scores_gh = map (\<lambda>row. \<bar>np_dot e row\<bar>) data_mat
    \<and> scores_pa = map (\<lambda>row. \<bar>np_dot e row\<bar>) (subtract_row data_mat (np_average data_mat))
    \<and> spectral_sign_github svd_v data_mat = Inr (bits_of scores_gh, tops_of scores_gh, set (tops_of scores_gh))
    \<and> spectral_sign_paper svd_v data_mat = Inr (bits_of scores_pa, tops_of scores_pa, set (tops_of scores_pa))
    \<and> (\<forall>(scores, to_remove, top_scores)
          \<in> {(scores_gh, bits_of scores_gh, tops_of scores_gh), (scores_pa, bits_of scores_pa, tops_of scores_pa)}.
         top_scores = filter (\<lambda>i. scores ! i > np_percentile scores 85) [0..<length data_mat]
       \<and> to_remove = map (\<lambda>i. if scores ! i > np_percentile scores 85 then 1 else 0)
                        [0..<length data_mat]
       \<and> length top_scores \<le> length data_mat - 1 - nat \<lfloor>85 / 100 * real (length data_mat - 1)\<rfloor>
       \<and> (distinct scores \<longrightarrow>
            length top_scores = length data_mat - 1 - nat \<lfloor>85 / 100 * real (length data_mat - 1)\<rfloor>))"
    using gh pa cg cp
    by (simp add: scores_gh_def [symmetric] scores_pa_def [symmetric] centered_def [symmetric]
        n_def [symmetric]) (simp add: tops_of_def bits_of_def)
  show ?thesis
    by (rule exI [where x = scores_gh], rule exI [where x = scores_pa],
        rule exI [where x = "bits_of scores_gh"], rule exI [where x = "tops_of scores_gh"],
        rule exI [where x = "bits_of scores_pa"], rule exI [where x = "tops_of scores_pa"],
        rule main)
qed

text \<open>
  Four samples in two dimensions that differ in the first coordinate only, with the
  unit vectors as right-singular vectors: both functions flag the last sample, one of
  four being \<open>4 - 1 - \<lfloor>0.85 * 3\<rfloor>\<close>.
\<close>

theorem spectral_sign_flags_above_percentile_witness:
  "spectral_sign_github (\<lambda>M. [[1, 0], [0, 1]]) [[0, 5], [1, 5], [2, 5], [6, 5]]
     = Inr ([0, 0, 0, 1], [3], {3})
   \<and> spectral_sign_paper (\<lambda>M. [[1, 0], [0, 1]]) [[0, 5], [1, 5], [2, 5], [6, 5]]
     = Inr ([0, 0, 0, 1], [3], {3})"
proof -
  let ?X = "[[0, 5], [1, 5], [2, 5], [6, 5]] :: real matrix"
  let ?svd = "\<lambda>M :: real matrix. [[1, 0], [0, 1 :: real]]"
  have up: "[0..<4] = [0, 1, 2, 3]" by (simp add: upt_conv_Cons)
  have up2: "[0..<2] = [0, 1]" by (simp add: upt_conv_Cons)
  have cen: "subtract_row ?X (np_average ?X) = [[- 9 / 4, 0], [- 5 / 4, 0], [- 1 / 4, 0], [15 / 4, 0]]"
    by (simp add: subtract_row_def np_average_def up2)
  have sg: "map (\<lambda>row. \<bar>np_dot [1, 0] row\<bar>) ?X = [0, 1, 2, 6]"
    by (simp add: np_dot_def)
  have sp: "map (\<lambda>row. \<bar>np_dot [1, 0] row\<bar>) (subtract_row ?X (np_average ?X))
              = [9 / 4, 5 / 4, 1 / 4, 15 / 4]"
    unfolding cen by (simp add: np_dot_def)
  have pg: "np_percentile [0, 1, 2, 6] 85 = 21 / 5"
    by (simp add: np_percentile_def Let_def)
  have pp: "np_percentile [9 / 4, 5 / 4, 1 / 4, 15 / 4] 85 = 123 / 40"
    by (simp add: np_percentile_def Let_def)
  have ne: "?X \<noteq> []" by simp
  have svd: "?svd (subtract_row ?X (np_average ?X)) = [1, 0] # [[0, 1]]" by simp
  have len: "length [1, 0 :: real] = length (hd ?X)" by simp
  from spectral_sign_flags_above_percentile [where data_mat = ?X and svd_v = ?svd
      and e = "[1, 0]" and rest = "[[0, 1]]", OF ne svd len]
  obtain scores_gh scores_pa to_remove_gh top_gh to_remove_pa top_pa where
    sc: "scores_gh = map (\<lambda>row. \<bar>np_dot [1, 0] row\<bar>) ?X"
      "scores_pa = map (\<lambda>row. \<bar>np_dot [1, 0] row\<bar>) (subtract_row ?X (np_average ?X))"
    and run: "spectral_sign_github ?svd ?X = Inr (to_remove_gh, top_gh, set top_gh)"
      "spectral_sign_paper ?svd ?X = Inr (to_remove_pa, top_pa, set top_pa)"
    and every: "\<forall>(scores, to_remove, top_scores)
          \<in> {(scores_gh, to_remove_gh, top_gh), (scores_pa, to_remove_pa, top_pa)}.
         top_scores = filter (\<lambda>i. scores ! i > np_percentile scores 85) [0..<length ?X]
       \<and> to_remove = map (\<lambda>i. if scores ! i > np_percentile scores 85 then 1 else 0)
                        [0..<length ?X]
       \<and> length top_scores \<le> length ?X - 1 - nat \<lfloor>85 / 100 * real (length ?X - 1)\<rfloor>
       \<and> (distinct scores \<longrightarrow>
            length top_scores = length ?X - 1 - nat \<lfloor>85 / 100 * real (length ?X - 1)\<rfloor>)"
    by (elim exE conjE) (rule that, assumption+)
  have sc': "scores_gh = [0, 1, 2, 6]" "scores_pa = [9 / 4, 5 / 4, 1 / 4, 15 / 4]"
    using sc sg sp by simp_all
  have four: "length ?X = 4" by simp
  note g = bspec [OF every insertI1, unfolded prod.case]
  note p = bspec [OF every insertI2 [OF insertI1], unfolded prod.case]
  note tops = conjunct1 [OF g] conjunct1 [OF conjunct2 [OF g]]
    conjunct1 [OF p] conjunct1 [OF conjunct2 [OF p]]
  have "top_gh = [3]" "to_remove_gh = [0, 0, 0, 1]" "top_pa = [3]" "to_remove_pa = [0, 0, 0, 1]"
    using tops unfolding sc' pg pp four up by simp_all
  with run show ?thesis by simp
qed

text \<open>
  The flagged samples are not always the top 15% of the scores. Ten samples \<open>[1, 0]\<close>
  and ten samples \<open>[-1, 0]\<close> have the mean \<open>[0, 0]\<close> and the top right-singular vector
  \<open>[1, 0]\<close>; every score is 1, the percentile is 1, and of the twenty samples neither
  function flags one.
\<close>

theorem spectral_sign_ties_counterexample:
  "spectral_sign_github (\<lambda>M. [[1, 0], [0, 1]]) (replicate 10 [1, 0] @ replicate 10 [- 1, 0])
     = Inr (replicate 20 0, [], {})
   \<and> spectral_sign_paper (\<lambda>M. [[1, 0], [0, 1]]) (replicate 10 [1, 0] @ replicate 10 [- 1, 0])
     = Inr (replicate 20 0, [], {})"
proof -
  let ?X = "replicate 10 [1, 0] @ replicate 10 [- 1, 0] :: real matrix"
  have up2: "[0..<2] = [0, 1]" by (simp add: upt_conv_Cons)
  have avg: "np_average ?X = [0, 0]"
    by (simp add: np_average_def up2 sum_list_replicate)
  have cen: "subtract_row ?X (np_average ?X) = ?X"
    unfolding avg by (simp add: subtract_row_def)
  have sc: "map (\<lambda>row. \<bar>np_dot [1, 0] row\<bar>) ?X = replicate 20 1"
    by (simp add: np_dot_def replicate_add [symmetric])
  have run: "bind_e (matmul_transpose (take 1 ([1, 0] # [[0, 1]])) ?X)
           (\<lambda>corrs. let scores = norm_axis0 (length ?X) corrs in Inr (flag_scores scores (length ?X)))
         = Inr (flag_scores (map (\<lambda>row. \<bar>np_dot [1, 0] row\<bar>) ?X) (length ?X))"
    by (rule scores_one_vector) simp
  have len: "length ?X = 20" by simp
  have fl: "flag_scores (replicate 20 1) 20 = (replicate 20 0, [], {})"
    by (rule flag_scores_equal) simp
  show ?thesis
    unfolding spectral_sign_github_def spectral_sign_paper_def Let_def cen
    using run unfolding sc len fl by (simp add: Let_def)
qed

end
